(* ===== verification/Prelude.thy ===== *)
theory Prelude
  imports Main "HOL-Library.Word"
begin

unbundle bit_operations_syntax

text \<open>
  Shared vocabulary of the development: the C integer types of the 32-bit build (the makefile
  compiles every file with \<^verbatim>\<open>-m32 -D_FILE_OFFSET_BITS=64 -DNDEBUG\<close>, so \<^verbatim>\<open>size_t\<close>,
  \<^verbatim>\<open>long\<close> and pointers are 32 bits wide, \<^verbatim>\<open>off_t\<close> is 64 bits wide and \<^verbatim>\<open>assert\<close>
  expands to nothing), the ways a C program leaves defined behaviour, and the argument vector
  the shell passes to its command handlers.
\<close>

named_theorems res_simps \<open>computation rules of the fault monad\<close>
named_theorems word_simps \<open>facts that move machine words to nat\<close>

section \<open>Machine integers\<close>

type_synonym uint8 = "8 word"
type_synonym uint16 = "16 word"
type_synonym uint32 = "32 word"
type_synonym uint64 = "64 word"
type_synonym size_t = "32 word"

abbreviation (input) UINT32_MAX :: uint32 where "UINT32_MAX \<equiv> 0xFFFFFFFF"

text \<open>Unsigned left shift as C has it on an operand already promoted to its own width.\<close>

abbreviation shl :: "'a::len word \<Rightarrow> nat \<Rightarrow> 'a word" where
  "shl x n \<equiv> push_bit n x"

abbreviation shr :: "'a::len word \<Rightarrow> nat \<Rightarrow> 'a word" where
  "shr x n \<equiv> drop_bit n x"

text \<open>C's logical negation: 1 for zero, 0 for anything else.\<close>

definition c_not :: "'a::len word \<Rightarrow> 'a word" where
  "c_not x = (if x = 0 then 1 else 0)"

text \<open>C's conversion of a condition to int.\<close>

definition c_bool :: "bool \<Rightarrow> 'a::len word" where
  "c_bool b = (if b then 1 else 0)"

section \<open>Faults\<close>

text \<open>
  What stops the program other than returning: reading through a null pointer, through a pointer
  into freed memory, outside an array, calling \<^verbatim>\<open>exit\<close>, reading an object that was never
  written, or waiting for something that never comes.
\<close>

datatype fault = Null_deref | Use_after_free | Out_of_bounds | Exit int | Uninitialised | Hang

type_synonym 'a res = "fault + 'a"

definition rbind :: "'a res \<Rightarrow> ('a \<Rightarrow> 'b res) \<Rightarrow> 'b res" where
  "rbind m f = (case m of Inl e \<Rightarrow> Inl e | Inr x \<Rightarrow> f x)"

lemma rbind_simps [simp, res_simps]:
  "rbind (Inl e) f = Inl e"
  "rbind (Inr x) f = f x"
  by (simp_all add: rbind_def)

lemma rbind_Inr_iff: "rbind m f = Inr y \<longleftrightarrow> (\<exists>x. m = Inr x \<and> f x = Inr y)"
  by (cases m) auto

lemma rbind_assoc: "rbind (rbind m f) g = rbind m (\<lambda>x. rbind (f x) g)"
  by (cases m) auto

section \<open>Argument vectors\<close>

text \<open>
  A slot of \<^verbatim>\<open>argv\<close> is null, a pointer to a live string, or a pointer into a line that has been
  freed. The array itself is a list; the null array that \<^verbatim>\<open>cmd_help\<close> passes is the empty list.
\<close>

datatype cptr = NULL | Ptr string | Freed

type_synonym argv = "cptr list"

definition load :: "argv \<Rightarrow> nat \<Rightarrow> cptr res" where
  "load argv i = (if argv = [] then Inl Null_deref
                  else if i < length argv then Inr (argv ! i) else Inl Out_of_bounds)"

fun deref_ptr :: "cptr \<Rightarrow> string res" where
  "deref_ptr NULL = Inl Null_deref"
| "deref_ptr (Ptr s) = Inr s"
| "deref_ptr Freed = Inl Use_after_free"

definition deref :: "argv \<Rightarrow> nat \<Rightarrow> string res" where
  "deref argv i = rbind (load argv i) deref_ptr"

text \<open>What \<^verbatim>\<open>split_args\<close> leaves for a handler: \<^term>\<open>argc\<close> live strings and a null after them.\<close>

definition argv_ok :: "nat \<Rightarrow> argv \<Rightarrow> bool" where
  "argv_ok argc argv \<longleftrightarrow> argc < length argv \<and> argv ! argc = NULL
     \<and> (\<forall>i<argc. \<exists>s. argv ! i = Ptr s)"

definition arg_str :: "argv \<Rightarrow> nat \<Rightarrow> string" where
  "arg_str argv i = (case argv ! i of Ptr s \<Rightarrow> s | _ \<Rightarrow> [])"

lemma argv_ok_nonempty [simp]: "argv_ok argc argv \<Longrightarrow> argv \<noteq> []"
  by (auto simp: argv_ok_def)

lemma deref_ok: "argv_ok argc argv \<Longrightarrow> i < argc \<Longrightarrow> deref argv i = Inr (arg_str argv i)"
  by (auto simp: argv_ok_def deref_def load_def arg_str_def)

lemma deref_Nil [simp, res_simps]: "deref [] i = Inl Null_deref"
  by (simp add: deref_def load_def)

lemma load_Nil [simp, res_simps]: "load [] i = Inl Null_deref"
  by (simp add: load_def)

lemma load_at_argc: "argv_ok argc argv \<Longrightarrow> load argv argc = Inr NULL"
  by (auto simp: argv_ok_def load_def)

lemma load_ok: "argv_ok argc argv \<Longrightarrow> i < argc \<Longrightarrow> load argv i = Inr (Ptr (arg_str argv i))"
  by (auto simp: argv_ok_def load_def arg_str_def split: cptr.splits)

text \<open>The vector a list of tokens gives, padded with nulls as a fresh \<^verbatim>\<open>calloc\<close> leaves it.\<close>

definition mk_argv :: "string list \<Rightarrow> argv" where
  "mk_argv ts = map Ptr ts @ [NULL]"

lemma argv_ok_mk_argv: "argv_ok (length ts) (mk_argv ts)"
  by (auto simp: argv_ok_def mk_argv_def nth_append)

section \<open>Generic lemmas on lists and words\<close>

lemma take_drop_append_same: "take n (drop m xs) @ drop (m + n) xs = drop m xs"
  by (metis add.commute append_take_drop_id drop_drop)

lemma c_bool_simps [simp]: "c_bool True = 1" "c_bool False = 0"
  by (simp_all add: c_bool_def)

lemma c_not_simps [simp]: "c_not 0 = 1" "c_not 1 = 0"
  by (simp_all add: c_not_def)


lemma sint_nonneg_64: "unat (w :: 64 word) < 2 ^ 63 \<Longrightarrow> 0 \<le> sint w"
proof -
  assume "unat w < 2 ^ 63"
  then have "uint w < 2 ^ 63" by (metis of_nat_less_iff of_nat_numeral of_nat_power uint_nat)
  then have "signed_take_bit 63 (uint w) = uint w"
    by (intro signed_take_bit_int_eq_self) (auto intro: order_trans [of _ 0])
  then show ?thesis by (simp add: sint_uint)
qed

lemma unat_of_nat_less [word_simps]: "n < 2 ^ LENGTH('a::len) \<Longrightarrow> unat (of_nat n :: 'a word) = n"
  by (simp add: unsigned_of_nat take_bit_nat_eq_self)

lemma unat_mult_less [word_simps]:
  "unat a * unat b < 2 ^ LENGTH('a) \<Longrightarrow> unat (a * b :: 'a::len word) = unat a * unat b"
  by (simp add: unat_word_ariths)

lemma unat_add_less [word_simps]:
  "unat a + unat b < 2 ^ LENGTH('a) \<Longrightarrow> unat (a + b :: 'a::len word) = unat a + unat b"
  by (simp add: unat_word_ariths)

lemma unat_ucast_up [word_simps]:
  "LENGTH('a::len) \<le> LENGTH('b::len) \<Longrightarrow> unat (ucast (w :: 'a word) :: 'b word) = unat w"
proof -
  assume "LENGTH('a) \<le> LENGTH('b)"
  then have "unat w < 2 ^ LENGTH('b)"
    by (meson unsigned_less less_le_trans one_le_numeral power_increasing)
  then show ?thesis by (simp add: unsigned_ucast_eq take_bit_nat_eq_self)
qed

end
