(* ===== verification/Libc.thy ===== *)
theory Libc
  imports Prelude
begin

unbundle bit_operations_syntax

text \<open>
  The parts of the C library the program calls: number scanners (\<^verbatim>\<open>strtoul\<close>, \<^verbatim>\<open>strtol\<close>,
  \<^verbatim>\<open>strtoumax\<close>, \<^verbatim>\<open>inet_addr\<close>), \<^verbatim>\<open>printf\<close> conversions, and string searches
  (\<^verbatim>\<open>strtok\<close>, \<^verbatim>\<open>strstr\<close>, \<^verbatim>\<open>strrchr\<close>). Strings are lists of characters without the
  terminating zero. The lemmas are the scan/print round trips the shell relies on when the
  output of one command is the argument of another.
\<close>

section \<open>Characters and digits\<close>

definition is_space :: "char \<Rightarrow> bool" where
  "is_space c = (c = CHR '' '' \<or> c = CHR 0x09 \<or> c = CHR 0x0A \<or> c = CHR 0x0B
                 \<or> c = CHR 0x0C \<or> c = CHR 0x0D)"

definition digit_val :: "char \<Rightarrow> nat option" where
  "digit_val c = (let n = of_char c in
     if 48 \<le> n \<and> n \<le> 57 then Some (n - 48)
     else if 97 \<le> n \<and> n \<le> 122 then Some (n - 87)
     else if 65 \<le> n \<and> n \<le> 90 then Some (n - 55) else None)"

definition digit_char :: "nat \<Rightarrow> char" where
  "digit_char n = char_of (if n < 10 then 48 + n else 87 + n)"

definition digit_in :: "nat \<Rightarrow> char \<Rightarrow> bool" where
  "digit_in b c = (case digit_val c of None \<Rightarrow> False | Some d \<Rightarrow> d < b)"

section \<open>Number scanners\<close>

fun scan_digits :: "nat \<Rightarrow> nat \<Rightarrow> string \<Rightarrow> nat \<times> string" where
  "scan_digits b acc [] = (acc, [])"
| "scan_digits b acc (c # cs) =
     (if digit_in b c then scan_digits b (acc * b + the (digit_val c)) cs else (acc, c # cs))"

definition has_digit :: "nat \<Rightarrow> string \<Rightarrow> bool" where
  "has_digit b s = (case s of [] \<Rightarrow> False | c # _ \<Rightarrow> digit_in b c)"

text \<open>The base prefix: \<^verbatim>\<open>0x\<close> counts only when a hexadecimal digit follows it.\<close>

definition split_base :: "nat \<Rightarrow> string \<Rightarrow> nat \<times> string" where
  "split_base b s =
     (if (b = 0 \<or> b = 16) \<and> (take 2 s = ''0x'' \<or> take 2 s = ''0X'') \<and> has_digit 16 (drop 2 s)
      then (16, drop 2 s)
      else if b = 0 then (if take 1 s = ''0'' then 8 else 10, s)
      else (b, s))"

definition split_sign :: "string \<Rightarrow> bool \<times> string" where
  "split_sign s = (case s of [] \<Rightarrow> (False, [])
     | c # cs \<Rightarrow> if c = CHR ''-'' then (True, cs) else if c = CHR ''+'' then (False, cs)
                else (False, s))"

text \<open>Sign, magnitude and the unread rest; \<^const>\<open>None\<close> when there is no number to convert.\<close>

definition strto :: "nat \<Rightarrow> string \<Rightarrow> (bool \<times> nat \<times> string) option" where
  "strto b s = (let (neg, s2) = split_sign (dropWhile is_space s); (b', s3) = split_base b s2 in
     if has_digit b' s3 then (let (m, r) = scan_digits b' 0 s3 in Some (neg, m, r)) else None)"

text \<open>
  Unsigned conversion at a width: a magnitude that does not fit gives the greatest value, a minus
  sign negates modulo the width. The second component is what \<^verbatim>\<open>endptr\<close> points at.
\<close>

definition strtou :: "nat \<Rightarrow> string \<Rightarrow> 'a::len word \<times> string" where
  "strtou b s = (case strto b s of None \<Rightarrow> (0, s)
     | Some (neg, m, r) \<Rightarrow>
         (if 2 ^ LENGTH('a) \<le> m then - 1 else if neg then - of_nat m else of_nat m, r))"

definition strtoul :: "string \<Rightarrow> nat \<Rightarrow> uint32" where
  "strtoul s b = fst (strtou b s)"

definition strtoul_end :: "string \<Rightarrow> nat \<Rightarrow> string" where
  "strtoul_end s b = snd (strtou b s :: uint32 \<times> string)"

definition strtoumax :: "string \<Rightarrow> nat \<Rightarrow> uint64" where
  "strtoumax s b = fst (strtou b s)"

definition strtoumax_end :: "string \<Rightarrow> nat \<Rightarrow> string" where
  "strtoumax_end s b = snd (strtou b s :: uint64 \<times> string)"

text \<open>Signed conversion clamps to the range of a 32-bit \<^verbatim>\<open>long\<close>.\<close>

definition strtol_int :: "string \<Rightarrow> nat \<Rightarrow> int" where
  "strtol_int s b = (case strto b s of None \<Rightarrow> 0
     | Some (neg, m, r) \<Rightarrow>
         if neg then max (- (2 ^ 31)) (- int m) else min (2 ^ 31 - 1) (int m))"

definition strtol :: "string \<Rightarrow> nat \<Rightarrow> uint32" where
  "strtol s b = word_of_int (strtol_int s b)"

definition strtol_end :: "string \<Rightarrow> nat \<Rightarrow> string" where
  "strtol_end s b = (case strto b s of None \<Rightarrow> s | Some (neg, m, r) \<Rightarrow> r)"

section \<open>Printing\<close>

fun show_base :: "nat \<Rightarrow> nat \<Rightarrow> string" where
  "show_base b n = (if b < 2 \<or> n < b then [digit_char n]
                    else show_base b (n div b) @ [digit_char (n mod b)])"

declare show_base.simps [simp del]

text \<open>\<^verbatim>\<open>%u\<close>, \<^verbatim>\<open>%d\<close>, \<^verbatim>\<open>%x\<close>, a precision (zeros) and a field width (blanks).\<close>

definition fmt_u :: "'a::len word \<Rightarrow> string" where
  "fmt_u w = show_base 10 (unat w)"

definition fmt_int :: "int \<Rightarrow> string" where
  "fmt_int i = (if i < 0 then CHR ''-'' # show_base 10 (nat (- i)) else show_base 10 (nat i))"

definition fmt_d :: "'a::len word \<Rightarrow> string" where
  "fmt_d w = fmt_int (sint w)"

definition fmt_x :: "'a::len word \<Rightarrow> string" where
  "fmt_x w = show_base 16 (unat w)"

definition prec :: "nat \<Rightarrow> string \<Rightarrow> string" where
  "prec n s = replicate (n - length s) CHR ''0'' @ s"

definition width :: "nat \<Rightarrow> string \<Rightarrow> string" where
  "width n s = replicate (n - length s) CHR '' '' @ s"

text \<open>\<^verbatim>\<open>%p\<close> as the GNU library prints it.\<close>

definition fmt_p :: "uint32 \<Rightarrow> string" where
  "fmt_p w = (if w = 0 then ''(nil)'' else ''0x'' @ fmt_x w)"

section \<open>String searches\<close>

text \<open>The tokens successive \<^verbatim>\<open>strtok\<close> calls return, given the delimiter test.\<close>

function tokens :: "(char \<Rightarrow> bool) \<Rightarrow> string \<Rightarrow> string list" where
  "tokens d s = (case dropWhile d s of [] \<Rightarrow> []
     | c # cs \<Rightarrow> takeWhile (\<lambda>x. \<not> d x) (c # cs) # tokens d (dropWhile (\<lambda>x. \<not> d x) (c # cs)))"
  by pat_completeness auto
termination
proof (relation "measure (\<lambda>(d, s). length s)", goal_cases)
  case 1
  then show ?case by simp
next
  case (2 d s c cs)
  then have "\<not> d c" by (metis hd_dropWhile list.discI list.sel(1))
  moreover have "length (c # cs) \<le> length s" by (metis 2 length_dropWhile_le)
  moreover have "length (dropWhile (\<lambda>x. \<not> d x) cs) \<le> length cs" by (rule length_dropWhile_le)
  ultimately show ?case by simp
qed

declare tokens.simps [simp del]

fun strstr :: "string \<Rightarrow> string \<Rightarrow> string option" where
  "strstr [] needle = (if needle = [] then Some [] else None)"
| "strstr (c # cs) needle =
     (if take (length needle) (c # cs) = needle then Some (c # cs) else strstr cs needle)"

text \<open>The suffix that starts at the last occurrence of a character.\<close>

fun strrchr :: "string \<Rightarrow> char \<Rightarrow> string option" where
  "strrchr [] x = None"
| "strrchr (c # cs) x = (case strrchr cs x of Some r \<Rightarrow> Some r
                          | None \<Rightarrow> if c = x then Some (c # cs) else None)"

section \<open>Network text\<close>

definition htons :: "uint16 \<Rightarrow> uint16" where
  "htons x = shl x 8 OR shr x 8"

text \<open>
  \<^verbatim>\<open>inet_addr\<close>: up to four parts in any base, each but the last at most 255, the last filling
  the remaining bytes; the result has the first part in its lowest byte. Anything else is
  \<^verbatim>\<open>INADDR_NONE\<close>.
\<close>

definition bswap32 :: "uint32 \<Rightarrow> uint32" where
  "bswap32 x = shl (x AND 0xFF) 24 OR shl (x AND 0xFF00) 8 OR (shr x 8 AND 0xFF00) OR shr x 24"

fun inet_parts :: "nat \<Rightarrow> nat \<Rightarrow> uint32 \<Rightarrow> string \<Rightarrow> uint32" where
  "inet_parts 0 i acc s = UINT32_MAX"
| "inet_parts (Suc k) i acc s =
     (if \<not> has_digit 10 s then UINT32_MAX
      else case strto 0 s of None \<Rightarrow> UINT32_MAX
      | Some (neg, m, r) \<Rightarrow>
          if 2 ^ 32 \<le> m then UINT32_MAX
          else if take 1 r = ''.''
          then (if i > 2 \<or> m > 255 then UINT32_MAX
                else inet_parts k (i + 1) (acc OR shl (of_nat m) (8 * i)) (drop 1 r))
          else if r \<noteq> [] \<and> \<not> is_space (hd r) then UINT32_MAX
          else if m < 2 ^ (8 * (4 - i)) then acc OR bswap32 (of_nat m) else UINT32_MAX)"

definition inet_addr :: "string \<Rightarrow> uint32" where
  "inet_addr s = inet_parts 4 0 0 s"

section \<open>Scanning what was printed\<close>

lemma digit_val_digit_char: "n < 36 \<Longrightarrow> digit_val (digit_char n) = Some n"
  by (auto simp: digit_val_def digit_char_def Let_def)

lemma digit_in_digit_char: "n < b \<Longrightarrow> b \<le> 36 \<Longrightarrow> digit_in b (digit_char n)"
  by (simp add: digit_in_def digit_val_digit_char)

lemma show_base_nonempty [simp]: "show_base b n \<noteq> []"
  by (subst show_base.simps) simp

lemma show_base_digits:
  "2 \<le> b \<Longrightarrow> b \<le> 36 \<Longrightarrow> c \<in> set (show_base b n) \<Longrightarrow> digit_in b c"
proof (induction b n rule: show_base.induct)
  case (1 b n)
  show ?case
  proof (cases "n < b")
    case True
    with 1 show ?thesis by (simp add: show_base.simps [of b n] digit_in_digit_char)
  next
    case False
    then have "c \<in> set (show_base b (n div b)) \<or> c = digit_char (n mod b)"
      using 1 by (auto simp: show_base.simps [of b n])
    then show ?thesis
      using 1 False by (auto intro: digit_in_digit_char)
  qed
qed

lemma show_base_hd: "2 \<le> b \<Longrightarrow> b \<le> 36 \<Longrightarrow> digit_in b (hd (show_base b n))"
  by (rule show_base_digits [where n = n]) auto

lemma scan_digits_append:
  "scan_digits b acc (show_base b n @ r) =
   scan_digits b (acc * b ^ length (show_base b n) + n) r" if "2 \<le> b" "b \<le> 36"
  using that
proof (induction b n arbitrary: acc r rule: show_base.induct)
  case (1 b n)
  show ?case
  proof (cases "n < b")
    case True
    with 1 show ?thesis
      by (simp add: show_base.simps [of b n] digit_in_digit_char digit_val_digit_char)
  next
    case False
    have lt: "n mod b < b" "n mod b < 36"
      using 1 by (simp_all add: less_le_trans [OF mod_less_divisor])
    have "scan_digits b acc (show_base b (n div b) @ (digit_char (n mod b) # r))
          = scan_digits b (acc * b ^ length (show_base b (n div b)) + n div b)
              (digit_char (n mod b) # r)"
      using 1 False by simp
    also have "\<dots> = scan_digits b
        ((acc * b ^ length (show_base b (n div b)) + n div b) * b + n mod b) r"
      using lt 1 by (simp add: digit_in_digit_char digit_val_digit_char)
    also have "(acc * b ^ length (show_base b (n div b)) + n div b) * b + n mod b
        = acc * b ^ Suc (length (show_base b (n div b))) + n"
      by (simp add: algebra_simps)
    finally show ?thesis
      using False 1 by (simp add: show_base.simps [of b n])
  qed
qed

lemma scan_digits_stop: "\<not> has_digit b r \<Longrightarrow> scan_digits b acc r = (acc, r)"
  by (cases r) (auto simp: has_digit_def)

lemma scan_digits_show:
  "2 \<le> b \<Longrightarrow> b \<le> 36 \<Longrightarrow> \<not> has_digit b r \<Longrightarrow> scan_digits b 0 (show_base b n @ r) = (n, r)"
  by (simp add: scan_digits_append scan_digits_stop)

lemma digit_not_special:
  "digit_in b c \<Longrightarrow> \<not> is_space c \<and> c \<noteq> CHR ''-'' \<and> c \<noteq> CHR ''+'' \<and> c \<noteq> CHR ''.''"
  by (auto simp: digit_in_def digit_val_def Let_def is_space_def split: option.splits)

lemma digit_char_zero [simp]: "digit_char 0 = CHR ''0''"
  using char_of_char [where ?'a = nat, of "CHR ''0''"] by (simp add: digit_char_def)

lemma digit_char_zero_iff: "n < 36 \<Longrightarrow> digit_char n = CHR ''0'' \<longleftrightarrow> n = 0"
  using digit_val_digit_char [of n] digit_val_digit_char [of 0] by auto

lemma show_base_hd_zero: "2 \<le> b \<Longrightarrow> b \<le> 36 \<Longrightarrow> hd (show_base b n) = CHR ''0'' \<longleftrightarrow> n = 0"
proof (induction b n rule: show_base.induct)
  case (1 b n)
  show ?case
  proof (cases "n < b")
    case True
    with 1 show ?thesis by (simp add: show_base.simps [of b n] digit_char_zero_iff)
  next
    case False
    then have "n div b \<noteq> 0" "n \<noteq> 0" using 1 by (auto simp: div_eq_0_iff)
    then show ?thesis using 1 False by (auto simp: show_base.simps [of b n] hd_append)
  qed
qed

lemma has_digit_append: "xs \<noteq> [] \<Longrightarrow> has_digit b (xs @ r) = digit_in b (hd xs)"
  by (cases xs) (auto simp: has_digit_def)

lemma skip_show_base:
  assumes "2 \<le> b" "b \<le> 36"
  shows "dropWhile is_space (show_base b n @ r) = show_base b n @ r"
    and "split_sign (show_base b n @ r) = (False, show_base b n @ r)"
  using show_base_hd [OF assms, of n] show_base_nonempty [of b n]
  by (cases "show_base b n"; auto dest: digit_not_special simp: split_sign_def)+

lemma has_digit_show_base: "2 \<le> b \<Longrightarrow> b \<le> 36 \<Longrightarrow> has_digit b (show_base b n @ r)"
  by (simp add: has_digit_append show_base_hd)

text \<open>The characters \<^verbatim>\<open>x\<close> and \<^verbatim>\<open>X\<close> are no digits below base 34, so no printed number has a prefix.\<close>

lemma no_hex_prefix:
  assumes "2 \<le> b" "b \<le> 33" "\<not> has_digit b r" "take 1 r \<noteq> ''x''" "take 1 r \<noteq> ''X''"
  shows "take 2 (show_base b n @ r) \<noteq> ''0x''" "take 2 (show_base b n @ r) \<noteq> ''0X''"
proof -
  have x: "\<not> digit_in b CHR ''x''" "\<not> digit_in b CHR ''X''"
    using assms by (auto simp: digit_in_def digit_val_def)
  have d: "c \<in> set (show_base b n) \<Longrightarrow> digit_in b c" for c
    using assms show_base_digits [of b c n] by simp
  obtain c cs where s: "show_base b n = c # cs"
    using show_base_nonempty [of b n] by (cases "show_base b n") auto
  have "take 2 (show_base b n @ r) \<noteq> [CHR ''0'', y]" if "y = CHR ''x'' \<or> y = CHR ''X''" for y
  proof (cases cs)
    case Nil
    then show ?thesis using s assms that by (cases r) auto
  next
    case (Cons c' cs')
    then show ?thesis using s that d [of c'] x by auto
  qed
  then show "take 2 (show_base b n @ r) \<noteq> ''0x''" "take 2 (show_base b n @ r) \<noteq> ''0X''"
    by auto
qed

lemma strto_dec:
  assumes "\<not> has_digit 10 r" "take 1 r \<noteq> ''x''" "take 1 r \<noteq> ''X''" "b = 0 \<or> b = 10"
    and "b = 0 \<Longrightarrow> n = 0 \<Longrightarrow> \<not> has_digit 8 r"
  shows "strto b (show_base 10 n @ r) = Some (False, n, r)"
proof (cases "b = 0 \<and> n = 0")
  case True
  have z: "show_base 10 0 = ''0''" by (simp add: show_base.simps)
  have "scan_digits 8 0 (''0'' @ r) = (0, r)"
    using True assms(5) by (simp add: scan_digits_stop digit_in_def digit_val_def)
  moreover have "split_base 0 (''0'' @ r) = (8, ''0'' @ r)"
    using assms(2,3) by (cases r) (auto simp: split_base_def)
  ultimately show ?thesis
    using True skip_show_base [of 10 0 r]
    by (simp add: strto_def z has_digit_def digit_in_def digit_val_def)
next
  case False
  have h: "take 1 (show_base 10 n @ r) \<noteq> ''0'' \<or> b = 10"
    using False show_base_hd_zero [of 10 n] assms(4)
    by (cases "show_base 10 n") auto
  have "split_base b (show_base 10 n @ r) = (10, show_base 10 n @ r)"
    using h assms no_hex_prefix [of 10 r n] by (auto simp: split_base_def)
  moreover have "has_digit 10 (show_base 10 n @ r)" by (simp add: has_digit_show_base)
  ultimately show ?thesis
    using skip_show_base [of 10 n r] assms(1) by (simp add: strto_def scan_digits_show)
qed

lemma has_digit_mono: "\<not> has_digit 10 r \<Longrightarrow> \<not> has_digit 8 r"
  by (auto simp: has_digit_def digit_in_def split: list.splits option.splits)

lemma strto_hex:
  assumes "\<not> has_digit 16 r" "b = 0 \<or> b = 16"
  shows "strto b (''0x'' @ show_base 16 n @ r) = Some (False, n, r)"
proof -
  have "has_digit 16 (show_base 16 n @ r)" by (simp add: has_digit_show_base)
  moreover have "dropWhile is_space (''0x'' @ show_base 16 n @ r) = ''0x'' @ show_base 16 n @ r"
    by (simp add: is_space_def)
  ultimately show ?thesis
    using assms by (auto simp: strto_def split_sign_def split_base_def scan_digits_show)
qed

text \<open>A word printed with \<^verbatim>\<open>%u\<close>, or with \<^verbatim>\<open>0x%x\<close>, reads back as itself.\<close>

lemma unat_not_ge [simp]: "\<not> 2 ^ LENGTH('a) \<le> unat (w :: 'a::len word)"
  by (metis unsigned_less not_le)

lemma strtou_fmt_u: "(strtou 0 (fmt_u w) :: 'a::len word \<times> string) = (w, [])"
  using strto_dec [of "[]" 0 "unat w"]
  by (auto simp: strtou_def fmt_u_def has_digit_def)

lemma strtou_fmt_x: "(strtou 0 (''0x'' @ fmt_x w) :: 'a::len word \<times> string) = (w, [])"
  using strto_hex [of "[]" 0 "unat w"]
  by (auto simp: strtou_def fmt_x_def has_digit_def)

lemma strtoul_fmt [simp]:
  "strtoul (fmt_u w) 0 = w" "strtoul_end (fmt_u w) 0 = []"
  "strtoumax (fmt_u v) 0 = v" "strtoumax_end (fmt_u v) 0 = []"
  by (simp_all add: strtoul_def strtoul_end_def strtoumax_def strtoumax_end_def strtou_fmt_u)

section \<open>Tokens\<close>

lemma tokens_props:
  "t \<in> set (tokens d s) \<Longrightarrow> t \<noteq> [] \<and> (\<forall>c\<in>set t. \<not> d c \<and> c \<in> set s)"
proof (induction d s arbitrary: t rule: tokens.induct)
  case (1 d s)
  show ?case
  proof (cases "dropWhile d s")
    case Nil
    with 1 show ?thesis by (simp add: tokens.simps [of d s])
  next
    case (Cons c cs)
    have nd: "\<not> d c" using Cons by (metis hd_dropWhile list.discI list.sel(1))
    have sub: "set (c # cs) \<subseteq> set s" using Cons by (metis set_dropWhileD subsetI)
    from 1(2) Cons have "t = takeWhile (\<lambda>x. \<not> d x) (c # cs)
        \<or> t \<in> set (tokens d (dropWhile (\<lambda>x. \<not> d x) (c # cs)))"
      by (simp add: tokens.simps [of d s])
    then show ?thesis
    proof
      assume t: "t = takeWhile (\<lambda>x. \<not> d x) (c # cs)"
      then show ?thesis
        using nd sub by (auto dest: set_takeWhileD)
    next
      assume "t \<in> set (tokens d (dropWhile (\<lambda>x. \<not> d x) (c # cs)))"
      then have "t \<noteq> [] \<and> (\<forall>x\<in>set t. \<not> d x \<and> x \<in> set (dropWhile (\<lambda>x. \<not> d x) (c # cs)))"
        by (rule 1(1) [OF Cons])
      then show ?thesis
        using sub by (metis set_dropWhileD subsetD)
    qed
  qed
qed

text \<open>No character but delimiters is lost.\<close>

lemma tokens_concat: "concat (tokens d s) = filter (\<lambda>c. \<not> d c) s"
proof (induction d s rule: tokens.induct)
  case (1 d s)
  have pre: "filter (\<lambda>c. \<not> d c) s = filter (\<lambda>c. \<not> d c) (dropWhile d s)"
    by (induction s) auto
  have split: "filter (\<lambda>c. \<not> d c) xs =
      takeWhile (\<lambda>x. \<not> d x) xs @ filter (\<lambda>c. \<not> d c) (dropWhile (\<lambda>x. \<not> d x) xs)" for xs
    by (induction xs) auto
  show ?case
  proof (cases "dropWhile d s")
    case Nil
    then show ?thesis by (simp add: tokens.simps [of d s] pre del: dropWhile_eq_Nil_conv)
  next
    case (Cons c cs)
    then show ?thesis
      using 1 [OF Cons] split [of "c # cs"] by (simp add: tokens.simps [of d s] pre)
  qed
qed

end
