(* ===== verification/Optparse.thy ===== *)
theory Optparse
  imports Libc "HOL-Library.Multiset"
begin

text \<open>
  The option parser of \<^verbatim>\<open>deps/optparse/optparse.h\<close>, which every command handler with options
  and every \<^verbatim>\<open>main\<close> of the repository uses. The record is \<^verbatim>\<open>struct optparse\<close>; each function of
  the header is one definition. The parser permutes the argument vector while it runs; the lemmas
  describe one call by an abstract step on the list of remaining arguments, from which follow
  that the vector is only ever permuted, that no call leaves its bounds, and that the usual
  \<^verbatim>\<open>while (optparse(...) != -1)\<close> loop ends.
\<close>

section \<open>State\<close>

record optparse_t =
  op_argv :: argv
  permute :: bool
  optind :: nat
  optopt :: int
  optarg :: cptr
  errmsg :: string
  subopt :: nat

abbreviation (input) NUL :: char where "NUL \<equiv> CHR 0x00"

text \<open>Reading \<^verbatim>\<open>s[i]\<close> of a zero-terminated string: the terminator itself may be read.\<close>

definition char_at :: "string \<Rightarrow> nat \<Rightarrow> char res" where
  "char_at s i = (if i < length s then Inr (s ! i)
                  else if i = length s then Inr NUL else Inl Out_of_bounds)"

text \<open>\<^verbatim>\<open>char\<close> is signed on the target.\<close>

definition int_of_char :: "char \<Rightarrow> int" where
  "int_of_char c = (let n = of_char c in if n < 128 then n else n - 256)"

abbreviation (input) QMARK :: int where "QMARK \<equiv> 63"

definition OPTPARSE_MSG_INVALID :: string where "OPTPARSE_MSG_INVALID = ''invalid option''"
definition OPTPARSE_MSG_MISSING :: string where
  "OPTPARSE_MSG_MISSING = ''option requires an argument''"
definition OPTPARSE_MSG_TOOMANY :: string where
  "OPTPARSE_MSG_TOOMANY = ''option takes no arguments''"

section \<open>Operations\<close>

text \<open>
  The message is built in a 64-byte buffer: the text and the separator are copied without a
  check, the data up to index 62, then a quote and the terminator are stored.
\<close>

definition optparse_error :: "optparse_t \<Rightarrow> string \<Rightarrow> string \<Rightarrow> (int \<times> optparse_t) res" where
  "optparse_error opts msg data =
     (let pre = msg @ '' -- '' @ [CHR 0x27];
          buf = pre @ take (62 - length pre) data @ [CHR 0x27]
      in if 64 \<le> length buf then Inl Out_of_bounds else Inr (QMARK, opts\<lparr>errmsg := buf\<rparr>))"

definition optparse_init :: "argv \<Rightarrow> optparse_t res" where
  "optparse_init argv = rbind (load argv 0) (\<lambda>a0. Inr
     \<lparr>op_argv = argv, permute = True, optind = (if a0 = NULL then 0 else 1), optopt = 0,
      optarg = NULL, errmsg = [], subopt = 0\<rparr>)"

definition optparse_is_dashdash :: "string \<Rightarrow> bool" where
  "optparse_is_dashdash arg = (arg = ''--'')"

fun optparse_is_shortopt :: "string \<Rightarrow> bool" where
  "optparse_is_shortopt (a # b # _) = (a = CHR ''-'' \<and> b \<noteq> CHR ''-'')"
| "optparse_is_shortopt _ = False"

text \<open>The loop that moves the arguments down by one, and the store of the skipped argument.\<close>

function permute_loop :: "argv \<Rightarrow> nat \<Rightarrow> nat \<Rightarrow> argv" where
  "permute_loop a i n = (if i < n then permute_loop (a[i := a ! (i + 1)]) (i + 1) n else a)"
  by pat_completeness auto
termination by (relation "measure (\<lambda>(a, i, n). n - i)") auto

declare permute_loop.simps [simp del]

definition optparse_permute :: "optparse_t \<Rightarrow> nat \<Rightarrow> optparse_t" where
  "optparse_permute opts index =
     (let nonoption = op_argv opts ! index;
          a = permute_loop (op_argv opts) index (optind opts - 1)
      in opts\<lparr>op_argv := a[optind opts - 1 := nonoption]\<rparr>)"

text \<open>-1 for an unknown option, otherwise the number of colons after it (at most 2).\<close>

definition optparse_argtype :: "string \<Rightarrow> char \<Rightarrow> int" where
  "optparse_argtype optstring c =
     (if c = CHR '':'' then - 1
      else case dropWhile (\<lambda>x. x \<noteq> c) optstring of [] \<Rightarrow> - 1
      | _ # rest \<Rightarrow> (case rest of [] \<Rightarrow> 0
          | a # rest' \<Rightarrow> if a = CHR '':'' then (case rest' of [] \<Rightarrow> 1
                 | b # _ \<Rightarrow> if b = CHR '':'' then 2 else 1) else 0))"

text \<open>The part of \<^verbatim>\<open>optparse\<close> after it has found a short option at the current index.\<close>

definition optparse_short :: "optparse_t \<Rightarrow> string \<Rightarrow> string \<Rightarrow> (int \<times> optparse_t) res" where
  "optparse_short opts optstring option =
     rbind (char_at option (subopt opts + 1)) (\<lambda>c0.
     let opts = opts\<lparr>optopt := int_of_char c0\<rparr>; type = optparse_argtype optstring c0 in
     rbind (load (op_argv opts) (optind opts + 1)) (\<lambda>next.
     if type = - 1 then
       optparse_error (opts\<lparr>optind := optind opts + 1\<rparr>) OPTPARSE_MSG_INVALID
         (if c0 = NUL then [] else [c0])
     else rbind (char_at option (subopt opts + 2)) (\<lambda>c1.
       if type = 0 then
         Inr (int_of_char c0, if c1 \<noteq> NUL then opts\<lparr>subopt := subopt opts + 1\<rparr>
                              else opts\<lparr>subopt := 0, optind := optind opts + 1\<rparr>)
       else if type = 1 then
         (let opts' = opts\<lparr>subopt := 0, optind := optind opts + 1\<rparr> in
          if c1 \<noteq> NUL then
            Inr (int_of_char c0, opts'\<lparr>optarg := Ptr (drop (subopt opts + 2) option)\<rparr>)
          else if next \<noteq> NULL then
            Inr (int_of_char c0, opts'\<lparr>optarg := next, optind := optind opts' + 1\<rparr>)
          else optparse_error (opts'\<lparr>optarg := NULL\<rparr>) OPTPARSE_MSG_MISSING
                 (if c0 = NUL then [] else [c0]))
       else
         (let opts' = opts\<lparr>subopt := 0, optind := optind opts + 1\<rparr> in
          Inr (int_of_char c0, opts'\<lparr>optarg := if c1 \<noteq> NUL
                                               then Ptr (drop (subopt opts + 2) option)
                                               else NULL\<rparr>)))))"

function optparse :: "optparse_t \<Rightarrow> string \<Rightarrow> (int \<times> optparse_t) res" where
  "optparse opts optstring =
     (if op_argv opts = [] then Inl Null_deref
      else if length (op_argv opts) \<le> optind opts then Inl Out_of_bounds
      else let opts1 = opts\<lparr>errmsg := [], optopt := 0, optarg := NULL\<rparr> in
       case op_argv opts ! optind opts of
         Freed \<Rightarrow> Inl Use_after_free
       | NULL \<Rightarrow> Inr (- 1, opts1)
       | Ptr option \<Rightarrow>
           if optparse_is_dashdash option then Inr (- 1, opts1\<lparr>optind := optind opts + 1\<rparr>)
           else if \<not> optparse_is_shortopt option then
             (if permute opts then
                (case optparse (opts1\<lparr>optind := optind opts + 1\<rparr>) optstring of
                   Inl e \<Rightarrow> Inl e
                 | Inr (r, opts2) \<Rightarrow>
                     Inr (r, (optparse_permute opts2 (optind opts))\<lparr>optind := optind opts2 - 1\<rparr>))
              else Inr (- 1, opts1))
           else optparse_short opts1 optstring option)"
  by pat_completeness auto
termination
  by (relation "measure (\<lambda>(opts, s). length (op_argv opts) - optind opts)") auto

declare optparse.simps [simp del]

definition optparse_arg :: "optparse_t \<Rightarrow> (cptr \<times> optparse_t) res" where
  "optparse_arg opts = rbind (load (op_argv opts) (optind opts)) (\<lambda>option.
     let opts = opts\<lparr>subopt := 0\<rparr> in
     Inr (option, if option \<noteq> NULL then opts\<lparr>optind := optind opts + 1\<rparr> else opts))"

section \<open>One call as a step on the remaining arguments\<close>

text \<open>
  The abstract view: \<open>xs\<close> are the arguments from \<^term>\<open>optind\<close> up to the null, \<open>sub\<close> the position
  inside a cluster. A step yields the return value, the option argument, the arguments it
  consumed and those that remain, and the new cluster position. Non-options are skipped and stay
  in front of the remaining ones.
\<close>

record step =
  st_ret :: int
  st_arg :: cptr
  st_cons :: "string list"
  st_rem :: "string list"
  st_sub :: nat

definition short_step :: "string \<Rightarrow> nat \<Rightarrow> string \<Rightarrow> string list \<Rightarrow> step" where
  "short_step s sub x xs =
     (let c = x ! (sub + 1); ty = optparse_argtype s c; more = sub + 2 < length x in
      if ty = - 1 then \<lparr>st_ret = QMARK, st_arg = NULL, st_cons = [x], st_rem = xs, st_sub = sub\<rparr>
      else if ty = 0 then
        (if more then \<lparr>st_ret = int_of_char c, st_arg = NULL, st_cons = [], st_rem = x # xs,
                       st_sub = sub + 1\<rparr>
         else \<lparr>st_ret = int_of_char c, st_arg = NULL, st_cons = [x], st_rem = xs, st_sub = 0\<rparr>)
      else if more then \<lparr>st_ret = int_of_char c, st_arg = Ptr (drop (sub + 2) x), st_cons = [x],
                         st_rem = xs, st_sub = 0\<rparr>
      else if ty = 1 then
        (case xs of y # ys \<Rightarrow> \<lparr>st_ret = int_of_char c, st_arg = Ptr y, st_cons = [x, y],
                               st_rem = ys, st_sub = 0\<rparr>
         | [] \<Rightarrow> \<lparr>st_ret = QMARK, st_arg = NULL, st_cons = [x], st_rem = [], st_sub = 0\<rparr>)
      else \<lparr>st_ret = int_of_char c, st_arg = NULL, st_cons = [x], st_rem = xs, st_sub = 0\<rparr>)"

fun getopt_step :: "string \<Rightarrow> nat \<Rightarrow> string list \<Rightarrow> step" where
  "getopt_step s sub [] = \<lparr>st_ret = - 1, st_arg = NULL, st_cons = [], st_rem = [], st_sub = sub\<rparr>"
| "getopt_step s sub (x # xs) =
     (if optparse_is_dashdash x
      then \<lparr>st_ret = - 1, st_arg = NULL, st_cons = [x], st_rem = xs, st_sub = sub\<rparr>
      else if \<not> optparse_is_shortopt x
      then (let r = getopt_step s sub xs in r\<lparr>st_rem := x # st_rem r\<rparr>)
      else short_step s sub x xs)"

text \<open>The cluster position is inside the option that the next call will reach.\<close>

fun sub_ok :: "nat \<Rightarrow> string list \<Rightarrow> bool" where
  "sub_ok sub [] = True"
| "sub_ok sub (x # xs) =
     (if optparse_is_dashdash x then True
      else if \<not> optparse_is_shortopt x then sub_ok sub xs
      else sub + 1 < length x)"

text \<open>A parser in the middle of a vector: \<open>pre\<close> is already behind it, \<open>xs\<close> remains.\<close>

definition parser_at :: "optparse_t \<Rightarrow> cptr list \<Rightarrow> string list \<Rightarrow> cptr list \<Rightarrow> bool" where
  "parser_at opts pre xs post \<longleftrightarrow> op_argv opts = pre @ map Ptr xs @ NULL # post
     \<and> optind opts = length pre \<and> permute opts
     \<and> (\<forall>x\<in>set xs. NUL \<notin> set x)"


section \<open>Lemmas\<close>

lemma permute_loop_rotate:
  "permute_loop (pre @ x # ys @ post) (length pre) (length pre + length ys)
     = pre @ ys @ (last (x # ys)) # post"
proof (induction ys arbitrary: pre x)
  case Nil
  then show ?case by (simp add: permute_loop.simps)
next
  case (Cons y ys)
  have "permute_loop (pre @ x # (y # ys) @ post) (length pre) (length pre + length (y # ys))
      = permute_loop ((pre @ [y]) @ y # ys @ post) (length (pre @ [y]))
          (length (pre @ [y]) + length ys)"
    by (subst permute_loop.simps) (simp add: nth_append)
  then show ?case by (simp only: Cons.IH) simp
qed

lemma optparse_permute_rotate:
  assumes "op_argv opts = pre @ x # ys @ post" "optind opts = length pre + length ys + 1"
  shows "optparse_permute opts (length pre) = opts\<lparr>op_argv := pre @ ys @ x # post\<rparr>"
  using assms by (simp add: optparse_permute_def permute_loop_rotate list_update_append)

lemma char_at_inside: "i < length s \<Longrightarrow> char_at s i = Inr (s ! i)"
  by (simp add: char_at_def)

lemma char_at_end: "char_at s (length s) = Inr NUL"
  by (simp add: char_at_def)

lemma argtype_range: "optparse_argtype s c \<in> {- 1, 0, 1, 2}"
  by (auto simp: optparse_argtype_def split: list.splits)

lemma optparse_error_ok [simp]:
  "length data \<le> 1 \<Longrightarrow> optparse_error opts OPTPARSE_MSG_INVALID data
     = Inr (QMARK, opts\<lparr>errmsg := ''invalid option -- '' @ [CHR 0x27] @ data @ [CHR 0x27]\<rparr>)"
  "length data \<le> 1 \<Longrightarrow> optparse_error opts OPTPARSE_MSG_MISSING data
     = Inr (QMARK, opts\<lparr>errmsg := ''option requires an argument -- '' @ [CHR 0x27] @ data
                                   @ [CHR 0x27]\<rparr>)"
  by (simp_all add: optparse_error_def OPTPARSE_MSG_INVALID_def OPTPARSE_MSG_MISSING_def)


lemma short_nonempty: "optparse_is_shortopt x \<Longrightarrow> 1 < length x"
  by (cases x rule: optparse_is_shortopt.cases) auto

lemma optparse_short_step:
  assumes at: "parser_at opts pre (x # xs) post" and sub: "subopt opts + 1 < length x"
    and opts1: "opts1 = opts\<lparr>errmsg := [], optopt := 0, optarg := NULL\<rparr>"
    and st: "st = short_step s (subopt opts) x xs"
  shows "\<exists>opts'. optparse_short opts1 s x = Inr (st_ret st, opts')
     \<and> parser_at opts' (pre @ map Ptr (st_cons st)) (st_rem st) post
     \<and> subopt opts' = st_sub st \<and> optarg opts' = st_arg st"
proof -
  have argv: "op_argv opts = pre @ Ptr x # map Ptr xs @ NULL # post" "optind opts = length pre"
    "permute opts" and nonul: "NUL \<notin> set x" "\<forall>y\<in>set xs. NUL \<notin> set y"
    using at by (auto simp: parser_at_def)
  have c0: "char_at x (Suc (subopt opts)) = Inr (x ! Suc (subopt opts))"
    "x ! Suc (subopt opts) \<noteq> NUL"
    using sub nonul(1) by (auto simp: char_at_inside in_set_conv_nth)
  have c1: "\<exists>c. char_at x (Suc (Suc (subopt opts))) = Inr c
      \<and> (c \<noteq> NUL \<longleftrightarrow> Suc (Suc (subopt opts)) < length x)"
    using sub nonul(1) by (auto simp: char_at_def in_set_conv_nth)
  have nx: "load (op_argv opts) (Suc (length pre))
      = Inr (case xs of [] \<Rightarrow> NULL | y # _ \<Rightarrow> Ptr y)"
    using argv by (auto simp: load_def nth_append split: list.splits)
  show ?thesis
    using c1 c0 nx argv nonul sub argtype_range [of s "x ! Suc (subopt opts)"]
    unfolding optparse_short_def st opts1 short_step_def Let_def parser_at_def
    by (auto split: list.splits)
qed

lemma optparse_at_Ptr:
  assumes "op_argv opts ! optind opts = Ptr x" "optind opts < length (op_argv opts)"
    and "opts1 = opts\<lparr>errmsg := [], optopt := 0, optarg := NULL\<rparr>"
  shows "optparse opts s =
    (if optparse_is_dashdash x then Inr (- 1, opts1\<lparr>optind := optind opts + 1\<rparr>)
     else if optparse_is_shortopt x then optparse_short opts1 s x
     else if permute opts then
       (case optparse (opts1\<lparr>optind := optind opts + 1\<rparr>) s of Inl e \<Rightarrow> Inl e
        | Inr (r, opts2) \<Rightarrow>
            Inr (r, (optparse_permute opts2 (optind opts))\<lparr>optind := optind opts2 - 1\<rparr>))
     else Inr (- 1, opts1))"
  unfolding assms(3) using assms(1,2)
  by (subst optparse.simps) (cases "op_argv opts"; simp add: Let_def)

theorem getopt_step_refines:
  assumes "parser_at opts pre xs post" "sub_ok (subopt opts) xs"
    and st: "st = getopt_step s (subopt opts) xs"
  shows "\<exists>opts'. optparse opts s = Inr (st_ret st, opts')
     \<and> parser_at opts' (pre @ map Ptr (st_cons st)) (st_rem st) post
     \<and> subopt opts' = st_sub st \<and> optarg opts' = st_arg st"
  using assms
proof (induction xs arbitrary: opts pre st)
  case Nil
  then show ?case by (auto simp: parser_at_def optparse.simps [of opts] Let_def nth_append)
next
  case (Cons x xs)
  define opts1 where "opts1 = opts\<lparr>errmsg := [], optopt := 0, optarg := NULL\<rparr>"
  have at: "op_argv opts = pre @ Ptr x # map Ptr xs @ NULL # post" "optind opts = length pre"
    "permute opts" "NUL \<notin> set x"
    using Cons.prems by (auto simp: parser_at_def)
  have unf: "optparse opts s =
    (if optparse_is_dashdash x then Inr (- 1, opts1\<lparr>optind := length pre + 1\<rparr>)
     else if optparse_is_shortopt x then optparse_short opts1 s x
     else (case optparse (opts1\<lparr>optind := length pre + 1\<rparr>) s of Inl e \<Rightarrow> Inl e
        | Inr (r, opts2) \<Rightarrow>
            Inr (r, (optparse_permute opts2 (length pre))\<lparr>optind := optind opts2 - 1\<rparr>)))"
    using optparse_at_Ptr [OF _ _ opts1_def, of x s] at by (simp only: at(2)) (simp add: nth_append)
  consider (dd) "optparse_is_dashdash x" | (non) "\<not> optparse_is_dashdash x" "\<not> optparse_is_shortopt x"
    | (short) "\<not> optparse_is_dashdash x" "optparse_is_shortopt x" by blast
  then show ?case
  proof cases
    case dd
    then show ?thesis using Cons.prems by (auto simp: unf parser_at_def opts1_def)
  next
    case non
    let ?o = "opts1\<lparr>optind := length pre + 1\<rparr>" and ?st = "getopt_step s (subopt opts) xs"
    have "parser_at ?o (pre @ [Ptr x]) xs post" "sub_ok (subopt ?o) xs" "?st = getopt_step s (subopt ?o) xs"
      using Cons.prems non by (auto simp: parser_at_def opts1_def)
    from Cons.IH [OF this] obtain o2 where o2: "optparse ?o s = Inr (st_ret ?st, o2)"
      "parser_at o2 (pre @ Ptr x # map Ptr (st_cons ?st)) (st_rem ?st) post"
      "subopt o2 = st_sub ?st" "optarg o2 = st_arg ?st" by auto
    have perm: "optparse_permute o2 (length pre)
        = o2\<lparr>op_argv := pre @ map Ptr (st_cons ?st) @ Ptr x # map Ptr (st_rem ?st) @ NULL # post\<rparr>"
      using o2(2) by (intro optparse_permute_rotate) (auto simp: parser_at_def)
    show ?thesis
      using non o2 Cons.prems(3) at(4) by (auto simp: unf perm Let_def parser_at_def)
  next
    case short
    then show ?thesis
      using optparse_short_step [OF Cons.prems(1) _ opts1_def refl, of s] Cons.prems(2,3)
      by (simp add: unf)
  qed
qed


subsection \<open>Progress of every call, from any state\<close>

definition argv_chars :: "argv \<Rightarrow> nat" where
  "argv_chars a = (\<Sum>p\<in>#mset a. case p of Ptr s \<Rightarrow> length s | _ \<Rightarrow> 0)"

lemma argv_chars_ge: "a ! i = Ptr s \<Longrightarrow> i < length a \<Longrightarrow> length s \<le> argv_chars a"
  by (induction a arbitrary: i) (auto simp: argv_chars_def nth_Cons split: nat.splits, fastforce)

lemma optparse_permute_fields [simp]:
  "subopt (optparse_permute opts i) = subopt opts" "optind (optparse_permute opts i) = optind opts"
  by (simp_all add: optparse_permute_def Let_def)

lemma optparse_permute_mset:
  assumes "index < optind opts" "optind opts \<le> length (op_argv opts)"
  shows "mset (op_argv (optparse_permute opts index)) = mset (op_argv opts)"
proof -
  define a where "a = op_argv opts"
  define ys where "ys = take (optind opts - 1 - index) (drop (Suc index) a)"
  have a: "a = take index a @ a ! index # ys @ drop (optind opts) a"
    using assms take_drop_append_same [of "optind opts - 1 - index" "Suc index" a]
    unfolding a_def ys_def by (simp add: id_take_nth_drop [symmetric])
  have "optparse_permute opts (length (take index a))
      = opts\<lparr>op_argv := take index a @ ys @ a ! index # drop (optind opts) a\<rparr>"
    using assms a unfolding a_def ys_def by (intro optparse_permute_rotate) auto
  moreover have "length (take index a) = index" using assms by (simp add: a_def)
  ultimately have eq: "optparse_permute opts index
      = opts\<lparr>op_argv := take index a @ ys @ a ! index # drop (optind opts) a\<rparr>" by simp
  have "mset (op_argv opts) = mset (take index a @ a ! index # ys @ drop (optind opts) a)"
    using a unfolding a_def by metis
  then show "mset (op_argv (optparse_permute opts index)) = mset (op_argv opts)"
    by (simp add: eq)
qed

definition progress :: "optparse_t \<Rightarrow> optparse_t \<Rightarrow> bool" where
  "progress o1 o2 \<longleftrightarrow> mset (op_argv o2) = mset (op_argv o1) \<and> optind o2 \<le> length (op_argv o1)
     \<and> (optind o1 < optind o2 \<or> optind o2 = optind o1 \<and> subopt o1 < subopt o2
         \<and> subopt o2 \<le> argv_chars (op_argv o1))"


lemma load_Inr_less: "load a i = Inr p \<Longrightarrow> i < length a"
  by (auto simp: load_def split: if_splits)

lemma char_at_notNUL: "char_at s i = Inr c \<Longrightarrow> c \<noteq> NUL \<Longrightarrow> i < length s"
  by (auto simp: char_at_def split: if_splits)

lemma optparse_error_Inr:
  "optparse_error o1 m d = Inr (r, o2) \<Longrightarrow> r = QMARK \<and> (\<exists>e. o2 = o1\<lparr>errmsg := e\<rparr> \<and> length e < 64)"
  by (auto simp: optparse_error_def Let_def split: if_splits)

lemma optparse_short_shape:
  assumes "optparse_short o1 s x = Inr (r, o2)"
  shows "op_argv o2 = op_argv o1"
    and "optind o1 < optind o2 \<and> optind o2 \<le> length (op_argv o1)
       \<or> optind o2 = optind o1 \<and> subopt o2 = Suc (subopt o1) \<and> Suc (Suc (subopt o1)) < length x"
proof -
  obtain c0 n where c0: "char_at x (Suc (subopt o1)) = Inr c0"
    and n: "load (op_argv o1) (Suc (optind o1)) = Inr n"
    using assms by (auto simp: optparse_short_def rbind_Inr_iff Let_def)
  have n': "Suc (optind o1) < length (op_argv o1)" using n by (rule load_Inr_less)
  have c1: "\<exists>c1. optparse_argtype s c0 \<noteq> - 1 \<longrightarrow> char_at x (Suc (Suc (subopt o1))) = Inr c1"
    using assms c0 n by (auto simp: optparse_short_def rbind_Inr_iff Let_def split: if_split_asm)
  then obtain c1 where c1: "optparse_argtype s c0 \<noteq> - 1 \<longrightarrow> char_at x (Suc (Suc (subopt o1))) = Inr c1"
    by blast
  show "op_argv o2 = op_argv o1"
    using assms c0 n c1 unfolding optparse_short_def
    by (simp add: Let_def split: if_split_asm) auto
  show "optind o1 < optind o2 \<and> optind o2 \<le> length (op_argv o1)
       \<or> optind o2 = optind o1 \<and> subopt o2 = Suc (subopt o1) \<and> Suc (Suc (subopt o1)) < length x"
    using assms c0 n c1 n' char_at_notNUL [of x "Suc (Suc (subopt o1))" c1] unfolding optparse_short_def
    by (simp add: Let_def split: if_split_asm) auto
qed

lemma optparse_short_progress:
  assumes "optparse_short o1 s x = Inr (r, o2)" "op_argv o1 ! optind o1 = Ptr x"
    "optind o1 < length (op_argv o1)"
  shows "progress o1 o2"
  using optparse_short_shape [OF assms(1)] argv_chars_ge [OF assms(2,3)] assms(3)
  by (auto simp: progress_def)

lemma optparse_progress:
  "optparse opts s = Inr (r, opts') \<Longrightarrow> r \<noteq> - 1 \<Longrightarrow> progress opts opts'"
proof (induction opts s arbitrary: r opts' rule: optparse.induct)
  case (1 opts s)
  show ?case
  proof (cases "\<exists>x. op_argv opts ! optind opts = Ptr x \<and> \<not> optparse_is_dashdash x \<and> optind opts < length (op_argv opts)")
    case False
    then show ?thesis using 1(2,3)
      by (subst (asm) optparse.simps) (auto simp: Let_def split: if_splits cptr.splits)
  next
    case True
    then obtain x where x: "op_argv opts ! optind opts = Ptr x" "\<not> optparse_is_dashdash x"
      "optind opts < length (op_argv opts)" by blast
    let ?o = "opts\<lparr>errmsg := [], optopt := 0, optarg := NULL\<rparr>"
    show ?thesis
    proof (cases "optparse_is_shortopt x")
      case True
      then have "optparse_short ?o s x = Inr (r, opts')"
        using 1(2) x(2) optparse_at_Ptr [OF x(1,3) refl, of s] by simp
      then have "progress ?o opts'" by (rule optparse_short_progress) (use x in auto)
      then show ?thesis by (simp add: progress_def)
    next
      case False
      then obtain o2 where o2: "optparse (?o\<lparr>optind := optind opts + 1\<rparr>) s = Inr (r, o2)"
        "opts' = (optparse_permute o2 (optind opts))\<lparr>optind := optind o2 - 1\<rparr>" "permute opts"
        using 1(2,3) x(2) optparse_at_Ptr [OF x(1,3) refl, of s] by (auto split: if_splits sum.splits)
      then have p: "progress (?o\<lparr>optind := optind opts + 1\<rparr>) o2"
        using 1(1) [OF _ _ refl x(1,2)] False o2(1,3) x(3) 1(3) by (cases "op_argv opts") auto
      then have "mset (op_argv o2) = mset (op_argv opts)" by (simp add: progress_def)
      then have "length (op_argv o2) = length (op_argv opts)" by (metis size_mset)
      with p have lt: "optind opts < optind o2" "optind o2 \<le> length (op_argv o2)"
        by (auto simp: progress_def)
      show ?thesis using p optparse_permute_mset [OF lt] lt x
        by (auto simp: progress_def o2(2))
    qed
  qed
qed


lemma progress_measure:
  assumes "progress o1 o2"
  shows "length (op_argv o2) - optind o2 < length (op_argv o1) - optind o1
    \<or> length (op_argv o2) - optind o2 = length (op_argv o1) - optind o1
       \<and> argv_chars (op_argv o2) - subopt o2 < argv_chars (op_argv o1) - subopt o1"
proof -
  have m: "mset (op_argv o2) = mset (op_argv o1)" using assms by (simp add: progress_def)
  then have "length (op_argv o2) = length (op_argv o1)" by (metis size_mset)
  with m assms show ?thesis by (auto simp: progress_def argv_chars_def)
qed

section \<open>The option loop\<close>

text \<open>
  The shape of every option loop: \<^verbatim>\<open>while ((opt = optparse(&opts, optstring)) != -1) switch (opt)\<close>.
  The body sees the option and its argument and either goes on or leaves the handler.
\<close>

datatype 'a ctl = Continue 'a | Return 'a

function opt_while :: "optparse_t \<Rightarrow> string \<Rightarrow> (int \<Rightarrow> cptr \<Rightarrow> 'a \<Rightarrow> 'a ctl res) \<Rightarrow> 'a
    \<Rightarrow> ('a ctl \<times> optparse_t) res" where
  "opt_while opts s body a =
     (case optparse opts s of Inl e \<Rightarrow> Inl e
      | Inr (r, opts') \<Rightarrow>
          if r = - 1 then Inr (Continue a, opts')
          else (case body r (optarg opts') a of Inl e \<Rightarrow> Inl e
                | Inr (Return b) \<Rightarrow> Inr (Return b, opts')
                | Inr (Continue b) \<Rightarrow> opt_while opts' s body b))"
  by pat_completeness auto

termination
  by (relation "measures [\<lambda>(opts, s, f, a). length (op_argv opts) - optind opts,
                          \<lambda>(opts, s, f, a). argv_chars (op_argv opts) - subopt opts]")
     (auto dest!: optparse_progress dest: progress_measure)

declare opt_while.simps [simp del]

subsection \<open>What the loop computes\<close>

text \<open>
  The specification of option parsing on a plain list of arguments, independent of the cursor the
  implementation keeps: the options with their arguments in order, and the operands, or
  \<^term>\<open>None\<close> in their place when the list ends in an error (reported as the option \<open>?\<close>).
  The first argument is the rest of the cluster being read.
\<close>

function getopt_spec :: "string \<Rightarrow> string \<Rightarrow> string list \<Rightarrow> (int \<times> cptr) list \<times> string list option"
where
  "getopt_spec s [] [] = ([], Some [])"
| "getopt_spec s [] (x # xs) =
     (if optparse_is_dashdash x then ([], Some xs)
      else if optparse_is_shortopt x then getopt_spec s (tl x) xs
      else apsnd (map_option (Cons x)) (getopt_spec s [] xs))"
| "getopt_spec s (c # cs) xs =
     (let ty = optparse_argtype s c in
      if ty = - 1 then ([(QMARK, NULL)], None)
      else if ty = 0 then apfst (Cons (int_of_char c, NULL)) (getopt_spec s cs xs)
      else if cs \<noteq> [] then apfst (Cons (int_of_char c, Ptr cs)) (getopt_spec s [] xs)
      else if ty = 1 then
        (case xs of [] \<Rightarrow> ([(QMARK, NULL)], None)
         | y # ys \<Rightarrow> apfst (Cons (int_of_char c, Ptr y)) (getopt_spec s [] ys))
      else apfst (Cons (int_of_char c, NULL)) (getopt_spec s [] xs))"
  by pat_completeness auto
termination
  by (relation "measures [\<lambda>(s, cl, xs). length xs, \<lambda>(s, cl, xs). length cl]") auto

text \<open>The same from inside a cluster: the cursor counts into the first option reached.\<close>

fun spec_at :: "string \<Rightarrow> nat \<Rightarrow> string list \<Rightarrow> (int \<times> cptr) list \<times> string list option" where
  "spec_at s sub [] = ([], Some [])"
| "spec_at s sub (x # xs) =
     (if optparse_is_dashdash x then ([], Some xs)
      else if optparse_is_shortopt x then getopt_spec s (drop (sub + 1) x) xs
      else apsnd (map_option (Cons x)) (spec_at s sub xs))"

lemma spec_at_0: "spec_at s 0 xs = getopt_spec s [] xs"
  by (induction xs) (simp_all add: drop_Suc)

lemma short_not_dashdash: "optparse_is_shortopt x \<Longrightarrow> \<not> optparse_is_dashdash x"
  by (auto simp: optparse_is_dashdash_def)


text \<open>Option letters that cannot be confused with the return values of the parser.\<close>

definition optstring_ok :: "string \<Rightarrow> bool" where
  "optstring_ok s \<longleftrightarrow> CHR ''?'' \<notin> set s \<and> CHR 0xFF \<notin> set s"

lemma argtype_in_set: "optparse_argtype s c \<noteq> - 1 \<Longrightarrow> c \<in> set s"
proof (rule ccontr)
  assume "c \<notin> set s" then have "dropWhile (\<lambda>x. x \<noteq> c) s = []" by auto
  moreover assume "optparse_argtype s c \<noteq> - 1"
  ultimately show False
    by (simp add: optparse_argtype_def del: dropWhile_eq_Nil_conv split: if_splits)
qed

lemma int_of_char_eqD:
  "int_of_char c = 63 \<Longrightarrow> c = CHR ''?''" "int_of_char c = - 1 \<Longrightarrow> c = CHR 0xFF"
proof -
  have *: "0 \<le> (of_char c :: int)" "(of_char c :: int) < 256"
    by (metis of_char_mod_256 pos_mod_sign zero_less_numeral)
       (metis of_char_mod_256 pos_mod_bound zero_less_numeral)
  show "c = CHR ''?''" if "int_of_char c = 63"
  proof (rule of_char_eqI)
    show "(of_char c :: int) = of_char CHR ''?''"
      using that * by (auto simp: int_of_char_def Let_def split: if_splits)
  qed
  show "c = CHR 0xFF" if "int_of_char c = - 1"
  proof (rule of_char_eqI)
    show "(of_char c :: int) = of_char CHR 0xFF"
      using that * by (auto simp: int_of_char_def Let_def split: if_splits)
  qed
qed

lemma apsnd_apfst_commute: "apsnd g (apfst f p) = apfst f (apsnd g p)"
  by (cases p) simp

lemma sub_ok_0: "sub_ok 0 xs"
  by (induction xs) (auto dest: short_nonempty)

lemma getopt_step_spec:
  assumes "optstring_ok s" "sub_ok sub xs" "st = getopt_step s sub xs"
  shows "spec_at s sub xs =
      (if st_ret st = - 1 then ([], Some (st_rem st))
       else if st_ret st = QMARK then ([(QMARK, NULL)], None)
       else apfst (Cons (st_ret st, st_arg st)) (spec_at s (st_sub st) (st_rem st)))
    \<and> (st_ret st \<noteq> QMARK \<longrightarrow> st_ret st \<noteq> - 1 \<longrightarrow> sub_ok (st_sub st) (st_rem st))
    \<and> (st_ret st = QMARK \<longrightarrow> st_arg st = NULL)"
  using assms(2,3)
proof (induction xs arbitrary: st)
  case Nil
  then show ?case by simp
next
  case (Cons x xs)
  show ?case
  proof (cases "optparse_is_shortopt x")
    case True
    define c where "c = x ! Suc sub"
    have len: "Suc sub < length x" and dd: "\<not> optparse_is_dashdash x"
      using Cons.prems(1) True short_not_dashdash [OF True] by auto
    have dr: "drop (Suc sub) x = c # drop (Suc (Suc sub)) x"
      using len by (simp add: c_def Cons_nth_drop_Suc)
    have ret: "optparse_argtype s c \<noteq> - 1 \<Longrightarrow> int_of_char c \<noteq> 63 \<and> int_of_char c \<noteq> - 1"
      using assms(1) argtype_in_set int_of_char_eqD by (auto simp: optstring_ok_def)
    show ?thesis
      using True dd dr ret argtype_range [of s c] Cons.prems(2)
      by (auto simp: short_step_def Let_def c_def [symmetric] sub_ok_0 spec_at_0 split: list.splits)
  next
    case False
    then show ?thesis using Cons.IH [OF _ refl] Cons.prems by (auto simp: Let_def apsnd_apfst_commute)
  qed
qed


fun run_opts :: "(int \<Rightarrow> cptr \<Rightarrow> 'a \<Rightarrow> 'a ctl res) \<Rightarrow> (int \<times> cptr) list \<Rightarrow> 'a \<Rightarrow> 'a ctl res" where
  "run_opts g [] a = Inr (Continue a)"
| "run_opts g ((r, p) # l) a =
     (case g r p a of Inl e \<Rightarrow> Inl e | Inr (Return b) \<Rightarrow> Inr (Return b)
      | Inr (Continue b) \<Rightarrow> run_opts g l b)"

lemma getopt_step_mset: "mset (st_cons (getopt_step s sub xs)) + mset (st_rem (getopt_step s sub xs)) = mset xs"
  by (induction xs) (auto simp: short_step_def Let_def split: list.splits)

lemma opt_while_spec:
  assumes "optstring_ok s" and stop: "\<And>p a b. g QMARK p a \<noteq> Inr (Continue b)"
    and "parser_at opts pre xs post" "sub_ok (subopt opts) xs"
    and "spec_at s (subopt opts) xs = (l, n)"
  shows "case run_opts g l a of
      Inl e \<Rightarrow> opt_while opts s g a = Inl e
    | Inr (Return b) \<Rightarrow> \<exists>opts'. opt_while opts s g a = Inr (Return b, opts')
    | Inr (Continue b) \<Rightarrow> \<exists>opts' cons ns. n = Some ns \<and> opt_while opts s g a = Inr (Continue b, opts')
        \<and> parser_at opts' (pre @ map Ptr cons) ns post \<and> mset cons + mset ns = mset xs"
  using assms
proof (induction opts s g a arbitrary: pre xs l rule: opt_while.induct)
  case (1 opts s g a)
  define st where "st = getopt_step s (subopt opts) xs"
  from getopt_step_refines [OF 1(4,5) st_def] obtain o2 where o2:
    "optparse opts s = Inr (st_ret st, o2)" "parser_at o2 (pre @ map Ptr (st_cons st)) (st_rem st) post"
    "subopt o2 = st_sub st" "optarg o2 = st_arg st" by blast
  note spec = getopt_step_spec [OF 1(2,5) st_def]
  have ms: "mset (st_cons st) + mset (st_rem st) = mset xs" by (simp add: st_def getopt_step_mset)
  consider (fin) "st_ret st = - 1" | (err) "st_ret st = QMARK" | (opt) "st_ret st \<noteq> - 1" "st_ret st \<noteq> QMARK"
    by blast
  then show ?case
  proof cases
    case fin
    then show ?thesis using spec 1(6) o2 ms
      by (auto simp: opt_while.simps [of opts s g a])
  next
    case err
    then have st: "st_arg st = NULL" and l: "l = [(QMARK, NULL)]" using spec 1(6) by auto
    show ?thesis using err l st o2 1(3) 
      by (auto simp: opt_while.simps [of opts s g a] split: sum.split ctl.split)
  next
    case opt
    obtain l' where l': "spec_at s (subopt o2) (st_rem st) = (l', n)" "l = (st_ret st, st_arg st) # l'"
      using spec opt 1(6) o2(3) by (cases "spec_at s (st_sub st) (st_rem st)") auto
    have ok: "sub_ok (subopt o2) (st_rem st)" using spec opt o2(3) by simp
    show ?thesis
    proof (cases "\<exists>b. g (st_ret st) (st_arg st) a = Inr (Continue b)")
      case False
      then show ?thesis using o2 opt l' 
      by (auto simp: opt_while.simps [of opts s g a] split: sum.split ctl.split)
    next
      case True
      then obtain b where b: "g (st_ret st) (st_arg st) a = Inr (Continue b)" by blast
      have unf: "opt_while opts s g a = opt_while o2 s g b"
        using o2 opt b by (subst opt_while.simps) simp
      note IH = 1(1) [OF o2(1) refl opt(1) _ refl 1(2,3) o2(2) ok l'(1), of b]
      show ?thesis using IH unf b l' ms o2(4)
        by (auto split: sum.splits ctl.splits) (metis append.assoc map_append mset_append union_assoc)
    qed
  qed
qed


section \<open>Properties\<close>

text \<open>The body that only records what the parser reports, up to the first error.\<close>

definition collect :: "int \<Rightarrow> cptr \<Rightarrow> (int \<times> cptr) list \<Rightarrow> (int \<times> cptr) list ctl res" where
  "collect r p a = Inr (if r = QMARK then Return (a @ [(r, p)]) else Continue (a @ [(r, p)]))"

lemma run_collect_ok: "QMARK \<notin> fst ` set l \<Longrightarrow> run_opts collect l a = Inr (Continue (a @ l))"
  by (induction l arbitrary: a) (auto simp: collect_def)

lemma run_collect_err:
  "QMARK \<notin> fst ` set l \<Longrightarrow> run_opts collect (l @ [(QMARK, p)]) a = Inr (Return (a @ l @ [(QMARK, p)]))"
  by (induction l arbitrary: a) (auto simp: collect_def)

text \<open>An error can only be reported as the last option, and exactly when there are no operands.\<close>

definition ends_in_error :: "(int \<times> cptr) list \<times> string list option \<Rightarrow> bool" where
  "ends_in_error res \<longleftrightarrow> (case snd res of Some _ \<Rightarrow> QMARK \<notin> fst ` set (fst res)
     | None \<Rightarrow> \<exists>l'. fst res = l' @ [(QMARK, NULL)] \<and> QMARK \<notin> fst ` set l')"

lemma ends_in_error_Cons:
  assumes "ends_in_error res" "r \<noteq> QMARK"
  shows "ends_in_error (apfst (Cons (r, p)) res)"
proof (cases "snd res")
  case None
  then obtain l' where "fst res = l' @ [(QMARK, NULL)]" "QMARK \<notin> fst ` set l'"
    using assms(1) by (auto simp: ends_in_error_def)
  then have "fst (apfst (Cons (r, p)) res) = ((r, p) # l') @ [(QMARK, NULL)]
      \<and> QMARK \<notin> fst ` set ((r, p) # l')" using assms(2) by simp
  then show ?thesis using None unfolding ends_in_error_def by (simp del: append_Cons)
next
  case (Some a)
  then show ?thesis using assms by (auto simp: ends_in_error_def)
qed

lemma ends_in_error_apsnd [simp]: "ends_in_error (apsnd (map_option f) res) = ends_in_error res"
  by (cases "snd res") (simp_all add: ends_in_error_def)

lemma ends_in_error_Some [simp]: "ends_in_error (l, Some ns) \<longleftrightarrow> QMARK \<notin> fst ` set l"
  by (simp add: ends_in_error_def)

lemma getopt_spec_error: "optstring_ok s \<Longrightarrow> ends_in_error (getopt_spec s cl xs)"
proof (induction s cl xs rule: getopt_spec.induct)
  case (1 s)
  then show ?case by (simp add: ends_in_error_def)
next
  case (2 s x xs)
  then show ?case by simp
next
  case (3 s c cs xs)
  have ret: "optparse_argtype s c \<noteq> - 1 \<Longrightarrow> int_of_char c \<noteq> 63"
    using 3(5) argtype_in_set int_of_char_eqD by (auto simp: optstring_ok_def)
  have err: "ends_in_error ([(QMARK, NULL)], None)" by (simp add: ends_in_error_def)
  show ?case using 3 ret err
    by (auto simp: Let_def simp del: getopt_spec.simps(1,2) split: list.splits
        intro!: ends_in_error_Cons)
qed

lemma optparse_init_at:
  assumes "\<forall>x\<in>set xs. NUL \<notin> set x"
  shows "\<exists>opts. optparse_init (mk_argv (prog # xs)) = Inr opts \<and> parser_at opts [Ptr prog] xs []
           \<and> subopt opts = 0"
  using assms by (auto simp: optparse_init_def mk_argv_def load_def parser_at_def)

text \<open>
  (C3) The option loop is correct. For every argument vector \<open>prog # xs\<close> and option string, the
  loop reports exactly the options and option arguments that the specification
  \<^const>\<open>getopt_spec\<close> reads off the list \<open>xs\<close>, in order, and stops at the first error. When
  there is none, what is left from \<^const>\<open>optind\<close> on is the list of operands, followed by the
  null, and the vector is a permutation of the original one. No call faults and the loop ends.
\<close>

theorem optparse_loop_correct:
  assumes "optstring_ok s" "\<forall>x\<in>set xs. NUL \<notin> set x" "getopt_spec s [] xs = (l, n)"
  shows "\<exists>opts'. rbind (optparse_init (mk_argv (prog # xs))) (\<lambda>opts. opt_while opts s collect [])
      = Inr (if n = None then Return l else Continue l, opts')
    \<and> (\<forall>ns. n = Some ns \<longrightarrow> drop (optind opts') (op_argv opts') = mk_argv ns
         \<and> mset (op_argv opts') = mset (mk_argv (prog # xs)))"
proof -
  obtain opts where opts: "optparse_init (mk_argv (prog # xs)) = Inr opts"
    "parser_at opts [Ptr prog] xs []" "subopt opts = 0" using optparse_init_at [OF assms(2)] by blast
  note loop = opt_while_spec [OF assms(1) _ opts(2), of collect l n "[]"]
  show ?thesis
  proof (cases n)
    case None
    then obtain l' where "l = l' @ [(QMARK, NULL)]" "QMARK \<notin> fst ` set l'"
      using getopt_spec_error [OF assms(1), of "[]" xs] assms(3) by (auto simp: ends_in_error_def)
    then have "run_opts collect l [] = Inr (Return l)" by (simp add: run_collect_err)
    then show ?thesis using loop None opts assms(3) by (auto simp: collect_def sub_ok_0 spec_at_0)
  next
    case (Some ns)
    then have "run_opts collect l [] = Inr (Continue l)"
      using getopt_spec_error [OF assms(1), of "[]" xs] assms(3)
      by (simp add: run_collect_ok ends_in_error_def)
    then obtain opts' cons where o': "opt_while opts s collect [] = Inr (Continue l, opts')"
      "parser_at opts' (Ptr prog # map Ptr cons) ns []" "mset cons + mset ns = mset xs"
      using loop Some opts assms(3) by (auto simp: collect_def sub_ok_0 spec_at_0)
    then have "mset (map Ptr cons) + mset (map Ptr ns) = mset (map Ptr xs)"
      by (metis image_mset_union mset_map)
    then show ?thesis using o' opts Some by (auto simp: parser_at_def mk_argv_def)
  qed
qed

theorem optparse_loop_correct_witness:
  "optstring_ok ''ab:'' \<and> (\<exists>opts'. rbind (optparse_init (mk_argv [''ls'', ''x'', ''-ab'', ''7'', ''y'']))
       (\<lambda>opts. opt_while opts ''ab:'' collect [])
      = Inr (Continue [(97, NULL), (98, Ptr ''7'')], opts')
    \<and> drop (optind opts') (op_argv opts') = mk_argv [''x'', ''y''])"
proof -
  have 1: "optstring_ok ''ab:''" by (simp add: optstring_ok_def)
  have 2: "\<forall>x\<in>set [''x'', ''-ab'', ''7'', ''y'']. NUL \<notin> set x" by simp
  have 3: "getopt_spec ''ab:'' [] [''x'', ''-ab'', ''7'', ''y'']
      = ([(97, NULL), (98, Ptr ''7'')], Some [''x'', ''y''])"
    by (simp add: optparse_is_dashdash_def optparse_argtype_def int_of_char_def)
  show ?thesis using 1 optparse_loop_correct [OF 1 2 3, of "''ls''"] by auto
qed

text \<open>
  An invalid option inside a cluster leaves the cluster cursor where it was: if the next
  argument is an option no longer than that, the following call reads past the end of its text.
\<close>

theorem optparse_stale_subopt:
  assumes at: "parser_at opts pre (x # y # xs) post" and x: "optparse_is_shortopt x"
    and bad: "subopt opts + 1 < length x" "optparse_argtype s (x ! (subopt opts + 1)) = - 1"
    and y: "optparse_is_shortopt y" "length y \<le> subopt opts"
  shows "\<exists>opts'. optparse opts s = Inr (QMARK, opts') \<and> optparse opts' s = Inl Out_of_bounds"
proof -
  have dd: "\<not> optparse_is_dashdash x" "\<not> optparse_is_dashdash y"
    using x y by (auto dest: short_not_dashdash)
  have "sub_ok (subopt opts) (x # y # xs)" using x bad dd by simp
  from getopt_step_refines [OF at this refl, of s] obtain opts' where
    o': "optparse opts s = Inr (QMARK, opts')" "parser_at opts' (pre @ [Ptr x]) (y # xs) post"
      "subopt opts' = subopt opts"
    using x dd bad by (auto simp: short_step_def Let_def)
  have "optparse opts' s = Inl Out_of_bounds"
    using o'(2,3) y dd optparse_at_Ptr [of opts' y _ s, OF _ _ refl]
    by (simp add: parser_at_def nth_append optparse_short_def char_at_def)
  then show ?thesis using o'(1) by blast
qed

theorem optparse_stale_subopt_witness:
  "\<exists>opts opts'. optparse opts ''lm'' = Inr (QMARK, opts') \<and> optparse opts' ''lm'' = Inl Out_of_bounds"
proof -
  let ?o = "\<lparr>op_argv = map Ptr [''ls'', ''-lmZ'', ''-x''] @ [NULL], permute = True, optind = 1,
            optopt = 109, optarg = NULL, errmsg = [], subopt = 2\<rparr>"
  have "parser_at ?o [Ptr ''ls''] [''-lmZ'', ''-x''] []" by (simp add: parser_at_def)
  from optparse_stale_subopt [OF this, of "''lm''"] show ?thesis
    by (auto simp: optparse_argtype_def)
qed

end
