(* ===== verification/Host.thy ===== *)
theory Host
  imports Libc
begin

text \<open>
  The host operating system as the disk and io layers use it: a table of open descriptors over
  byte files, with \<^verbatim>\<open>open\<close>, \<^verbatim>\<open>close\<close>, \<^verbatim>\<open>lseek\<close>, \<^verbatim>\<open>read\<close> and \<^verbatim>\<open>write\<close> as POSIX has them for
  regular files. A read returns as many bytes as the file still has (0 at its end), and -1 on a
  descriptor that is not open or whose device fails; a write on a descriptor opened for reading
  returns -1. What uninitialised memory holds and which allocations succeed is an argument of
  the definitions that allocate.
\<close>

type_synonym byte = uint8
type_synonym off_t = "64 word"

record hostfile =
  fcontent :: "byte list"
  fpos :: nat
  ferr :: bool
  fwritable :: bool

record host =
  h_files :: "string \<rightharpoonup> byte list"
  h_badfiles :: "string list"
  h_fds :: "int \<rightharpoonup> hostfile"

abbreviation (input) OPEN_MAX :: nat where "OPEN_MAX \<equiv> 1024"

text \<open>The lowest descriptor that is not in use.\<close>

definition alloc_fd :: "'a host_scheme \<Rightarrow> nat option" where
  "alloc_fd h = find (\<lambda>n. h_fds h (int n) = None) [0..<OPEN_MAX]"

definition host_open_rdonly :: "'a host_scheme \<Rightarrow> string \<Rightarrow> int \<times> 'a host_scheme" where
  "host_open_rdonly h fname = (case h_files h fname of None \<Rightarrow> (- 1, h)
     | Some bs \<Rightarrow> (case alloc_fd h of None \<Rightarrow> (- 1, h)
        | Some n \<Rightarrow> (int n, h\<lparr>h_fds := (h_fds h)(int n \<mapsto>
            \<lparr>fcontent = bs, fpos = 0, ferr = fname \<in> set (h_badfiles h), fwritable = False\<rparr>)\<rparr>)))"

definition host_close :: "'a host_scheme \<Rightarrow> int \<Rightarrow> 'a host_scheme" where
  "host_close h fd = h\<lparr>h_fds := (h_fds h)(fd := None)\<rparr>"

definition lseek_set :: "'a host_scheme \<Rightarrow> int \<Rightarrow> off_t \<Rightarrow> 'a host_scheme" where
  "lseek_set h fd off = (case h_fds h fd of None \<Rightarrow> h
     | Some f \<Rightarrow> if sint off < 0 then h
         else h\<lparr>h_fds := (h_fds h)(fd \<mapsto> f\<lparr>fpos := unat off\<rparr>)\<rparr>)"

text \<open>\<^verbatim>\<open>lseek(fd, 0, SEEK_END)\<close>, whose result is the size of the file or -1.\<close>

definition lseek_end :: "'a host_scheme \<Rightarrow> int \<Rightarrow> off_t \<times> 'a host_scheme" where
  "lseek_end h fd = (case h_fds h fd of None \<Rightarrow> (- 1, h)
     | Some f \<Rightarrow> (of_nat (length (fcontent f)),
                  h\<lparr>h_fds := (h_fds h)(fd \<mapsto> f\<lparr>fpos := length (fcontent f)\<rparr>)\<rparr>))"

text \<open>The bytes delivered are returned beside the result; the caller stores them in its buffer.\<close>

definition host_read :: "'a host_scheme \<Rightarrow> int \<Rightarrow> size_t \<Rightarrow> int \<times> byte list \<times> 'a host_scheme" where
  "host_read h fd count = (case h_fds h fd of None \<Rightarrow> (- 1, [], h)
     | Some f \<Rightarrow> if ferr f then (- 1, [], h)
         else let d = take (unat count) (drop (fpos f) (fcontent f)) in
           (int (length d), d, h\<lparr>h_fds := (h_fds h)(fd \<mapsto> f\<lparr>fpos := fpos f + length d\<rparr>)\<rparr>))"

text \<open>A write at a position beyond the end fills the gap with zeros.\<close>

definition put_bytes :: "byte list \<Rightarrow> nat \<Rightarrow> byte list \<Rightarrow> byte list" where
  "put_bytes bs pos d = take pos (bs @ replicate (pos - length bs) 0) @ d @ drop (pos + length d) bs"

definition host_write :: "'a host_scheme \<Rightarrow> int \<Rightarrow> byte list \<Rightarrow> int \<times> 'a host_scheme" where
  "host_write h fd d = (case h_fds h fd of None \<Rightarrow> (- 1, h)
     | Some f \<Rightarrow> if ferr f \<or> \<not> fwritable f then (- 1, h)
         else (int (length d), h\<lparr>h_fds := (h_fds h)(fd \<mapsto>
                 f\<lparr>fcontent := put_bytes (fcontent f) (fpos f) d, fpos := fpos f + length d\<rparr>)\<rparr>))"

text \<open>Storing bytes at the start of a buffer.\<close>

definition blit :: "byte list \<Rightarrow> byte list \<Rightarrow> byte list res" where
  "blit buf d = (if length d \<le> length buf then Inr (d @ drop (length d) buf) else Inl Out_of_bounds)"

text \<open>\<^verbatim>\<open>src[off .. off + n - 1]\<close>, as the source of a \<^verbatim>\<open>memcpy\<close>.\<close>

definition slice :: "byte list \<Rightarrow> nat \<Rightarrow> nat \<Rightarrow> byte list res" where
  "slice src off n = (if off + n \<le> length src then Inr (take n (drop off src)) else Inl Out_of_bounds)"

record mem =
  junk :: "nat \<Rightarrow> byte list"
  malloc_ok :: "nat \<Rightarrow> bool"

text \<open>Memory that is obtained uninitialised has the size asked for and arbitrary contents.\<close>

definition mem_ok :: "mem \<Rightarrow> bool" where
  "mem_ok m \<longleftrightarrow> (\<forall>n. length (junk m n) = n)"

lemma junk_length [simp]: "mem_ok m \<Longrightarrow> length (junk m n) = n"
  by (simp add: mem_ok_def)

lemma blit_length: "blit buf d = Inr b \<Longrightarrow> length b = length buf"
  by (auto simp: blit_def split: if_splits)

lemma blit_exact [simp]: "length d = length buf \<Longrightarrow> blit buf d = Inr d"
  by (simp add: blit_def)

lemma blit_append [simp]: "length d = length a \<Longrightarrow> blit (a @ b) d = Inr (d @ b)"
  by (simp add: blit_def)

lemma slice_length: "slice s i n = Inr b \<Longrightarrow> length b = n"
  by (auto simp: slice_def split: if_splits)

lemma alloc_fd_free: "alloc_fd h = Some n \<Longrightarrow> h_fds h (int n) = None"
  by (auto simp: alloc_fd_def find_Some_iff)

text \<open>A host on which reading behaves: the descriptor is open and its device works.\<close>

definition fd_ok :: "'a host_scheme \<Rightarrow> int \<Rightarrow> byte list \<Rightarrow> bool" where
  "fd_ok h fd bs \<longleftrightarrow> (\<exists>f. h_fds h fd = Some f \<and> fcontent f = bs \<and> \<not> ferr f)"

lemma fd_ok_lseek [simp]: "fd_ok (lseek_set h fd off) fd bs = fd_ok h fd bs"
  by (auto simp: fd_ok_def lseek_set_def split: option.splits)

lemma fd_ok_read [simp]: "host_read h fd n = (r, d, h') \<Longrightarrow> fd_ok h' fd bs = fd_ok h fd bs"
  by (auto simp: fd_ok_def host_read_def Let_def split: option.splits if_splits)

lemma host_read_at:
  assumes "fd_ok h fd bs" "0 \<le> sint off"
  shows "\<exists>h'. host_read (lseek_set h fd off) fd n
      = (int (min (unat n) (length bs - unat off)), take (unat n) (drop (unat off) bs), h') \<and> fd_ok h' fd bs"
  using assms by (auto simp: fd_ok_def lseek_set_def host_read_def Let_def)

lemma host_read_files [simp]: "host_read h fd n = (r, d, h') \<Longrightarrow> h_files h' = h_files h"
  by (auto simp: host_read_def Let_def split: option.splits if_splits)

end
