(* ===== verification/UmkaIO.thy ===== *)
theory UmkaIO
  imports Host
begin

text \<open>
  The io layer of \<^verbatim>\<open>umkaio.c\<close>: reads and writes go straight to the host while the kernel does not
  run, and through a helper thread with a one-slot command buffer once it does. The helper's loop
  body, the two wait predicates handed to the kernel and the client's code between the waits are
  one definition each; a step relation interleaves any number of clients with the helper.

  The kernel's \<^verbatim>\<open>kos_wait_events\<close> is not part of the repository's C sources. The model takes as
  argument for which return values of a wait predicate the kernel resumes the waiting thread;
  the documented contract is that it does so for every value but zero (\<open>resumes_ok\<close>).
\<close>

section \<open>State\<close>

datatype iot_status = IOT_CMD_STATUS_EMPTY | IOT_CMD_STATUS_READY | IOT_CMD_STATUS_DONE

datatype iot_type = IOT_CMD_READ | IOT_CMD_WRITE

text \<open>
  The union of argument and result. The result shares its storage with the descriptor, the other
  members stay as they were. Buffers are named by the client that owns them.
\<close>

datatype iot_word = Fd int | Val int

record iot_cmd =
  cmd_locked :: bool
  cmd_type :: iot_type
  cmd_status :: iot_status
  cmd_word :: iot_word
  cmd_buf :: nat
  cmd_count :: size_t

fun word_int :: "iot_word \<Rightarrow> int" where
  "word_int (Fd n) = n"
| "word_int (Val n) = n"

text \<open>\<^verbatim>\<open>thread_io\<close> before its loop.\<close>

definition iot_cmd_init :: iot_cmd where
  "iot_cmd_init = \<lparr>cmd_locked = False, cmd_type = IOT_CMD_READ, cmd_status = IOT_CMD_STATUS_EMPTY,
     cmd_word = Fd 0, cmd_buf = 0, cmd_count = 0\<rparr>"

abbreviation (input) UMKA_RUNNING_NEVER :: int where "UMKA_RUNNING_NEVER \<equiv> 0"
abbreviation (input) UMKA_RUNNING_NOT_YET :: int where "UMKA_RUNNING_NOT_YET \<equiv> 1"
abbreviation (input) UMKA_RUNNING_YES :: int where "UMKA_RUNNING_YES \<equiv> 2"

record world = host +
  w_running :: int
  w_cmd :: iot_cmd
  w_resumes :: "uint32 \<Rightarrow> bool"

abbreviation (input) EBUSY :: uint32 where "EBUSY \<equiv> 16"

section \<open>Operations\<close>

text \<open>\<^verbatim>\<open>pthread_mutex_trylock\<close> returns 0 when it has taken the lock.\<close>

definition io_async_submit_wait_test :: "iot_cmd \<Rightarrow> uint32 \<times> iot_cmd" where
  "io_async_submit_wait_test cmd =
     (if cmd_locked cmd then (EBUSY, cmd) else (0, cmd\<lparr>cmd_locked := True\<rparr>))"

definition io_async_complete_wait_test :: "iot_cmd \<Rightarrow> uint32" where
  "io_async_complete_wait_test cmd = c_bool (cmd_status cmd = IOT_CMD_STATUS_DONE)"

text \<open>What \<^verbatim>\<open>io_async_read\<close> does between its two waits, and after the second.\<close>

definition io_async_read_submit :: "int \<Rightarrow> nat \<Rightarrow> size_t \<Rightarrow> iot_cmd \<Rightarrow> iot_cmd" where
  "io_async_read_submit fd buf count cmd = cmd\<lparr>cmd_type := IOT_CMD_READ, cmd_word := Fd fd,
     cmd_buf := buf, cmd_count := count, cmd_status := IOT_CMD_STATUS_READY\<rparr>"

definition io_async_read_finish :: "iot_cmd \<Rightarrow> int \<times> iot_cmd" where
  "io_async_read_finish cmd = (word_int (cmd_word cmd),
     cmd\<lparr>cmd_status := IOT_CMD_STATUS_EMPTY, cmd_locked := False\<rparr>)"

text \<open>
  One round of the helper's loop after it was woken. \<open>bufs\<close> are the clients' buffers; the bytes
  read land at the start of the buffer.
\<close>

definition thread_io :: "iot_cmd \<Rightarrow> 'a host_scheme \<Rightarrow> (nat \<Rightarrow> byte list)
    \<Rightarrow> iot_cmd \<times> 'a host_scheme \<times> (nat \<Rightarrow> byte list)" where
  "thread_io cmd h bufs =
     (case cmd_type cmd of
        IOT_CMD_READ \<Rightarrow>
          (case host_read h (word_int (cmd_word cmd)) (cmd_count cmd) of (r, d, h') \<Rightarrow>
             (cmd\<lparr>cmd_word := Val r, cmd_status := IOT_CMD_STATUS_DONE\<rparr>, h',
              bufs(cmd_buf cmd := d @ drop (length d) (bufs (cmd_buf cmd)))))
      | IOT_CMD_WRITE \<Rightarrow>
          (case host_write h (word_int (cmd_word cmd)) (take (unat (cmd_count cmd)) (bufs (cmd_buf cmd)))
           of (r, h') \<Rightarrow> (cmd\<lparr>cmd_word := Val r, cmd_status := IOT_CMD_STATUS_DONE\<rparr>, h', bufs)))"

text \<open>A wait polls its predicate until the kernel resumes the thread; here at most \<open>n\<close> times.\<close>

fun submit_wait :: "nat \<Rightarrow> (uint32 \<Rightarrow> bool) \<Rightarrow> iot_cmd \<Rightarrow> iot_cmd res" where
  "submit_wait 0 resumes cmd = Inl Hang"
| "submit_wait (Suc n) resumes cmd =
     (case io_async_submit_wait_test cmd of (v, cmd') \<Rightarrow>
        if resumes v then Inr cmd' else submit_wait n resumes cmd')"

text \<open>
  \<^verbatim>\<open>io_async_read\<close> of one client with the helper idle: two polls are enough to enter, the helper
  serves the command between the waits. Result, bytes read and the new world.
\<close>

definition io_async_read :: "world \<Rightarrow> int \<Rightarrow> size_t \<Rightarrow> (int \<times> byte list \<times> world) res" where
  "io_async_read w fd count =
     rbind (submit_wait 2 (w_resumes w) (w_cmd w)) (\<lambda>cmd.
     case thread_io (io_async_read_submit fd 0 count cmd) w (\<lambda>_. []) of (cmd', w', bufs) \<Rightarrow>
       if \<not> w_resumes w (io_async_complete_wait_test cmd') then Inl Hang
       else case io_async_read_finish cmd' of (res, cmd'') \<Rightarrow>
         Inr (res, bufs 0, w'\<lparr>w_cmd := cmd''\<rparr>))"

definition io_async_write :: "world \<Rightarrow> int \<Rightarrow> byte list \<Rightarrow> int \<times> world" where
  "io_async_write w fd d = (- 1, w)"

definition io_read :: "world \<Rightarrow> int \<Rightarrow> size_t \<Rightarrow> (int \<times> byte list \<times> world) res" where
  "io_read w fd count = (if w_running w < UMKA_RUNNING_YES then Inr (host_read w fd count)
                         else io_async_read w fd count)"

definition io_write :: "world \<Rightarrow> int \<Rightarrow> byte list \<Rightarrow> int \<times> world" where
  "io_write w fd d = (if w_running w < UMKA_RUNNING_YES then host_write w fd d
                      else io_async_write w fd d)"

text \<open>The documented contract of \<^verbatim>\<open>kos_wait_events\<close>.\<close>

definition resumes_ok :: "(uint32 \<Rightarrow> bool) \<Rightarrow> bool" where
  "resumes_ok resumes \<longleftrightarrow> (\<forall>v. resumes v \<longleftrightarrow> v \<noteq> 0)"

definition io_ok :: "world \<Rightarrow> bool" where
  "io_ok w \<longleftrightarrow> resumes_ok (w_resumes w) \<and> \<not> cmd_locked (w_cmd w)"

section \<open>Reading through the helper is reading\<close>

lemma resumes_okD: "resumes_ok r \<Longrightarrow> r v \<longleftrightarrow> v \<noteq> 0"
  by (simp add: resumes_ok_def)

lemma submit_wait_free: "resumes_ok r \<Longrightarrow> \<not> cmd_locked cmd \<Longrightarrow> submit_wait 2 r cmd = Inr (cmd\<lparr>cmd_locked := True\<rparr>)"
  unfolding numeral_2_eq_2 by (simp add: io_async_submit_wait_test_def resumes_okD [of r])

lemma host_read_world:
  "host_read w fd n = (r, d, w') \<Longrightarrow>
     w_running w' = w_running w \<and> w_cmd w' = w_cmd w \<and> w_resumes w' = w_resumes w"
  by (cases "h_fds w fd") (simp add: host_read_def, (simp add: host_read_def Let_def split: if_split_asm; clarify; simp))

lemma io_async_read_host:
  assumes "io_ok w" "host_read w fd n = (r, d, w')"
  shows "\<exists>cmd. io_async_read w fd n = Inr (r, d, w'\<lparr>w_cmd := cmd\<rparr>) \<and> \<not> cmd_locked cmd"
  using assms
  by (auto simp: io_async_read_def io_ok_def submit_wait_free thread_io_def io_async_read_submit_def
      io_async_read_finish_def io_async_complete_wait_test_def resumes_okD [of "w_resumes w"])

lemma io_read_host:
  assumes "io_ok w" "host_read w fd n = (r, d, w')"
  shows "\<exists>cmd. io_read w fd n = Inr (r, d, w'\<lparr>w_cmd := cmd\<rparr>) \<and> \<not> cmd_locked cmd"
proof (cases "w_running w < 2")
  case True
  have "w_cmd w' = w_cmd w" using host_read_world [OF assms(2)] by simp
  then have "w' = w'\<lparr>w_cmd := w_cmd w\<rparr>" by simp
  then show ?thesis using True assms by (auto simp: io_read_def io_ok_def)
next
  case False
  then show ?thesis using io_async_read_host [OF assms] by (simp add: io_read_def)
qed

lemma io_ok_lseek [simp]: "io_ok (lseek_set w fd off) = io_ok w"
  by (auto simp: io_ok_def lseek_set_def split: option.splits)

text \<open>One read at an offset, as the disk layers use it.\<close>

lemma io_read_at:
  assumes "io_ok w" "fd_ok w fd bs" "0 \<le> sint off"
  shows "\<exists>w'. io_read (lseek_set w fd off) fd n
      = Inr (int (min (unat n) (length bs - unat off)), take (unat n) (drop (unat off) bs), w')
     \<and> fd_ok w' fd bs \<and> io_ok w'"
proof -
  obtain h' where h: "host_read (lseek_set w fd off) fd n
      = (int (min (unat n) (length bs - unat off)), take (unat n) (drop (unat off) bs), h')" "fd_ok h' fd bs"
    using host_read_at [OF assms(2,3)] by blast
  then obtain cmd where "io_read (lseek_set w fd off) fd n
      = Inr (int (min (unat n) (length bs - unat off)), take (unat n) (drop (unat off) bs), h'\<lparr>w_cmd := cmd\<rparr>)"
    "\<not> cmd_locked cmd" using io_read_host [OF _ h(1)] assms(1) by auto
  moreover have "w_resumes h' = w_resumes w" using host_read_world [OF h(1)]
    by (auto simp: lseek_set_def split: option.splits)
  ultimately show ?thesis using h(2) assms(1) by (auto simp: fd_ok_def io_ok_def)
qed

end
