(* ===== verification/IoProtocol.thy ===== *)
theory IoProtocol
  imports UmkaIO
begin

text \<open>
  The asynchronous read protocol of \<^verbatim>\<open>umkaio.c\<close> as a step relation: any number of kernel threads
  calling \<^verbatim>\<open>io_async_read\<close>, interleaved with the helper thread. The steps are the definitions of
  theory \<open>UmkaIO\<close>, cut at the two waits. With one client the protocol implements an atomic read;
  with two it does not, because the predicate of the first wait hands the kernel the result of
  \<^verbatim>\<open>pthread_mutex_trylock\<close>, which is zero exactly when the lock was taken. The client signals without
  the helper's mutex, so a signal sent while the helper is outside its wait is lost, and with it
  the call.
\<close>

section \<open>The system\<close>

datatype pc = Idle | Submit int size_t | Submitting int size_t | Complete | Finish | Done int

text \<open>
  The helper is on its way to \<^verbatim>\<open>pthread_cond_wait\<close> (before its first round or after serving a
  command), inside it, or woken from it. A condition variable has no memory: only a helper that
  waits takes a signal.
\<close>

datatype helper = Busy | Waiting | Woken

fun cond_signal :: "helper \<Rightarrow> helper" where
  "cond_signal Waiting = Woken"
| "cond_signal h = h"

record io_sys =
  sy_cmd :: iot_cmd
  sy_host :: host
  sy_bufs :: "nat \<Rightarrow> byte list"
  sy_pc :: "nat \<Rightarrow> pc"
  sy_helper :: helper

definition io_sys_init :: "host \<Rightarrow> (nat \<Rightarrow> byte list) \<Rightarrow> io_sys" where
  "io_sys_init h bufs = \<lparr>sy_cmd = iot_cmd_init, sy_host = h, sy_bufs = bufs, sy_pc = (\<lambda>_. Idle),
     sy_helper = Busy\<rparr>"

text \<open>
  \<open>n\<close> clients; \<open>spurious\<close> says whether the helper's \<^verbatim>\<open>pthread_cond_wait\<close> may return without a
  signal, as POSIX allows.
\<close>

inductive io_step :: "(uint32 \<Rightarrow> bool) \<Rightarrow> bool \<Rightarrow> nat \<Rightarrow> io_sys \<Rightarrow> io_sys \<Rightarrow> bool"
  for resumes spurious n where
  call: "i < n \<Longrightarrow> sy_pc s i = Idle \<or> sy_pc s i = Done r \<Longrightarrow>
    io_step resumes spurious n s (s\<lparr>sy_pc := (sy_pc s)(i := Submit fd count)\<rparr>)"
| enter: "i < n \<Longrightarrow> sy_pc s i = Submit fd count \<Longrightarrow>
    io_async_submit_wait_test (sy_cmd s) = (v, cmd') \<Longrightarrow> resumes v \<Longrightarrow>
    io_step resumes spurious n s (s\<lparr>sy_cmd := cmd', sy_pc := (sy_pc s)(i := Submitting fd count)\<rparr>)"
| poll: "i < n \<Longrightarrow> sy_pc s i = Submit fd count \<Longrightarrow>
    io_async_submit_wait_test (sy_cmd s) = (v, cmd') \<Longrightarrow> \<not> resumes v \<Longrightarrow>
    io_step resumes spurious n s (s\<lparr>sy_cmd := cmd'\<rparr>)"
| submit: "i < n \<Longrightarrow> sy_pc s i = Submitting fd count \<Longrightarrow>
    io_step resumes spurious n s (s\<lparr>sy_cmd := io_async_read_submit fd i count (sy_cmd s),
      sy_pc := (sy_pc s)(i := Complete), sy_helper := cond_signal (sy_helper s)\<rparr>)"
| await: "sy_helper s = Busy \<Longrightarrow> io_step resumes spurious n s (s\<lparr>sy_helper := Waiting\<rparr>)"
| serve: "sy_helper s = Woken \<Longrightarrow> thread_io (sy_cmd s) (sy_host s) (sy_bufs s) = (cmd', h', bufs') \<Longrightarrow>
    io_step resumes spurious n s
      (s\<lparr>sy_cmd := cmd', sy_host := h', sy_bufs := bufs', sy_helper := Busy\<rparr>)"
| wakeup: "spurious \<Longrightarrow> sy_helper s = Waiting \<Longrightarrow> io_step resumes spurious n s (s\<lparr>sy_helper := Woken\<rparr>)"
| complete: "i < n \<Longrightarrow> sy_pc s i = Complete \<Longrightarrow> resumes (io_async_complete_wait_test (sy_cmd s)) \<Longrightarrow>
    io_step resumes spurious n s (s\<lparr>sy_pc := (sy_pc s)(i := Finish)\<rparr>)"
| finish: "i < n \<Longrightarrow> sy_pc s i = Finish \<Longrightarrow> io_async_read_finish (sy_cmd s) = (r, cmd') \<Longrightarrow>
    io_step resumes spurious n s (s\<lparr>sy_cmd := cmd', sy_pc := (sy_pc s)(i := Done r)\<rparr>)"

inductive_cases io_stepE: "io_step resumes spurious n s s'"

abbreviation io_steps :: "(uint32 \<Rightarrow> bool) \<Rightarrow> bool \<Rightarrow> nat \<Rightarrow> io_sys \<Rightarrow> io_sys \<Rightarrow> bool" where
  "io_steps resumes spurious n \<equiv> (io_step resumes spurious n)\<^sup>*\<^sup>*"

section \<open>The atomic read it stands for\<close>

datatype apc = AIdle | ACalled int size_t | ADone int

record aread =
  a_host :: host
  a_buf :: "byte list"
  a_pc :: apc

inductive astep :: "aread \<Rightarrow> aread \<Rightarrow> bool" where
  acall: "a_pc a = AIdle \<or> a_pc a = ADone r \<Longrightarrow> astep a (a\<lparr>a_pc := ACalled fd count\<rparr>)"
| aread: "a_pc a = ACalled fd count \<Longrightarrow> host_read (a_host a) fd count = (r, d, h') \<Longrightarrow>
    astep a (a\<lparr>a_host := h', a_buf := d @ drop (length d) (a_buf a), a_pc := ADone r\<rparr>)"

definition abs_pc :: "io_sys \<Rightarrow> apc" where
  "abs_pc s = (case sy_pc s 0 of Idle \<Rightarrow> AIdle | Submit fd c \<Rightarrow> ACalled fd c
     | Submitting fd c \<Rightarrow> ACalled fd c | Done r \<Rightarrow> ADone r
     | _ \<Rightarrow> if cmd_status (sy_cmd s) = IOT_CMD_STATUS_DONE then ADone (word_int (cmd_word (sy_cmd s)))
            else ACalled (word_int (cmd_word (sy_cmd s))) (cmd_count (sy_cmd s)))"

definition abs_io :: "io_sys \<Rightarrow> aread" where
  "abs_io s = \<lparr>a_host = sy_host s, a_buf = sy_bufs s 0, a_pc = abs_pc s\<rparr>"

text \<open>The invariant of one client without spurious wake-ups.\<close>

definition io_inv :: "io_sys \<Rightarrow> bool" where
  "io_inv s \<longleftrightarrow> (case sy_pc s 0 of
       Idle \<Rightarrow> \<not> cmd_locked (sy_cmd s) \<and> sy_helper s \<noteq> Woken
     | Done r \<Rightarrow> \<not> cmd_locked (sy_cmd s) \<and> sy_helper s \<noteq> Woken
     | Submit fd c \<Rightarrow> sy_helper s \<noteq> Woken
     | Submitting fd c \<Rightarrow> cmd_locked (sy_cmd s) \<and> sy_helper s \<noteq> Woken
     | Complete \<Rightarrow> cmd_locked (sy_cmd s) \<and> cmd_type (sy_cmd s) = IOT_CMD_READ \<and> cmd_buf (sy_cmd s) = 0
         \<and> (cmd_status (sy_cmd s) = IOT_CMD_STATUS_READY
            \<or> cmd_status (sy_cmd s) = IOT_CMD_STATUS_DONE \<and> sy_helper s \<noteq> Woken)
     | Finish \<Rightarrow> cmd_locked (sy_cmd s) \<and> sy_helper s \<noteq> Woken \<and> cmd_status (sy_cmd s) = IOT_CMD_STATUS_DONE)"

text \<open>A submitted command whose signal nobody received.\<close>

definition lost :: "io_sys \<Rightarrow> bool" where
  "lost s \<longleftrightarrow> sy_pc s 0 = Complete \<and> cmd_status (sy_cmd s) = IOT_CMD_STATUS_READY \<and> sy_helper s \<noteq> Woken"

lemmas io_defs = io_inv_def abs_io_def abs_pc_def io_async_submit_wait_test_def
  io_async_complete_wait_test_def io_async_read_submit_def io_async_read_finish_def

lemma io_inv_init: "io_inv (io_sys_init h bufs)"
  by (simp add: io_inv_def io_sys_init_def iot_cmd_init_def)

lemma io_step_simulation:
  assumes "resumes_ok resumes" "io_step resumes False 1 s s'" "io_inv s"
  shows "io_inv s' \<and> (abs_io s' = abs_io s \<or> astep (abs_io s) (abs_io s'))"
  using assms(2)
proof (cases rule: io_step.cases)
  case (call i r fd count)
  then have "abs_io s' = (abs_io s)\<lparr>a_pc := ACalled fd count\<rparr>" "io_inv s'"
    using assms(3) by (auto simp: io_defs)
  moreover have "astep (abs_io s) ((abs_io s)\<lparr>a_pc := ACalled fd count\<rparr>)"
    using call by (intro astep.acall [where r = r]) (auto simp: io_defs)
  ultimately show ?thesis by simp
next
  case (enter i fd count v cmd')
  then show ?thesis using assms(3) resumes_okD [OF assms(1), of v]
    by (auto simp: io_defs split: if_splits)
next
  case (poll i fd count v cmd')
  then show ?thesis using assms(3) by (auto simp: io_defs split: if_splits)
next
  case (submit i fd count)
  then show ?thesis using assms(3) by (auto simp: io_defs)
next
  case (serve cmd' h' bufs')
  obtain r d h where r: "host_read (sy_host s) (word_int (cmd_word (sy_cmd s))) (cmd_count (sy_cmd s)) = (r, d, h)"
    by (metis prod_cases3)
  have C: "sy_pc s 0 = Complete" using serve(2) assms(3) by (auto simp: io_inv_def split: pc.splits)
  have st: "cmd_status (sy_cmd s) = IOT_CMD_STATUS_READY" using C serve(2) assms(3) by (simp add: io_inv_def)
  have "astep (abs_io s) ((abs_io s)\<lparr>a_host := h, a_buf := d @ drop (length d) (sy_bufs s 0), a_pc := ADone r\<rparr>)"
    using C st r astep.aread [of "abs_io s" _ _ r d h] by (simp add: abs_io_def abs_pc_def)
  moreover have "abs_io s' = (abs_io s)\<lparr>a_host := h, a_buf := d @ drop (length d) (sy_bufs s 0), a_pc := ADone r\<rparr>"
    "io_inv s'"
    using C serve assms(3) r by (auto simp: io_defs thread_io_def)
  ultimately show ?thesis by simp
next
  case await
  then have "abs_io s' = abs_io s" by (cases "sy_pc s 0") (simp_all add: abs_io_def abs_pc_def)
  moreover have "io_inv s'" using await assms(3) by (cases "sy_pc s 0") (simp_all add: io_inv_def)
  ultimately show ?thesis by simp
next
  case wakeup
  then show ?thesis by simp
next
  case (complete i)
  then have "io_async_complete_wait_test (sy_cmd s) \<noteq> 0" using resumes_okD [OF assms(1)] by blast
  then have d: "cmd_status (sy_cmd s) = IOT_CMD_STATUS_DONE"
    by (cases "cmd_status (sy_cmd s)") (simp_all add: io_async_complete_wait_test_def)
  have p: "sy_pc s 0 = Complete" "s' = s\<lparr>sy_pc := (sy_pc s)(0 := Finish)\<rparr>" using complete by auto
  have "abs_io s' = abs_io s" "io_inv s'" using assms(3) d unfolding p(2) by (simp_all add: p(1) abs_io_def abs_pc_def io_inv_def)
  then show ?thesis by simp
next
  case (finish i r cmd')
  then show ?thesis using assms(3) by (auto simp: io_defs)
qed


lemma io_reachable_inv:
  assumes "resumes_ok resumes" "io_steps resumes False 1 (io_sys_init h bufs) s"
  shows "io_inv s \<and> astep\<^sup>*\<^sup>* (abs_io (io_sys_init h bufs)) (abs_io s)"
  using assms(2)
proof (induction rule: rtranclp_induct)
  case base
  then show ?case by (simp add: io_inv_init)
next
  case (step s s')
  then show ?case using io_step_simulation [OF assms(1) step(2)]
    by (auto intro: rtranclp.rtrancl_into_rtrancl)
qed

section \<open>A call in progress can be finished\<close>

lemma can_finish:
  assumes "resumes_ok resumes" "sy_pc s 0 = Finish"
  shows "\<exists>s' r. io_steps resumes False 1 s s' \<and> sy_pc s' 0 = Done r"
proof -
  obtain r cmd' where "io_async_read_finish (sy_cmd s) = (r, cmd')" by fastforce
  from io_step.finish [of 0 1 s, OF _ assms(2) this] show ?thesis
    by (intro exI [of _ "s\<lparr>sy_cmd := cmd', sy_pc := (sy_pc s)(0 := Done r)\<rparr>"] exI [of _ r]) auto
qed

lemma can_complete:
  assumes "resumes_ok resumes" "sy_pc s 0 = Complete" "io_inv s" "\<not> lost s"
  shows "\<exists>s' r. io_steps resumes False 1 s s' \<and> sy_pc s' 0 = Done r"
proof -
  have served: "\<exists>s' r. io_steps resumes False 1 t s' \<and> sy_pc s' 0 = Done r"
    if "sy_pc t 0 = Complete" "cmd_status (sy_cmd t) = IOT_CMD_STATUS_DONE" for t
  proof -
    have "resumes (io_async_complete_wait_test (sy_cmd t))"
      using that assms(1) by (simp add: io_async_complete_wait_test_def resumes_okD)
    then have "io_step resumes False 1 t (t\<lparr>sy_pc := (sy_pc t)(0 := Finish)\<rparr>)"
      using that by (intro io_step.complete) auto
    then show ?thesis using can_finish [OF assms(1), of "t\<lparr>sy_pc := (sy_pc t)(0 := Finish)\<rparr>"]
      by (auto intro: converse_rtranclp_into_rtranclp)
  qed
  show ?thesis
  proof (cases "sy_helper s = Woken")
    case True
    obtain cmd' h' bufs' where th: "thread_io (sy_cmd s) (sy_host s) (sy_bufs s) = (cmd', h', bufs')"
      by (metis prod_cases3)
    let ?t = "s\<lparr>sy_cmd := cmd', sy_host := h', sy_bufs := bufs', sy_helper := Busy\<rparr>"
    have st: "io_step resumes False 1 s ?t" using True th by (rule io_step.serve)
    have "cmd_status cmd' = IOT_CMD_STATUS_DONE"
      using th by (auto simp: thread_io_def split: iot_type.splits prod.splits)
    then show ?thesis using served [of ?t] st assms(2) by (auto intro: converse_rtranclp_into_rtranclp)
  next
    case False
    then show ?thesis using served assms by (auto simp: io_inv_def lost_def)
  qed
qed

lemma can_signal:
  assumes "resumes_ok resumes" "sy_pc s 0 = Submitting fd c" "io_inv s" "sy_helper s = Waiting"
  shows "\<exists>s' r. io_steps resumes False 1 s s' \<and> sy_pc s' 0 = Done r"
proof -
  let ?t = "s\<lparr>sy_cmd := io_async_read_submit fd 0 c (sy_cmd s), sy_pc := (sy_pc s)(0 := Complete),
             sy_helper := cond_signal (sy_helper s)\<rparr>"
  have st: "io_step resumes False 1 s ?t" using assms(2) by (intro io_step.submit) auto
  then have "io_inv ?t" using io_step_simulation [OF assms(1) _ assms(3)] by blast
  then show ?thesis using can_complete [OF assms(1), of ?t] st assms(4)
    by (auto simp: lost_def intro: converse_rtranclp_into_rtranclp)
qed

lemma can_submit:
  assumes "resumes_ok resumes" "sy_pc s 0 = Submitting fd c" "io_inv s"
  shows "\<exists>s' r. io_steps resumes False 1 s s' \<and> sy_pc s' 0 = Done r"
proof (cases "sy_helper s")
  case Busy
  let ?t = "s\<lparr>sy_helper := Waiting\<rparr>"
  have st: "io_step resumes False 1 s ?t" using Busy by (rule io_step.await)
  then have "io_inv ?t" using io_step_simulation [OF assms(1) _ assms(3)] by blast
  then show ?thesis using can_signal [OF assms(1), of ?t fd c] st assms(2)
    by (auto intro: converse_rtranclp_into_rtranclp)
qed (use can_signal [OF assms] assms in \<open>auto simp: io_inv_def\<close>)

lemma can_enter:
  assumes "resumes_ok resumes" "sy_pc s 0 = Submit fd c" "io_inv s" "cmd_locked (sy_cmd s)"
  shows "\<exists>s' r. io_steps resumes False 1 s s' \<and> sy_pc s' 0 = Done r"
proof -
  let ?t = "s\<lparr>sy_cmd := sy_cmd s, sy_pc := (sy_pc s)(0 := Submitting fd c)\<rparr>"
  have st: "io_step resumes False 1 s ?t"
    using assms by (intro io_step.enter [where v = EBUSY])
      (auto simp: io_async_submit_wait_test_def resumes_okD)
  then have "io_inv ?t" using io_step_simulation [OF assms(1) _ assms(3)] by blast
  then show ?thesis using can_submit [OF assms(1), of ?t fd c] st
    by (auto intro: converse_rtranclp_into_rtranclp)
qed

lemma can_poll:
  assumes "resumes_ok resumes" "sy_pc s 0 = Submit fd c" "io_inv s"
  shows "\<exists>s' r. io_steps resumes False 1 s s' \<and> sy_pc s' 0 = Done r"
proof (cases "cmd_locked (sy_cmd s)")
  case True
  then show ?thesis using can_enter [OF assms] by blast
next
  case False
  let ?t = "s\<lparr>sy_cmd := (sy_cmd s)\<lparr>cmd_locked := True\<rparr>\<rparr>"
  have st: "io_step resumes False 1 s ?t"
    using assms(1,2) False by (intro io_step.poll [where v = 0])
      (auto simp: io_async_submit_wait_test_def resumes_okD)
  then have "io_inv ?t" using io_step_simulation [OF assms(1) _ assms(3)] by blast
  then show ?thesis using can_enter [OF assms(1), of ?t fd c] st assms(2)
    by (auto intro: converse_rtranclp_into_rtranclp)
qed

text \<open>A lost command stays lost.\<close>

lemma lost_step:
  assumes "resumes_ok resumes" "io_step resumes False 1 s s'" "lost s"
  shows "lost s'"
  using assms(2)
proof (cases rule: io_step.cases)
  case (complete i)
  then show ?thesis using assms(1,3) by (auto simp: lost_def io_async_complete_wait_test_def resumes_okD)
qed (use assms(3) in \<open>auto simp: lost_def\<close>)

lemma lost_steps: "io_steps resumes False 1 s s' \<Longrightarrow> resumes_ok resumes \<Longrightarrow> lost s \<Longrightarrow> lost s'"
  by (induction rule: rtranclp_induct) (auto intro: lost_step)

subsection \<open>Running a schedule\<close>

text \<open>An executable scheduler: each action names the client whose next step is taken.\<close>

datatype act = Call nat int size_t | Poll nat | Store nat | Await | Serve | Resume nat | Leave nat

fun exec1 :: "(uint32 \<Rightarrow> bool) \<Rightarrow> nat \<Rightarrow> act \<Rightarrow> io_sys \<Rightarrow> io_sys option" where
  "exec1 resumes n (Call i fd c) s = (if i < n \<and> (case sy_pc s i of Idle \<Rightarrow> True | Done r \<Rightarrow> True | _ \<Rightarrow> False)
     then Some (s\<lparr>sy_pc := (sy_pc s)(i := Submit fd c)\<rparr>) else None)"
| "exec1 resumes n (Poll i) s = (if i < n then (case sy_pc s i of Submit fd c \<Rightarrow>
       (case io_async_submit_wait_test (sy_cmd s) of (v, cmd') \<Rightarrow>
          if resumes v then Some (s\<lparr>sy_cmd := cmd', sy_pc := (sy_pc s)(i := Submitting fd c)\<rparr>)
          else Some (s\<lparr>sy_cmd := cmd'\<rparr>)) | _ \<Rightarrow> None) else None)"
| "exec1 resumes n (Store i) s = (if i < n then (case sy_pc s i of Submitting fd c \<Rightarrow>
       Some (s\<lparr>sy_cmd := io_async_read_submit fd i c (sy_cmd s),
         sy_pc := (sy_pc s)(i := Complete), sy_helper := cond_signal (sy_helper s)\<rparr>) | _ \<Rightarrow> None) else None)"
| "exec1 resumes n Await s = (if sy_helper s = Busy then Some (s\<lparr>sy_helper := Waiting\<rparr>) else None)"
| "exec1 resumes n Serve s = (if sy_helper s = Woken then
       (case thread_io (sy_cmd s) (sy_host s) (sy_bufs s) of (cmd', h', bufs') \<Rightarrow>
          Some (s\<lparr>sy_cmd := cmd', sy_host := h', sy_bufs := bufs', sy_helper := Busy\<rparr>)) else None)"
| "exec1 resumes n (Resume i) s =
     (if i < n \<and> sy_pc s i = Complete \<and> resumes (io_async_complete_wait_test (sy_cmd s))
      then Some (s\<lparr>sy_pc := (sy_pc s)(i := Finish)\<rparr>) else None)"
| "exec1 resumes n (Leave i) s = (if i < n \<and> sy_pc s i = Finish then
       (case io_async_read_finish (sy_cmd s) of (r, cmd') \<Rightarrow>
          Some (s\<lparr>sy_cmd := cmd', sy_pc := (sy_pc s)(i := Done r)\<rparr>)) else None)"

lemma exec1_step: "exec1 resumes n a s = Some s' \<Longrightarrow> io_step resumes False n s s'"
  by (cases a) (auto split: if_splits pc.splits prod.splits
      intro: io_step.intros)

fun exec :: "(uint32 \<Rightarrow> bool) \<Rightarrow> nat \<Rightarrow> act list \<Rightarrow> io_sys \<Rightarrow> io_sys option" where
  "exec resumes n [] s = Some s"
| "exec resumes n (a # as) s = (case exec1 resumes n a s of None \<Rightarrow> None | Some s' \<Rightarrow> exec resumes n as s')"

lemma exec_steps: "exec resumes n as s = Some s' \<Longrightarrow> io_steps resumes False n s s'"
  by (induction as arbitrary: s)
    (auto split: option.splits intro: converse_rtranclp_into_rtranclp exec1_step)

text \<open>A small host for the examples: descriptors 3 and 4 on files of four and two bytes.\<close>

definition demo_host :: host where
  "demo_host = \<lparr>h_files = Map.empty, h_badfiles = [], h_fds =
     [3 \<mapsto> \<lparr>fcontent = [1, 2, 3, 4], fpos = 0, ferr = False, fwritable = False\<rparr>,
      4 \<mapsto> \<lparr>fcontent = [9, 8], fpos = 0, ferr = False, fwritable = False\<rparr>]\<rparr>"

definition demo_called :: io_sys where
  "demo_called = (io_sys_init demo_host (\<lambda>_. [0, 0, 0, 0]))\<lparr>sy_pc := (\<lambda>_. Idle)(0 := Submit 3 4)\<rparr>"

lemma demo_resumes: "resumes_ok (\<lambda>v. v \<noteq> 0)"
  by (simp add: resumes_ok_def)

lemma demo_reach: "io_steps (\<lambda>v. v \<noteq> 0) False 1 (io_sys_init demo_host (\<lambda>_. [0, 0, 0, 0])) demo_called"
proof -
  have "io_step (\<lambda>v. v \<noteq> 0) False 1 (io_sys_init demo_host (\<lambda>_. [0, 0, 0, 0])) demo_called"
    using io_step.call [of 0 1 "io_sys_init demo_host (\<lambda>_. [0, 0, 0, 0])" 0 "\<lambda>v. v \<noteq> 0" False 3 4]
    by (simp add: demo_called_def io_sys_init_def)
  then show ?thesis by blast
qed

section \<open>Properties\<close>





text \<open>
  (C33) A signal can be lost: after a first read that returned what the host returned, a second one
  can reach a state from which no schedule brings it to an end, although only one client runs.
\<close>

theorem io_protocol_lost_signal:
  assumes "resumes_ok resumes" "host_read h fd c = (r, d, h')"
  shows "\<exists>s1 s2. io_steps resumes False 1 (io_sys_init h bufs) s1 \<and> sy_pc s1 0 = Done r
    \<and> io_steps resumes False 1 s1 s2 \<and> sy_pc s2 0 = Complete
    \<and> (\<forall>s3. io_steps resumes False 1 s2 s3 \<longrightarrow> sy_pc s3 0 = Complete)"
proof -
  note defs = io_sys_init_def iot_cmd_init_def io_async_submit_wait_test_def thread_io_def
    io_async_read_submit_def io_async_complete_wait_test_def io_async_read_finish_def
  have r: "resumes EBUSY" "\<not> resumes 0" "resumes 1" using assms(1) by (simp_all add: resumes_okD)
  obtain s1 where s1: "exec resumes 1 [Await, Call 0 fd c, Poll 0, Poll 0, Store 0, Serve, Resume 0, Leave 0]
      (io_sys_init h bufs) = Some s1" "sy_pc s1 0 = Done r" "sy_helper s1 = Busy" "\<not> cmd_locked (sy_cmd s1)"
    using r assms(2) by (simp add: defs)
  obtain s2 where s2: "exec resumes 1 [Call 0 fd2 c2, Poll 0, Poll 0, Store 0] s1 = Some s2" "lost s2"
    using r s1(2-4) by (simp add: defs lost_def)
  have "\<forall>s3. io_steps resumes False 1 s2 s3 \<longrightarrow> sy_pc s3 0 = Complete"
    using lost_steps [OF _ assms(1) s2(2)] by (auto simp: lost_def)
  then show ?thesis using exec_steps [OF s1(1)] exec_steps [OF s2(1)] s1(2) s2(2) by (auto simp: lost_def)
qed

theorem io_protocol_lost_signal_witness:
  "\<exists>s1 s2. io_steps (\<lambda>v. v \<noteq> 0) False 1 (io_sys_init demo_host (\<lambda>_. [0, 0, 0, 0])) s1 \<and> sy_pc s1 0 = Done 2
    \<and> io_steps (\<lambda>v. v \<noteq> 0) False 1 s1 s2 \<and> sy_pc s2 0 = Complete
    \<and> (\<forall>s3. io_steps (\<lambda>v. v \<noteq> 0) False 1 s2 s3 \<longrightarrow> sy_pc s3 0 = Complete)"
proof -
  obtain h1 where "host_read demo_host 4 2 = (2, [9, 8], h1)"
    by (simp add: host_read_def demo_host_def Let_def)
  from io_protocol_lost_signal [OF demo_resumes this] show ?thesis by blast
qed

text \<open>
  (C16) Two clients are not kept apart. Whatever the two calls in progress are, there is an
  interleaving, without spurious wake-ups, in which the first call returns the result of the
  second one's read while its own buffer is never written and its own read never done.
\<close>

theorem io_protocol_two_clients_interfere:
  assumes "resumes_ok resumes" "host_read h fd1 c1 = (r1, d1, h1)"
  shows "\<exists>s1 s2. io_steps resumes False 2 (io_sys_init h bufs) s1
     \<and> sy_pc s1 0 = Submit fd0 c0 \<and> sy_pc s1 1 = Submit fd1 c1 \<and> sy_host s1 = h
     \<and> io_steps resumes False 2 s1 s2 \<and> sy_pc s2 0 = Done r1 \<and> sy_bufs s2 0 = bufs 0
     \<and> sy_host s2 = h1"
proof -
  note defs = io_sys_init_def iot_cmd_init_def io_async_submit_wait_test_def thread_io_def
    io_async_read_submit_def io_async_complete_wait_test_def io_async_read_finish_def
  have r: "resumes EBUSY" "\<not> resumes 0" "resumes 1" using assms(1) by (simp_all add: resumes_okD)
  define s1 where "s1 = (io_sys_init h bufs)\<lparr>sy_pc := (\<lambda>_. Idle)(0 := Submit fd0 c0, 1 := Submit fd1 c1)\<rparr>"
  have "exec resumes 2 [Call 0 fd0 c0, Call 1 fd1 c1] (io_sys_init h bufs) = Some s1"
    by (simp add: s1_def defs)
  then have "io_steps resumes False 2 (io_sys_init h bufs) s1" by (rule exec_steps)
  moreover have "sy_pc s1 0 = Submit fd0 c0" "sy_pc s1 1 = Submit fd1 c1" "sy_host s1 = h"
    by (simp_all add: s1_def defs)
  moreover have "\<exists>s. exec resumes 2 [Await, Poll 0, Poll 1, Poll 0, Store 0, Store 1, Serve, Resume 0, Leave 0] s1
      = Some s \<and> sy_pc s 0 = Done r1 \<and> sy_bufs s 0 = bufs 0 \<and> sy_host s = h1"
    using r assms(2) by (simp add: s1_def defs)
  ultimately show ?thesis using exec_steps by blast
qed

theorem io_protocol_two_clients_interfere_witness:
  "\<exists>s1 s2. io_steps (\<lambda>v. v \<noteq> 0) False 2 (io_sys_init demo_host (\<lambda>_. [0, 0, 0, 0])) s1
     \<and> sy_pc s1 0 = Submit 3 4 \<and> io_steps (\<lambda>v. v \<noteq> 0) False 2 s1 s2
     \<and> sy_pc s2 0 = Done 2 \<and> sy_bufs s2 0 = [0, 0, 0, 0]"
proof -
  obtain h1 where "host_read demo_host 4 2 = (2, [9, 8], h1)"
    by (simp add: host_read_def demo_host_def Let_def)
  from io_protocol_two_clients_interfere [OF demo_resumes this, of "\<lambda>_. [0, 0, 0, 0]" 3 4]
  show ?thesis by blast
qed

end
