(* ===== verification/RawDisk.thy ===== *)
theory RawDisk
  imports UmkaIO
begin

text \<open>
  \<^verbatim>\<open>struct vdisk\<close> of \<^verbatim>\<open>vdisk.h\<close>, the contract of a readable block device, and the raw image driver
  \<^verbatim>\<open>vdisk/raw.c\<close>. Function pointers of \<^verbatim>\<open>diskfunc_t\<close> are the names of the functions they point to.
  Diagnostics printed on the console are not modelled.
\<close>

section \<open>Disks\<close>

datatype diskfn = Vdisk_raw_close | Vdisk_raw_read | Vdisk_raw_write
  | Vdisk_qcow2_close | Vdisk_qcow2_read | Vdisk_qcow2_write
  | Vdisk_querymedia | Vdisk_adjust_cache_size

record diskfunc_t =
  df_close :: "diskfn option"
  df_closemedia :: "diskfn option"
  df_querymedia :: "diskfn option"
  df_read :: "diskfn option"
  df_write :: "diskfn option"
  df_flush :: "diskfn option"
  df_adjust_cache_size :: "diskfn option"

record vdisk =
  diskfunc :: diskfunc_t
  sect_size :: uint32
  sect_cnt :: uint64
  cache_size :: uint32
  adjust_cache_size :: int

datatype kos_error = KOS_ERROR_SUCCESS | KOS_ERROR_DISK_BASE | KOS_ERROR_UNSUPPORTED_FS
  | KOS_ERROR_UNKNOWN_FS | KOS_ERROR_PARTITION | KOS_ERROR_FILE_NOT_FOUND | KOS_ERROR_END_OF_FILE
  | KOS_ERROR_MEMORY_POINTER | KOS_ERROR_DISK_FULL | KOS_ERROR_FS_FAIL | KOS_ERROR_ACCESS_DENIED
  | KOS_ERROR_DEVICE | KOS_ERROR_OUT_OF_MEMORY

text \<open>The sector size both image formats take from the file name.\<close>

definition sect_size_of_name :: "string \<Rightarrow> uint32" where
  "sect_size_of_name fname =
     (if strstr fname ''s4096'' \<noteq> None \<or> strstr fname ''s4k'' \<noteq> None then 4096
      else if strstr fname ''s2048'' \<noteq> None \<or> strstr fname ''s2k'' \<noteq> None then 2048
      else 512)"

section \<open>The contract of a readable device\<close>

text \<open>
  A device of sectors of \<open>ss\<close> bytes over an abstract content: reading any range inside it yields
  the bytes of the content there, and neither changes the content nor leaves the invariant.
\<close>

locale readable_device =
  fixes rd :: "'s \<Rightarrow> nat \<Rightarrow> nat \<Rightarrow> (byte list \<times> 's) res"
    and inv :: "'s \<Rightarrow> bool" and guest :: "'s \<Rightarrow> byte list" and ss :: "'s \<Rightarrow> nat"
  assumes read_ok: "inv s \<Longrightarrow> (start + count) * ss s \<le> length (guest s) \<Longrightarrow>
      count * ss s < 2 ^ 32 \<Longrightarrow>
      \<exists>s'. rd s start count = Inr (take (count * ss s) (drop (start * ss s) (guest s)), s')
         \<and> inv s' \<and> guest s' = guest s \<and> ss s' = ss s"
begin

lemma read_again:
  assumes "inv s" "(start + count) * ss s \<le> length (guest s)" "count * ss s < 2 ^ 32"
    "rd s start count = Inr (d, s')"
  shows "\<exists>s''. rd s' start count = Inr (d, s'')"
proof -
  obtain s1 where s1: "rd s start count = Inr (take (count * ss s) (drop (start * ss s) (guest s)), s1)"
    "inv s1" "guest s1 = guest s" "ss s1 = ss s" using read_ok [OF assms(1-3)] by blast
  then have "s1 = s'" "d = take (count * ss s) (drop (start * ss s) (guest s))" using assms(4) by auto
  then show ?thesis using read_ok [of s' start count] s1 assms(2,3) by auto
qed

lemma read_split:
  assumes "inv s" "(start + (a + b)) * ss s \<le> length (guest s)" "(a + b) * ss s < 2 ^ 32"
  shows "\<exists>d1 d2 s1 s2 s3. rd s start a = Inr (d1, s1) \<and> rd s1 (start + a) b = Inr (d2, s2)
    \<and> rd s start (a + b) = Inr (d1 @ d2, s3)"
proof -
  have "(start + a) * ss s \<le> (start + (a + b)) * ss s" by (rule mult_le_mono1) simp
  then have le: "(start + a) * ss s \<le> length (guest s)" using assms(2) by linarith
  have le': "a * ss s < 2 ^ 32" "b * ss s < 2 ^ 32" using assms(3) by (simp_all add: add_mult_distrib)
  obtain s1 where s1: "rd s start a = Inr (take (a * ss s) (drop (start * ss s) (guest s)), s1)"
    "inv s1" "guest s1 = guest s" "ss s1 = ss s" using read_ok [OF assms(1) le le'(1)] by blast
  obtain s2 where s2: "rd s1 (start + a) b = Inr (take (b * ss s) (drop ((start + a) * ss s) (guest s)), s2)"
    using read_ok [of s1 "start + a" b] s1 assms(2) le'(2) by (auto simp: algebra_simps)
  obtain s3 where s3: "rd s start (a + b)
      = Inr (take ((a + b) * ss s) (drop (start * ss s) (guest s)), s3)"
    using read_ok [OF assms] by blast
  have "take ((a + b) * ss s) (drop (start * ss s) (guest s))
    = take (a * ss s) (drop (start * ss s) (guest s)) @ take (b * ss s) (drop ((start + a) * ss s) (guest s))"
    by (simp add: add_mult_distrib take_add drop_drop add.commute)
  then show ?thesis using s1 s2 s3 by auto
qed

end

section \<open>The raw driver\<close>

record vdisk_raw =
  raw_vdisk :: vdisk
  raw_fd :: int

abbreviation (input) sizeof_vdisk_raw :: nat where "sizeof_vdisk_raw \<equiv> 64"

definition vdisk_raw_close :: "world \<Rightarrow> vdisk_raw \<Rightarrow> world" where
  "vdisk_raw_close w d = host_close w (raw_fd d)"

definition vdisk_raw_read :: "world \<Rightarrow> vdisk_raw \<Rightarrow> byte list \<Rightarrow> off_t \<Rightarrow> size_t
    \<Rightarrow> (kos_error \<times> byte list \<times> world) res" where
  "vdisk_raw_read w d buffer startsector numsectors =
     (let w1 = lseek_set w (raw_fd d) (startsector * ucast (sect_size (raw_vdisk d))) in
      rbind (io_read w1 (raw_fd d) (numsectors * sect_size (raw_vdisk d))) (\<lambda>(r, bytes, w2).
      rbind (blit buffer bytes) (\<lambda>buffer'.
      Inr (KOS_ERROR_SUCCESS, buffer', w2))))"

definition vdisk_raw_write :: "world \<Rightarrow> vdisk_raw \<Rightarrow> byte list \<Rightarrow> off_t \<Rightarrow> size_t
    \<Rightarrow> (kos_error \<times> world) res" where
  "vdisk_raw_write w d buffer startsector numsectors =
     (let w1 = lseek_set w (raw_fd d) (startsector * ucast (sect_size (raw_vdisk d))) in
      rbind (slice buffer 0 (unat (numsectors * sect_size (raw_vdisk d)))) (\<lambda>data.
      let (r, w2) = io_write w1 (raw_fd d) data in
      Inr (KOS_ERROR_SUCCESS, w2)))"

text \<open>
  The descriptor is compared with zero, not with -1. The structure is filled in without a check of
  the allocation.
\<close>

definition vdisk_init_raw :: "mem \<Rightarrow> world \<Rightarrow> string \<Rightarrow> (vdisk_raw option \<times> world) res" where
  "vdisk_init_raw m w fname =
     (let (fd, w1) = host_open_rdonly w fname in
      if fd = 0 then Inr (None, w1)
      else let (fsize, w2) = lseek_end w1 fd;
               w3 = lseek_set w2 fd 0;
               ss = sect_size_of_name fname
           in if \<not> malloc_ok m sizeof_vdisk_raw then Inl Null_deref
              else Inr (Some \<lparr>raw_vdisk =
                     \<lparr>diskfunc = \<lparr>df_close = Some Vdisk_raw_close, df_closemedia = None,
                        df_querymedia = None, df_read = Some Vdisk_raw_read,
                        df_write = Some Vdisk_raw_write, df_flush = None, df_adjust_cache_size = None\<rparr>,
                      sect_size = ss, sect_cnt = fsize div ucast ss,
                      cache_size = 0, adjust_cache_size = 0\<rparr>,
                   raw_fd = fd\<rparr>, w3))"


section \<open>Correctness of raw reads\<close>

definition raw_guest :: "vdisk_raw \<times> world \<Rightarrow> byte list" where
  "raw_guest = (\<lambda>(d, w). case h_fds w (raw_fd d) of Some f \<Rightarrow> fcontent f | None \<Rightarrow> [])"

definition raw_ss :: "vdisk_raw \<times> world \<Rightarrow> nat" where
  "raw_ss = (\<lambda>(d, w). unat (sect_size (raw_vdisk d)))"

definition raw_ok :: "vdisk_raw \<times> world \<Rightarrow> bool" where
  "raw_ok = (\<lambda>(d, w). io_ok w \<and> fd_ok w (raw_fd d) (raw_guest (d, w))
     \<and> length (raw_guest (d, w)) < 2 ^ 63 \<and> sect_size (raw_vdisk d) \<noteq> 0)"

text \<open>A read into a buffer of exactly the size asked for.\<close>

definition raw_rd :: "vdisk_raw \<times> world \<Rightarrow> nat \<Rightarrow> nat \<Rightarrow> (byte list \<times> vdisk_raw \<times> world) res" where
  "raw_rd = (\<lambda>(d, w) start count.
     rbind (vdisk_raw_read w d (replicate (count * raw_ss (d, w)) 0) (of_nat start) (of_nat count))
       (\<lambda>(err, buf, w'). Inr (buf, d, w')))"

lemma fd_ok_guest: "fd_ok w (raw_fd d) bs \<Longrightarrow> raw_guest (d, w) = bs"
  by (auto simp: fd_ok_def raw_guest_def)

lemma le_mult_nat: "0 < (b::nat) \<Longrightarrow> a \<le> a * b" by simp

lemma vdisk_raw_read_general:
  assumes "io_ok w" "fd_ok w (raw_fd d) bs"
    and "start * unat (sect_size (raw_vdisk d)) < 2 ^ 63" "count * unat (sect_size (raw_vdisk d)) < 2 ^ 32"
    and "sect_size (raw_vdisk d) \<noteq> 0" "count * unat (sect_size (raw_vdisk d)) \<le> length buf"
    and off: "off = start * unat (sect_size (raw_vdisk d))" and n: "n = count * unat (sect_size (raw_vdisk d))"
  shows "\<exists>w'. vdisk_raw_read w d buf (of_nat start) (of_nat count)
      = Inr (KOS_ERROR_SUCCESS, take n (drop off bs) @ drop (min n (length bs - off)) buf, w')
     \<and> fd_ok w' (raw_fd d) bs \<and> io_ok w'"
proof -
  let ?ss = "sect_size (raw_vdisk d)"
  have ss: "0 < unat ?ss" using assms(5) by (simp add: unat_gt_0)
  have st: "start < 2 ^ 63" "count < 2 ^ 32"
    using assms(3,4) le_mult_nat [OF ss, of start] le_mult_nat [OF ss, of count] by linarith+
  have u1: "unat (of_nat start * ucast ?ss :: 64 word) = off"
    using assms(3) st unfolding off by (subst unat_mult_less) (simp_all add: unat_of_nat_less unat_ucast_up)
  have u2: "unat (of_nat count * ?ss) = n"
    using assms(4) st unfolding n by (subst unat_mult_less) (simp_all add: unat_of_nat_less)
  have "0 \<le> sint (of_nat start * ucast ?ss :: 64 word)" using u1 assms(3) off by (simp add: sint_nonneg_64)
  from io_read_at [OF assms(1,2) this, of "of_nat count * ?ss"] obtain w' where
    w': "io_read (lseek_set w (raw_fd d) (of_nat start * ucast ?ss)) (raw_fd d) (of_nat count * ?ss)
      = Inr (int (min n (length bs - off)), take n (drop off bs), w')" "fd_ok w' (raw_fd d) bs" "io_ok w'"
    unfolding u1 u2 by blast
  have "blit buf (take n (drop off bs)) = Inr (take n (drop off bs) @ drop (min n (length bs - off)) buf)"
    using assms(6) n by (simp add: blit_def min.commute)
  then show ?thesis using w' by (simp add: vdisk_raw_read_def)
qed

interpretation raw_device: readable_device raw_rd raw_ok raw_guest raw_ss
proof
  fix s :: "vdisk_raw \<times> world" and start count
  assume ok: "raw_ok s" and le: "(start + count) * raw_ss s \<le> length (raw_guest s)"
    and lt: "count * raw_ss s < 2 ^ 32"
  obtain d w where s: "s = (d, w)" by fastforce
  let ?ss = "unat (sect_size (raw_vdisk d))" and ?g = "raw_guest (d, w)"
  have ss: "raw_ss s = ?ss" by (simp add: s raw_ss_def)
  have le': "start * ?ss + count * ?ss \<le> length ?g" using le by (simp add: s raw_ss_def add_mult_distrib)
  have "start * ?ss < 2 ^ 63" using ok le' by (auto simp: raw_ok_def s)
  then obtain w' where "vdisk_raw_read w d (replicate (count * ?ss) 0) (of_nat start) (of_nat count)
      = Inr (KOS_ERROR_SUCCESS, take (count * ?ss) (drop (start * ?ss) ?g)
          @ drop (min (count * ?ss) (length ?g - start * ?ss)) (replicate (count * ?ss) 0), w')"
      "fd_ok w' (raw_fd d) ?g" "io_ok w'"
    using vdisk_raw_read_general [of w d ?g start count "replicate (count * ?ss) 0", OF _ _ _ _ _ _ refl refl]
      ok lt by (auto simp: raw_ok_def raw_ss_def s)
  then show "\<exists>s'. raw_rd s start count = Inr (take (count * raw_ss s) (drop (start * raw_ss s) (raw_guest s)), s')
      \<and> raw_ok s' \<and> raw_guest s' = raw_guest s \<and> raw_ss s' = raw_ss s"
    using ok le' fd_ok_guest [of w' d ?g]
    by (intro exI [of _ "(d, w')"]) (simp add: raw_rd_def raw_ok_def raw_ss_def s)
qed


section \<open>Opening an image\<close>

lemma sect_size_pos: "sect_size_of_name fname \<noteq> 0" "unat (sect_size_of_name fname) \<in> {512, 2048, 4096}"
  by (simp_all add: sect_size_of_name_def)

definition raw_disk :: "string \<Rightarrow> int \<Rightarrow> uint64 \<Rightarrow> vdisk_raw" where
  "raw_disk fname fd fsize = \<lparr>raw_vdisk =
     \<lparr>diskfunc = \<lparr>df_close = Some Vdisk_raw_close, df_closemedia = None, df_querymedia = None,
        df_read = Some Vdisk_raw_read, df_write = Some Vdisk_raw_write, df_flush = None,
        df_adjust_cache_size = None\<rparr>,
      sect_size = sect_size_of_name fname, sect_cnt = fsize div ucast (sect_size_of_name fname),
      cache_size = 0, adjust_cache_size = 0\<rparr>, raw_fd = fd\<rparr>"

lemma raw_disk_fields [simp]:
  "raw_fd (raw_disk fname fd n) = fd" "sect_size (raw_vdisk (raw_disk fname fd n)) = sect_size_of_name fname"
  by (simp_all add: raw_disk_def)

lemma vdisk_init_raw_opens:
  assumes "h_files w fname = Some bs" "fname \<notin> set (h_badfiles w)" "alloc_fd w = Some fd" "fd \<noteq> 0"
    and "malloc_ok m sizeof_vdisk_raw" "io_ok w"
  shows "\<exists>w'. vdisk_init_raw m w fname = Inr (Some (raw_disk fname (int fd) (of_nat (length bs))), w')
     \<and> fd_ok w' (int fd) bs \<and> io_ok w' \<and> (\<exists>f. h_fds w' (int fd) = Some f \<and> \<not> fwritable f)"
  using assms
  by (simp add: vdisk_init_raw_def host_open_rdonly_def lseek_end_def lseek_set_def fd_ok_def io_ok_def
      raw_disk_def Let_def)

section \<open>Examples\<close>

text \<open>A process with its three standard descriptors and one image of 600 bytes.\<close>

definition std_fd :: hostfile where
  "std_fd = \<lparr>fcontent = [], fpos = 0, ferr = False, fwritable = True\<rparr>"

definition ex_world :: world where
  "ex_world = \<lparr>h_files = [''a.raw'' \<mapsto> replicate 600 7], h_badfiles = [],
     h_fds = [0 \<mapsto> std_fd, 1 \<mapsto> std_fd, 2 \<mapsto> std_fd], w_running = UMKA_RUNNING_YES,
     w_cmd = iot_cmd_init, w_resumes = (\<lambda>v. v \<noteq> 0)\<rparr>"

definition ex_mem :: mem where
  "ex_mem = \<lparr>junk = (\<lambda>n. replicate n 0), malloc_ok = (\<lambda>_. True)\<rparr>"

lemma find_fd3: "\<not> P 0 \<Longrightarrow> \<not> P 1 \<Longrightarrow> \<not> P 2 \<Longrightarrow> P 3 \<Longrightarrow> find P [0..<OPEN_MAX] = Some 3"
proof -
  assume P: "\<not> P 0" "\<not> P 1" "\<not> P 2" "P 3"
  have "[0..<OPEN_MAX] = [0..<4] @ [4..<OPEN_MAX]" using upt_add_eq_append [of 0 4 1020] by simp
  also have "[0..<4] = [0, 1, 2, 3::nat]" by (simp add: upt_rec)
  finally show ?thesis using P by simp
qed

lemma ex_world_fd: "alloc_fd ex_world = Some 3"
  unfolding alloc_fd_def by (rule find_fd3) (simp_all add: ex_world_def)

lemma ex_world_ok: "io_ok ex_world"
  by (simp add: ex_world_def io_ok_def resumes_ok_def iot_cmd_init_def)

lemma ex_sect: "sect_size_of_name ''a.raw'' = 512" "sect_size_of_name ''b.raw'' = 512"
  by (simp_all add: sect_size_of_name_def)

lemma ex_files: "h_files ex_world ''a.raw'' = Some (replicate 600 7)" "''a.raw'' \<notin> set (h_badfiles ex_world)"
  by (simp_all add: ex_world_def)

section \<open>Properties\<close>


lemma ex_malloc: "malloc_ok ex_mem n" by (simp add: ex_mem_def)


text \<open>
  (C19) Nothing is ever written to a raw image. The file is opened for reading only and the
  asynchronous write is a stub, so a write leaves the contents of every open file as they were,
  and the driver reports success all the same.
\<close>

theorem vdisk_raw_write_lost:
  assumes "h_files w fname = Some bs" "fname \<notin> set (h_badfiles w)" "alloc_fd w = Some fd" "fd \<noteq> 0"
    and "malloc_ok m sizeof_vdisk_raw" "io_ok w"
    and "unat (count * sect_size_of_name fname) \<le> length buf"
  shows "\<exists>d w1 w2. vdisk_init_raw m w fname = Inr (Some d, w1)
    \<and> vdisk_raw_write w1 d buf start count = Inr (KOS_ERROR_SUCCESS, w2)
    \<and> (\<forall>n. map_option fcontent (h_fds w2 n) = map_option fcontent (h_fds w1 n))"
proof -
  let ?d = "raw_disk fname (int fd) (of_nat (length bs))"
  from vdisk_init_raw_opens [OF assms(1-6)] obtain w1 f where
    w1: "vdisk_init_raw m w fname = Inr (Some ?d, w1)" "h_fds w1 (int fd) = Some f" "\<not> fwritable f" by blast
  define w2 where "w2 = lseek_set w1 (int fd) (start * ucast (sect_size_of_name fname))"
  have "\<exists>f'. h_fds w2 (int fd) = Some f' \<and> \<not> fwritable f'"
    using w1(2,3) by (simp add: w2_def lseek_set_def)
  then have "io_write w2 (int fd) data = (- 1, w2)" for data
    by (auto simp: io_write_def host_write_def io_async_write_def)
  then have "vdisk_raw_write w1 ?d buf start count = Inr (KOS_ERROR_SUCCESS, w2)"
    using assms(7) by (simp add: vdisk_raw_write_def slice_def w2_def)
  moreover have "\<forall>n. map_option fcontent (h_fds w2 n) = map_option fcontent (h_fds w1 n)"
    using w1(2) by (simp add: w2_def lseek_set_def)
  ultimately show ?thesis using w1(1) by blast
qed

theorem vdisk_raw_write_lost_witness:
  "\<exists>d w1 w2. vdisk_init_raw ex_mem ex_world ''a.raw'' = Inr (Some d, w1)
    \<and> vdisk_raw_write w1 d (replicate 512 1) 0 1 = Inr (KOS_ERROR_SUCCESS, w2)
    \<and> (\<forall>n. map_option fcontent (h_fds w2 n) = map_option fcontent (h_fds w1 n))"
  by (rule vdisk_raw_write_lost [OF ex_files ex_world_fd _ ex_malloc ex_world_ok]) (simp_all add: ex_sect)

text \<open>
  A missing file is not noticed: \<^verbatim>\<open>open\<close> returns -1, the driver compares with 0, and the disk
  it returns claims the largest possible number of sectors and reads nothing, with success.
\<close>

theorem vdisk_raw_missing_file:
  assumes "h_files w fname = None" "h_fds w (- 1) = None" "malloc_ok m sizeof_vdisk_raw" "io_ok w"
  shows "\<exists>d. vdisk_init_raw m w fname = Inr (Some d, w) \<and> raw_fd d = - 1
    \<and> sect_cnt (raw_vdisk d) = (- 1) div ucast (sect_size_of_name fname)
    \<and> (\<exists>w'. vdisk_raw_read w d buf start count = Inr (KOS_ERROR_SUCCESS, buf, w'))"
proof -
  have "vdisk_init_raw m w fname = Inr (Some (raw_disk fname (- 1) (- 1)), w)"
    using assms by (simp add: vdisk_init_raw_def host_open_rdonly_def lseek_end_def lseek_set_def raw_disk_def
        Let_def)
  moreover have "sect_cnt (raw_vdisk (raw_disk fname (- 1) (- 1))) = (- 1) div ucast (sect_size_of_name fname)"
    by (simp add: raw_disk_def)
  moreover have "\<exists>w'. vdisk_raw_read w (raw_disk fname (- 1) (- 1)) buf start count
      = Inr (KOS_ERROR_SUCCESS, buf, w')"
  proof -
    let ?n = "count * sect_size_of_name fname"
    have seek: "lseek_set w (- 1) off = w" for off using assms(2) by (simp add: lseek_set_def)
    have "host_read w (- 1) ?n = (- 1, [], w)" using assms(2) by (simp add: host_read_def)
    then obtain w' where "io_read w (- 1) ?n = Inr (- 1, [], w')" using io_read_host [OF assms(4)] by blast
    then show ?thesis by (simp add: vdisk_raw_read_def blit_def seek)
  qed
  ultimately show ?thesis by (intro exI [of _ "raw_disk fname (- 1) (- 1)"]) simp
qed


theorem vdisk_raw_missing_file_witness:
  "\<exists>d. vdisk_init_raw ex_mem ex_world ''b.raw'' = Inr (Some d, ex_world)
    \<and> sect_cnt (raw_vdisk d) = 36028797018963967"
  using vdisk_raw_missing_file [of ex_world "''b.raw''" ex_mem "[]" 0 0] ex_world_ok
  by (auto simp: ex_sect ex_mem_def ex_world_def)

end
