(* ===== verification/Qcow2.thy ===== *)
theory Qcow2
  imports RawDisk
begin

unbundle bit_operations_syntax

text \<open>
  The qcow2 image driver \<^verbatim>\<open>vdisk/qcow2.c\<close>: header checks, the two-level cluster tables, the
  one-cluster cache and the sector loop. The record is \<^verbatim>\<open>struct vdisk_qcow2\<close> with its heap blocks
  as byte lists. The decompressor \<^verbatim>\<open>em_inflate\<close> is an argument: from compressed data and an output
  buffer of a given maximal size it makes the new contents of the output buffer.
\<close>

section \<open>State\<close>

record vdisk_qcow2 =
  q_vdisk :: vdisk
  q_fd :: int
  cluster_bits :: size_t
  cluster_size :: size_t
  cluster :: "byte list"
  cmp_cluster :: "byte list"
  l1_table_offset :: uint64
  l2_entry_cmp_x :: uint64
  l2_entry_cmp_offset_mask :: uint64
  l2_entry_cmp_sect_cnt_mask :: uint64
  header_length :: size_t
  refcount_order :: size_t
  refcount_table_clusters :: size_t
  refcount_table_offset :: off_t
  l1_size :: size_t
  sector_idx_mask :: uint64
  l1 :: "uint64 list"
  prev_cluster_index :: uint64

type_synonym inflate = "byte list \<Rightarrow> byte list \<Rightarrow> nat \<Rightarrow> byte list"

abbreviation (input) L1_ENTRY_OFFSET_MASK :: uint64 where "L1_ENTRY_OFFSET_MASK \<equiv> 0x00ffffffffffff00"
abbreviation (input) L2_ENTRY_STD_ZEROED :: uint64 where "L2_ENTRY_STD_ZEROED \<equiv> 1"
abbreviation (input) L2_ENTRY_STD_OFFSET :: uint64 where "L2_ENTRY_STD_OFFSET \<equiv> 0x00ffffffffffff00"
abbreviation (input) L2_ENTRY_FORMAT :: uint64 where "L2_ENTRY_FORMAT \<equiv> 0x4000000000000000"

section \<open>Big-endian words\<close>

definition be32 :: "byte list \<Rightarrow> uint32" where
  "be32 x = ucast ((ucast (x ! 3) + shl (ucast (x ! 2)) 8 + shl (ucast (x ! 1)) 16
                    + shl (ucast (x ! 0)) 24) :: uint64)"

definition be64 :: "byte list \<Rightarrow> uint64" where
  "be64 x = ucast (x ! 7) + shl (ucast (x ! 6)) 8 + shl (ucast (x ! 5)) 16 + shl (ucast (x ! 4)) 24
          + shl (ucast (x ! 3)) 32 + shl (ucast (x ! 2)) 40 + shl (ucast (x ! 1)) 48
          + shl (ucast (x ! 0)) 56"

text \<open>The loop over the first-level table.\<close>

function be64s :: "byte list \<Rightarrow> uint64 list" where
  "be64s xs = (if length xs < 8 then [] else be64 xs # be64s (drop 8 xs))"
  by pat_completeness auto
termination by (relation "measure length") auto

declare be64s.simps [simp del]

section \<open>Reading\<close>

definition qcow2_copy_sector :: "vdisk_qcow2 \<Rightarrow> uint64 \<Rightarrow> byte list \<Rightarrow> byte list res" where
  "qcow2_copy_sector d sector buf =
     rbind (slice (cluster d) (unat ((sector AND sector_idx_mask d) * ucast (sect_size (q_vdisk d))))
                  (unat (sect_size (q_vdisk d))))
       (blit buf)"

definition qcow2_zero_sector :: "vdisk_qcow2 \<Rightarrow> byte list \<Rightarrow> byte list res" where
  "qcow2_zero_sector d buf = blit buf (replicate (unat (sect_size (q_vdisk d))) 0)"

text \<open>
  The cluster cache is filled for a standard cluster by reading it, for a compressed one by
  reading the compressed data and calling the decompressor. The arguments of that call are in the
  order of the source: the cached cluster as compressed data, the compressed data as output. The
  result is the new state, the world, and whether the sector is to be copied from the cache.
\<close>

definition qcow2_cmp_size :: "vdisk_qcow2 \<Rightarrow> uint64 \<Rightarrow> size_t" where
  "qcow2_cmp_size d l2_entry =
     (let cmp_offset = l2_entry_cmp_offset_mask d AND l2_entry;
          additional_sectors = ucast (shr (l2_entry AND l2_entry_cmp_sect_cnt_mask d)
                                          (unat (l2_entry_cmp_x d))) :: size_t
      in ucast (512 - (cmp_offset AND 511) + ucast (additional_sectors * 512) :: uint64))"

definition qcow2_load_cluster :: "inflate \<Rightarrow> world \<Rightarrow> vdisk_qcow2 \<Rightarrow> uint64
    \<Rightarrow> (bool \<times> vdisk_qcow2 \<times> world) res" where
  "qcow2_load_cluster em_inflate w d l2_entry =
     (if l2_entry AND L2_ENTRY_FORMAT = 0 then
        (let w1 = lseek_set w (q_fd d) (l2_entry AND L2_ENTRY_STD_OFFSET) in
         rbind (io_read w1 (q_fd d) (cluster_size d)) (\<lambda>(r, bytes, w2).
         if r = 0 then Inr (False, d, w2)
         else rbind (blit (cluster d) bytes) (\<lambda>c. Inr (True, d\<lparr>cluster := c\<rparr>, w2))))
      else
        (let cmp_offset = l2_entry_cmp_offset_mask d AND l2_entry;
             w1 = lseek_set w (q_fd d) cmp_offset in
         rbind (io_read w1 (q_fd d) (cluster_size d)) (\<lambda>(r, bytes, w2).
         if r = 0 then Inr (False, d, w2)
         else rbind (blit (cmp_cluster d) bytes) (\<lambda>c.
           Inr (True, d\<lparr>cmp_cluster := em_inflate (take (unat (cluster_size d)) (cluster d)) c
                                         (unat (qcow2_cmp_size d l2_entry))\<rparr>, w2)))))"

definition qcow2_read_guest_sector :: "inflate \<Rightarrow> mem \<Rightarrow> world \<Rightarrow> vdisk_qcow2 \<Rightarrow> uint64 \<Rightarrow> byte list
    \<Rightarrow> (vdisk_qcow2 \<times> world \<times> byte list) res" where
  "qcow2_read_guest_sector em_inflate m w d sector buf =
     (let l2_entries = cluster_size d div 8;
          offset = sector * ucast (sect_size (q_vdisk d));
          cluster_index = offset div ucast (cluster_size d);
          l1_index = cluster_index div ucast l2_entries;
          l2_index = cluster_index mod ucast l2_entries
      in if length (l1 d) \<le> unat l1_index then Inl Out_of_bounds
         else let l1_entry = l1 d ! unat l1_index in
         if cluster_index = prev_cluster_index d then
           rbind (qcow2_copy_sector d sector buf) (\<lambda>buf. Inr (d, w, buf))
         else let d = d\<lparr>prev_cluster_index := cluster_index\<rparr>;
                  l2_table_offset = l1_entry AND L1_ENTRY_OFFSET_MASK in
         if l2_table_offset = 0 then
           rbind (qcow2_zero_sector d buf) (\<lambda>buf. Inr (d, w, buf))
         else let w1 = lseek_set w (q_fd d) (l2_table_offset + l2_index * 8) in
         rbind (io_read w1 (q_fd d) 8) (\<lambda>(r, bytes, w2).
         if r = 0 then Inr (d, w2, buf)
         else rbind (blit (junk m 8) bytes) (\<lambda>raw.
         let l2_entry = be64 raw in
         if l2_entry AND L2_ENTRY_FORMAT = 0 \<and> l2_entry AND L2_ENTRY_STD_ZEROED \<noteq> 0 then
           rbind (qcow2_zero_sector d buf) (\<lambda>buf. Inr (d, w2, buf))
         else rbind (qcow2_load_cluster em_inflate w2 d l2_entry) (\<lambda>(ok, d, w3).
           if ok then rbind (qcow2_copy_sector d sector buf) (\<lambda>buf. Inr (d, w3, buf))
           else Inr (d, w3, buf)))))"

definition vdisk_qcow2_close :: "world \<Rightarrow> vdisk_qcow2 \<Rightarrow> world" where
  "vdisk_qcow2_close w d = (if q_fd d \<noteq> 0 then host_close w (q_fd d) else w)"

text \<open>The sector loop: the buffer pointer advances by one sector per round.\<close>

fun qcow2_read_loop :: "inflate \<Rightarrow> mem \<Rightarrow> world \<Rightarrow> vdisk_qcow2 \<Rightarrow> byte list \<Rightarrow> uint64 \<Rightarrow> nat
    \<Rightarrow> (vdisk_qcow2 \<times> world \<times> byte list) res" where
  "qcow2_read_loop em_inflate m w d buffer sector 0 = Inr (d, w, buffer)"
| "qcow2_read_loop em_inflate m w d buffer sector (Suc n) =
     rbind (qcow2_read_guest_sector em_inflate m w d sector buffer) (\<lambda>(d1, w1, b1).
     rbind (qcow2_read_loop em_inflate m w1 d1 (drop (unat (sect_size (q_vdisk d))) b1) (sector + 1) n)
       (\<lambda>(d2, w2, b2). Inr (d2, w2, take (unat (sect_size (q_vdisk d))) b1 @ b2)))"

definition vdisk_qcow2_read :: "inflate \<Rightarrow> mem \<Rightarrow> world \<Rightarrow> vdisk_qcow2 \<Rightarrow> byte list \<Rightarrow> off_t \<Rightarrow> size_t
    \<Rightarrow> (kos_error \<times> byte list \<times> vdisk_qcow2 \<times> world) res" where
  "vdisk_qcow2_read em_inflate m w d buffer startsector numsectors =
     rbind (qcow2_read_loop em_inflate m w d buffer startsector (unat numsectors))
       (\<lambda>(d', w', buffer'). Inr (KOS_ERROR_SUCCESS, buffer', d', w'))"

definition vdisk_qcow2_write :: "vdisk_qcow2 \<Rightarrow> byte list \<Rightarrow> off_t \<Rightarrow> size_t \<Rightarrow> kos_error" where
  "vdisk_qcow2_write d buffer startsector numsectors = KOS_ERROR_UNSUPPORTED_FS"

section \<open>Opening\<close>

text \<open>\<^verbatim>\<open>struct qcow2_header\<close> is 104 bytes long; the offsets of the fields used are 0 (magic), 4, 20, 24,
  32, 36, 40, 48, 56, 72, 96 and 100.\<close>

abbreviation (input) sizeof_qcow2_header :: nat where "sizeof_qcow2_header \<equiv> 104"
abbreviation (input) sizeof_vdisk_qcow2 :: nat where "sizeof_vdisk_qcow2 \<equiv> 156"

definition QCOW2_MAGIC :: "byte list" where "QCOW2_MAGIC = [0x51, 0x46, 0x49, 0xfb]"

definition hdr32 :: "byte list \<Rightarrow> nat \<Rightarrow> uint32" where "hdr32 h i = be32 (drop i h)"
definition hdr64 :: "byte list \<Rightarrow> nat \<Rightarrow> uint64" where "hdr64 h i = be64 (drop i h)"

text \<open>The structure before the header is read.\<close>

definition qcow2_blank :: "string \<Rightarrow> int \<Rightarrow> vdisk_qcow2" where
  "qcow2_blank fname fd = \<lparr>q_vdisk =
     \<lparr>diskfunc = \<lparr>df_close = Some Vdisk_qcow2_close, df_closemedia = None, df_querymedia = None,
        df_read = Some Vdisk_qcow2_read, df_write = Some Vdisk_qcow2_write, df_flush = None,
        df_adjust_cache_size = None\<rparr>,
      sect_size = sect_size_of_name fname, sect_cnt = 0, cache_size = 0, adjust_cache_size = 0\<rparr>,
     q_fd = fd, cluster_bits = 0, cluster_size = 0, cluster = [], cmp_cluster = [],
     l1_table_offset = 0, l2_entry_cmp_x = 0, l2_entry_cmp_offset_mask = 0,
     l2_entry_cmp_sect_cnt_mask = 0, header_length = 0, refcount_order = 0,
     refcount_table_clusters = 0, refcount_table_offset = 0, l1_size = 0, sector_idx_mask = 0,
     l1 = [], prev_cluster_index = - 1\<rparr>"

text \<open>The fields the header determines; \<^term>\<open>None\<close> where the driver rejects the image.\<close>

definition qcow2_parse_header :: "vdisk_qcow2 \<Rightarrow> byte list \<Rightarrow> vdisk_qcow2 option" where
  "qcow2_parse_header d h =
     (let bits = hdr32 h 20;
          csize = shl 1 (unat bits) :: size_t;
          x = ucast (62 - (bits - 8)) :: uint64;
          omask = shl 1 (unat x) - 1 :: uint64
      in if take 4 h \<noteq> QCOW2_MAGIC then None
         else if hdr32 h 4 \<noteq> 3 then None
         else if bits < 9 \<or> bits > 21 then None
         else if hdr32 h 32 \<noteq> 0 then None
         else if hdr64 h 72 \<noteq> 0 then None
         else if hdr32 h 96 < 4 \<or> hdr32 h 96 > 6 then None
         else Some (d\<lparr>
           q_vdisk := (q_vdisk d)\<lparr>sect_cnt := hdr64 h 24 div ucast (sect_size (q_vdisk d))\<rparr>,
           cluster_bits := bits, cluster_size := csize,
           sector_idx_mask := ucast (csize div sect_size (q_vdisk d)) - 1,
           l2_entry_cmp_x := x, l2_entry_cmp_offset_mask := omask,
           l2_entry_cmp_sect_cnt_mask := (shl 1 62 - 1) XOR omask,
           l1_size := hdr32 h 36, l1_table_offset := hdr64 h 40,
           refcount_table_offset := hdr64 h 48, refcount_table_clusters := hdr32 h 56,
           refcount_order := hdr32 h 96, header_length := hdr32 h 100\<rparr>))"

text \<open>The three heap blocks and the first-level table.\<close>

definition qcow2_load_l1 :: "mem \<Rightarrow> world \<Rightarrow> vdisk_qcow2 \<Rightarrow> (vdisk_qcow2 option \<times> world) res" where
  "qcow2_load_l1 m w d =
     (let csize = unat (cluster_size d);
          csize2 = unat (cluster_size d * 2);
          l1_bytes = l1_size d * 8
      in if \<not> malloc_ok m csize \<or> \<not> malloc_ok m csize2 \<or> \<not> malloc_ok m (unat l1_bytes)
         then Inr (None, vdisk_qcow2_close w d)
         else let d = d\<lparr>cluster := junk m csize, cmp_cluster := junk m csize2\<rparr>;
                  w1 = lseek_set w (q_fd d) (l1_table_offset d) in
         rbind (io_read w1 (q_fd d) l1_bytes) (\<lambda>(r, bytes, w2).
         if r = 0 then Inr (None, vdisk_qcow2_close w2 d)
         else rbind (blit (junk m (unat l1_bytes)) bytes) (\<lambda>raw.
           Inr (Some (d\<lparr>l1 := be64s raw\<rparr>), w2))))"

definition vdisk_init_qcow2 :: "mem \<Rightarrow> world \<Rightarrow> string \<Rightarrow> (vdisk_qcow2 option \<times> world) res" where
  "vdisk_init_qcow2 m w fname =
     (if \<not> malloc_ok m sizeof_vdisk_qcow2 then Inr (None, w)
      else let (fd, w1) = host_open_rdonly w fname; d = qcow2_blank fname fd in
      if fd = - 1 then Inr (None, vdisk_qcow2_close w1 d)
      else rbind (io_read w1 fd (of_nat sizeof_qcow2_header)) (\<lambda>(r, bytes, w2).
      if r = 0 then Inr (None, vdisk_qcow2_close w2 d)
      else rbind (blit (junk m sizeof_qcow2_header) bytes) (\<lambda>h.
      case qcow2_parse_header d h of
        None \<Rightarrow> Inr (None, vdisk_qcow2_close w2 d)
      | Some d \<Rightarrow> qcow2_load_l1 m w2 d)))"


section \<open>Well-formed disks\<close>

definition qcow2_wf :: "vdisk_qcow2 \<Rightarrow> bool" where
  "qcow2_wf d \<longleftrightarrow> 9 \<le> unat (cluster_bits d) \<and> unat (cluster_bits d) \<le> 21
     \<and> cluster_size d = shl 1 (unat (cluster_bits d))
     \<and> length (cluster d) = 2 ^ unat (cluster_bits d)
     \<and> length (cmp_cluster d) = 2 * 2 ^ unat (cluster_bits d)
     \<and> sect_size (q_vdisk d) \<in> {512, 2048, 4096}
     \<and> sector_idx_mask d = ucast (cluster_size d div sect_size (q_vdisk d)) - 1"

text \<open>Cluster size, sector size and sectors per cluster as numbers.\<close>

definition cs :: "vdisk_qcow2 \<Rightarrow> nat" where "cs d = unat (cluster_size d)"
definition qss :: "vdisk_qcow2 \<Rightarrow> nat" where "qss d = unat (sect_size (q_vdisk d))"
definition spc :: "vdisk_qcow2 \<Rightarrow> nat" where "spc d = cs d div qss d"

lemma unat_exp: "n < LENGTH('a::len) \<Longrightarrow> unat (2 ^ n :: 'a word) = 2 ^ n"
  using unat_of_nat_less [of "2 ^ n", where ?'a = 'a] by simp

lemma wf_cs:
  assumes "qcow2_wf d"
  shows "cs d = 2 ^ unat (cluster_bits d)" "512 \<le> cs d" "cs d \<le> 2 ^ 21" "cs d < 2 ^ 32" "0 < cs d"
proof -
  let ?b = "unat (cluster_bits d)"
  have b: "9 \<le> ?b" "?b \<le> 21" using assms by (simp_all add: qcow2_wf_def)
  show eq: "cs d = 2 ^ ?b" using assms b by (simp add: cs_def qcow2_wf_def unat_exp)
  have "(2::nat) ^ 9 \<le> 2 ^ ?b" "(2::nat) ^ ?b \<le> 2 ^ 21" using b by (simp_all only: power_increasing)
  then show "512 \<le> cs d" "cs d \<le> 2 ^ 21" "cs d < 2 ^ 32" "0 < cs d" using eq by simp_all
qed

lemma wf_qss: "qcow2_wf d \<Longrightarrow> qss d \<in> {512, 2048, 4096}"
  by (auto simp: qcow2_wf_def qss_def)

lemma wf_qss_pow: "qcow2_wf d \<Longrightarrow> \<exists>k. qss d = 2 ^ k \<and> 9 \<le> k \<and> k \<le> 12"
  using wf_qss [of d]
  by (auto intro: exI [of _ 9] exI [of _ 11] exI [of _ 12])

lemma wf_spc:
  assumes "qcow2_wf d" "qss d \<le> cs d"
  shows "\<exists>n. spc d = 2 ^ n \<and> n \<le> 12" "spc d * qss d = cs d" "0 < spc d"
proof -
  obtain k where k: "qss d = 2 ^ k" "9 \<le> k" using wf_qss_pow [OF assms(1)] by blast
  let ?b = "unat (cluster_bits d)"
  have b: "cs d = 2 ^ ?b" "?b \<le> 21" using wf_cs [OF assms(1)] assms(1) by (simp_all add: qcow2_wf_def)
  have "k \<le> ?b" using assms(2) unfolding k(1) b(1) by (rule power_le_imp_le_exp [rotated]) simp
  then have n: "spc d = 2 ^ (?b - k)" by (simp add: spc_def k b power_diff)
  then show "\<exists>n. spc d = 2 ^ n \<and> n \<le> 12" using b k by (intro exI [of _ "?b - k"]) simp
  show "spc d * qss d = cs d" using \<open>k \<le> ?b\<close> by (simp add: n k b flip: power_add)
  show "0 < spc d" by (simp add: n)
qed

lemma mask_mod: "unat (x AND (2 ^ n - 1) :: 64 word) = unat x mod 2 ^ n"
proof -
  have "x AND (2 ^ n - 1) = take_bit n x" by (simp add: take_bit_eq_mask mask_eq_exp_minus_1)
  then have "unat (x AND (2 ^ n - 1)) = take_bit n (unat x)" by (simp only: unsigned_take_bit_eq)
  then show ?thesis by (simp only: take_bit_eq_mod)
qed

lemma ucast_of_unat: "ucast (x :: 'a::len word) = (of_nat (unat x) :: 'b::len word)"
  by simp

lemma wf_mask:
  assumes "qcow2_wf d" "qss d \<le> cs d"
  shows "unat (sector AND sector_idx_mask d) = unat sector mod spc d"
proof -
  obtain n where n: "spc d = 2 ^ n" "n \<le> 12" using wf_spc(1) [OF assms] by blast
  have "unat (cluster_size d div sect_size (q_vdisk d)) = 2 ^ n"
    using n by (simp add: spc_def cs_def qss_def unat_div)
  then have "ucast (cluster_size d div sect_size (q_vdisk d)) = (of_nat (2 ^ n) :: uint64)"
    by (simp only: ucast_of_unat)
  then have "sector_idx_mask d = 2 ^ n - 1" using assms(1) by (simp add: qcow2_wf_def)
  then show ?thesis using mask_mod [of sector n] n by simp
qed


lemma sector_in_cluster:
  assumes "qcow2_wf d" "qss d \<le> cs d"
  shows "unat sector mod spc d * qss d + qss d \<le> cs d"
proof -
  have "unat sector mod spc d + 1 \<le> spc d" using wf_spc(3) [OF assms] by (simp add: Suc_le_eq)
  then have "(unat sector mod spc d + 1) * qss d \<le> spc d * qss d" by (rule mult_le_mono1)
  then show ?thesis using wf_spc(2) [OF assms] by simp
qed

lemma qcow2_copy_sector_wf:
  assumes "qcow2_wf d" "qss d \<le> cs d" "qss d \<le> length buf"
  shows "qcow2_copy_sector d sector buf
    = Inr (take (qss d) (drop (unat sector mod spc d * qss d) (cluster d)) @ drop (qss d) buf)"
proof -
  have le: "unat sector mod spc d * qss d + qss d \<le> cs d" by (rule sector_in_cluster [OF assms(1,2)])
  have len: "length (cluster d) = cs d" using assms(1) wf_cs(1) [OF assms(1)] by (simp add: qcow2_wf_def)
  have u: "unat ((sector AND sector_idx_mask d) * ucast (sect_size (q_vdisk d))) = unat sector mod spc d * qss d"
    using le wf_cs(3) [OF assms(1)] wf_mask [OF assms(1,2)]
    by (subst unat_mult_less) (simp_all add: unat_ucast_up qss_def)
  show ?thesis using le len assms(3)
    by (simp add: qcow2_copy_sector_def u slice_def blit_def qss_def [symmetric])
qed

lemma qcow2_zero_sector_wf:
  "qss d \<le> length buf \<Longrightarrow> qcow2_zero_sector d buf = Inr (replicate (qss d) 0 @ drop (qss d) buf)"
  by (simp add: qcow2_zero_sector_def blit_def qss_def)

subsection \<open>Table indices\<close>

definition cluster_index :: "vdisk_qcow2 \<Rightarrow> uint64 \<Rightarrow> nat" where
  "cluster_index d sector = unat sector * qss d div cs d"

lemma cluster_index_spc:
  assumes "qcow2_wf d" "qss d \<le> cs d"
  shows "cluster_index d sector = unat sector div spc d"
proof -
  have "0 < qss d" using wf_qss [OF assms(1)] by auto
  then show ?thesis using wf_spc(2) [OF assms] unfolding cluster_index_def
    by (metis div_mult_mult2 less_numeral_extra(3))
qed

lemma unat_cluster_index:
  assumes "unat sector * qss d < 2 ^ 64"
  shows "unat (sector * ucast (sect_size (q_vdisk d)) div ucast (cluster_size d)) = cluster_index d sector"
proof -
  have "unat (sector * ucast (sect_size (q_vdisk d))) = unat sector * qss d"
    using assms by (subst unat_mult_less) (simp_all add: unat_ucast_up qss_def)
  then show ?thesis by (simp add: unat_div unat_ucast_up cluster_index_def cs_def)
qed

lemma cluster_index_not_init:
  assumes "qcow2_wf d"
  shows "(sector :: uint64) * ucast (sect_size (q_vdisk d)) div ucast (cluster_size d) \<noteq> - 1"
proof
  let ?o = "sector * ucast (sect_size (q_vdisk d))"
  assume eq: "?o div ucast (cluster_size d) = - 1"
  have "unat (?o div ucast (cluster_size d)) = unat ?o div cs d" by (simp add: unat_div unat_ucast_up cs_def)
  also have "\<dots> \<le> unat ?o div 512" using wf_cs(2) [OF assms] by (intro div_le_mono2) simp_all
  also have "\<dots> < 2 ^ 64 div 2"
  proof -
    have "unat ?o < 2 ^ LENGTH(64)" by (rule unsigned_less)
    then show ?thesis by simp
  qed
  finally show False unfolding eq by (simp add: unsigned_minus_1_eq_mask mask_eq_exp_minus_1)
qed


section \<open>What an image maps a cluster to\<close>

datatype cmap = Unallocated | Zeroed | Standard nat | Compressed

definition l2_entries :: "vdisk_qcow2 \<Rightarrow> nat" where "l2_entries d = cs d div 8"

definition l2_offset :: "vdisk_qcow2 \<Rightarrow> nat \<Rightarrow> nat" where
  "l2_offset d ci = unat (l1 d ! (ci div l2_entries d) AND L1_ENTRY_OFFSET_MASK)"

definition l2_entry :: "byte list \<Rightarrow> vdisk_qcow2 \<Rightarrow> nat \<Rightarrow> uint64" where
  "l2_entry img d ci = be64 (take 8 (drop (l2_offset d ci + ci mod l2_entries d * 8) img))"

definition qcow2_map :: "byte list \<Rightarrow> vdisk_qcow2 \<Rightarrow> nat \<Rightarrow> cmap" where
  "qcow2_map img d ci =
     (if l2_offset d ci = 0 then Unallocated
      else let e = l2_entry img d ci in
        if e AND L2_ENTRY_FORMAT \<noteq> 0 then Compressed
        else if e AND L2_ENTRY_STD_ZEROED \<noteq> 0 then Zeroed
        else Standard (unat (e AND L2_ENTRY_STD_OFFSET)))"

text \<open>The tables cover the cluster and everything they point to is inside the image.\<close>

definition covered :: "byte list \<Rightarrow> vdisk_qcow2 \<Rightarrow> nat \<Rightarrow> bool" where
  "covered img d ci \<longleftrightarrow> ci div l2_entries d < length (l1 d)
     \<and> (l2_offset d ci \<noteq> 0 \<longrightarrow> l2_offset d ci + ci mod l2_entries d * 8 + 8 \<le> length img)
     \<and> (\<forall>off. qcow2_map img d ci = Standard off \<longrightarrow> off + cs d \<le> length img)"

text \<open>The guest-visible bytes of a cluster that is not compressed.\<close>

definition cluster_data :: "byte list \<Rightarrow> vdisk_qcow2 \<Rightarrow> nat \<Rightarrow> byte list" where
  "cluster_data img d ci = (case qcow2_map img d ci of
       Standard off \<Rightarrow> take (cs d) (drop off img) | _ \<Rightarrow> replicate (cs d) 0)"

definition sector_data :: "byte list \<Rightarrow> vdisk_qcow2 \<Rightarrow> uint64 \<Rightarrow> byte list" where
  "sector_data img d sector =
     take (qss d) (drop (unat sector mod spc d * qss d) (cluster_data img d (cluster_index d sector)))"

lemma l2_entries_unat: "unat (cluster_size d div 8) = l2_entries d"
  by (simp add: l2_entries_def cs_def unat_div)

lemma unat_and_le: "unat (x AND y :: 'a::len word) \<le> unat y"
  by (metis and.commute word_and_le1 word_le_nat_alt)

lemma l2_table_position:
  assumes "qcow2_wf d" "ci < 2 ^ 64"
    and e: "e = (l1 d ! (ci div l2_entries d)) AND L1_ENTRY_OFFSET_MASK"
  shows "unat (e + of_nat (ci mod l2_entries d) * 8) = l2_offset d ci + ci mod l2_entries d * 8"
    "l2_offset d ci + ci mod l2_entries d * 8 < 2 ^ 63"
proof -
  have e': "unat e = l2_offset d ci" by (simp add: e l2_offset_def)
  have "unat e \<le> unat (L1_ENTRY_OFFSET_MASK :: uint64)" unfolding e by (rule unat_and_le)
  then have le: "unat e < 2 ^ 56" by simp
  have "0 < l2_entries d" using wf_cs(2) [OF assms(1)] by (simp add: l2_entries_def)
  then have "ci mod l2_entries d < l2_entries d" by simp
  moreover have "l2_entries d \<le> 2 ^ 18" using wf_cs(3) [OF assms(1)] by (simp add: l2_entries_def)
  ultimately have lt: "ci mod l2_entries d < 2 ^ 18" by linarith
  have "unat (of_nat (ci mod l2_entries d) * 8 :: uint64) = ci mod l2_entries d * 8"
    using lt by (subst unat_mult_less) (simp_all add: unat_of_nat_less)
  then show "unat (e + of_nat (ci mod l2_entries d) * 8) = l2_offset d ci + ci mod l2_entries d * 8"
    using lt le e' by (subst unat_add_less) simp_all
  show "l2_offset d ci + ci mod l2_entries d * 8 < 2 ^ 63" using lt le e' by simp
qed


section \<open>One sector\<close>

lemma word_eq_of_unat: "unat w = n \<Longrightarrow> w = of_nat n" by auto

lemma sector_indices:
  assumes "qcow2_wf d" "unat sector * qss d < 2 ^ 64"
    and ci: "ci = sector * ucast (sect_size (q_vdisk d)) div ucast (cluster_size d)"
  shows "ci = of_nat (cluster_index d sector)"
    "unat (ci div ucast (cluster_size d div 8)) = cluster_index d sector div l2_entries d"
    "ci mod ucast (cluster_size d div 8) = of_nat (cluster_index d sector mod l2_entries d)"
    "cluster_index d sector < 2 ^ 64"
proof -
  have u: "unat ci = cluster_index d sector" using unat_cluster_index [OF assms(2)] ci by simp
  then show "ci = of_nat (cluster_index d sector)" by (rule word_eq_of_unat)
  show "unat (ci div ucast (cluster_size d div 8)) = cluster_index d sector div l2_entries d"
    by (simp add: unat_div u unat_ucast_up l2_entries_def cs_def)
  show "ci mod ucast (cluster_size d div 8) = of_nat (cluster_index d sector mod l2_entries d)"
    by (rule word_eq_of_unat) (simp add: unat_mod unat_div u unat_ucast_up l2_entries_def cs_def)
  have "unat ci < 2 ^ LENGTH(64)" by (rule unsigned_less)
  then show "cluster_index d sector < 2 ^ 64" by (simp add: u)
qed

lemma guest_sector_cached:
  assumes "qcow2_wf d" "qss d \<le> cs d" "qss d \<le> length buf" "unat sector * qss d < 2 ^ 64"
    and "cluster_index d sector div l2_entries d < length (l1 d)"
    and "prev_cluster_index d = of_nat (cluster_index d sector)"
  shows "qcow2_read_guest_sector infl m w d sector buf
    = Inr (d, w, take (qss d) (drop (unat sector mod spc d * qss d) (cluster d)) @ drop (qss d) buf)"
proof -
  note idx = sector_indices [OF assms(1,4) refl]
  show ?thesis
    using assms(5,6) qcow2_copy_sector_wf [OF assms(1-3)]
    by (simp add: qcow2_read_guest_sector_def Let_def idx(2) idx(1) [symmetric])
qed

text \<open>The part of a cache miss up to the second-level entry.\<close>

lemma guest_sector_miss_unallocated:
  assumes "qcow2_wf d" "qss d \<le> length buf" "unat sector * qss d < 2 ^ 64"
    and "cluster_index d sector div l2_entries d < length (l1 d)"
    and "prev_cluster_index d \<noteq> of_nat (cluster_index d sector)"
    and "l2_offset d (cluster_index d sector) = 0"
  shows "qcow2_read_guest_sector infl m w d sector buf
    = Inr (d\<lparr>prev_cluster_index := of_nat (cluster_index d sector)\<rparr>, w, replicate (qss d) 0 @ drop (qss d) buf)"
proof -
  note idx = sector_indices [OF assms(1,3) refl]
  let ?d = "d\<lparr>prev_cluster_index := of_nat (cluster_index d sector)\<rparr>"
  have "qss ?d = qss d" by (simp add: qss_def)
  then have z: "qcow2_zero_sector ?d buf = Inr (replicate (qss d) 0 @ drop (qss d) buf)"
    using qcow2_zero_sector_wf [of ?d buf] assms(2) by simp
  have e: "l1 d ! (cluster_index d sector div l2_entries d) AND L1_ENTRY_OFFSET_MASK = 0"
    using assms(6) by (simp add: l2_offset_def unat_eq_0)
  show ?thesis using assms(4,5) z e
    by (simp add: qcow2_read_guest_sector_def Let_def idx(2)) (simp add: idx(1) [symmetric])
qed


lemma guest_sector_miss_entry:
  assumes "qcow2_wf d" "unat sector * qss d < 2 ^ 64" "io_ok w" "fd_ok w (q_fd d) img" "mem_ok m"
    and ci: "ci = cluster_index d sector" and cov: "covered img d ci"
    and "prev_cluster_index d \<noteq> of_nat ci" "l2_offset d ci \<noteq> 0"
    and d': "d' = d\<lparr>prev_cluster_index := of_nat ci\<rparr>" and e: "e = l2_entry img d ci"
  shows "\<exists>w'. fd_ok w' (q_fd d) img \<and> io_ok w' \<and>
    qcow2_read_guest_sector infl m w d sector buf =
      (if e AND L2_ENTRY_FORMAT = 0 \<and> e AND L2_ENTRY_STD_ZEROED \<noteq> 0 then
         rbind (qcow2_zero_sector d' buf) (\<lambda>buf. Inr (d', w', buf))
       else rbind (qcow2_load_cluster infl w' d' e) (\<lambda>(ok, d, w3).
         if ok then rbind (qcow2_copy_sector d sector buf) (\<lambda>buf. Inr (d, w3, buf)) else Inr (d, w3, buf)))"
proof -
  note idx = sector_indices [OF assms(1,2) refl, folded ci]
  let ?e1 = "l1 d ! (ci div l2_entries d) AND L1_ENTRY_OFFSET_MASK"
  let ?pos = "?e1 + of_nat (ci mod l2_entries d) * 8"
  note pos = l2_table_position [OF assms(1) idx(4) refl]
  have len: "l2_offset d ci + ci mod l2_entries d * 8 + 8 \<le> length img" "ci div l2_entries d < length (l1 d)"
    using cov assms(9) by (auto simp: covered_def)
  have "0 \<le> sint ?pos" using pos by (intro sint_nonneg_64) simp
  from io_read_at [OF assms(3,4) this, of 8] obtain w' where
    rd: "io_read (lseek_set w (q_fd d) ?pos) (q_fd d) 8
      = Inr (8, take 8 (drop (l2_offset d ci + ci mod l2_entries d * 8) img), w')"
    and w': "fd_ok w' (q_fd d) img" "io_ok w'"
    using len(1) by (auto simp: pos(1))
  have b: "blit (junk m 8) (take 8 (drop (l2_offset d ci + ci mod l2_entries d * 8) img))
      = Inr (take 8 (drop (l2_offset d ci + ci mod l2_entries d * 8) img))"
    using len(1) assms(5) by (intro blit_exact) simp
  have e1: "?e1 \<noteq> 0" using assms(9) by (auto simp: l2_offset_def)
  show ?thesis
  proof (intro exI conjI)
    show "qcow2_read_guest_sector infl m w d sector buf =
      (if e AND L2_ENTRY_FORMAT = 0 \<and> e AND L2_ENTRY_STD_ZEROED \<noteq> 0 then
         rbind (qcow2_zero_sector d' buf) (\<lambda>buf. Inr (d', w', buf))
       else rbind (qcow2_load_cluster infl w' d' e) (\<lambda>(ok, d, w3).
         if ok then rbind (qcow2_copy_sector d sector buf) (\<lambda>buf. Inr (d, w3, buf)) else Inr (d, w3, buf)))"
      using len(2) assms(8) e1 rd b
      by (simp add: qcow2_read_guest_sector_def Let_def idx(2,3)) (auto simp: idx(1) e l2_entry_def d')
  qed (fact w')+
qed


lemma load_standard:
  assumes "qcow2_wf d" "io_ok w" "fd_ok w (q_fd d) img" "e AND L2_ENTRY_FORMAT = 0"
    and off: "off = unat (e AND L2_ENTRY_STD_OFFSET)" and le: "off + cs d \<le> length img"
  shows "\<exists>w'. qcow2_load_cluster infl w d e = Inr (True, d\<lparr>cluster := take (cs d) (drop off img)\<rparr>, w')
     \<and> fd_ok w' (q_fd d) img \<and> io_ok w'"
proof -
  let ?o = "e AND L2_ENTRY_STD_OFFSET"
  have "unat ?o \<le> unat (L2_ENTRY_STD_OFFSET :: uint64)" by (rule unat_and_le)
  then have "0 \<le> sint ?o" by (intro sint_nonneg_64) simp
  from io_read_at [OF assms(2,3) this, of "cluster_size d"] obtain w' where
    rd: "io_read (lseek_set w (q_fd d) ?o) (q_fd d) (cluster_size d)
      = Inr (int (cs d), take (cs d) (drop off img), w')" and w': "fd_ok w' (q_fd d) img" "io_ok w'"
    using le by (auto simp: off cs_def)
  have "length (cluster d) = cs d" using assms(1) wf_cs(1) [OF assms(1)] by (simp add: qcow2_wf_def)
  then have b: "blit (cluster d) (take (cs d) (drop off img)) = Inr (take (cs d) (drop off img))"
    using le by (intro blit_exact) simp
  have "cs d \<noteq> 0" using wf_cs(2) [OF assms(1)] by simp
  then have "qcow2_load_cluster infl w d e = Inr (True, d\<lparr>cluster := take (cs d) (drop off img)\<rparr>, w')"
    using assms(4) rd b by (simp add: qcow2_load_cluster_def Let_def)
  then show ?thesis using w' by blast
qed

text \<open>
  The state after a miss on a cluster that is not compressed: the cache is tagged with the new
  cluster whether or not it was filled.
\<close>

definition after_miss :: "byte list \<Rightarrow> vdisk_qcow2 \<Rightarrow> nat \<Rightarrow> vdisk_qcow2" where
  "after_miss img d ci = (case qcow2_map img d ci of
       Standard off \<Rightarrow> d\<lparr>prev_cluster_index := of_nat ci, cluster := cluster_data img d ci\<rparr>
     | _ \<Rightarrow> d\<lparr>prev_cluster_index := of_nat ci\<rparr>)"

lemma geometry_update [simp]:
  "qss (d\<lparr>prev_cluster_index := x\<rparr>) = qss d" "cs (d\<lparr>prev_cluster_index := x\<rparr>) = cs d"
  "spc (d\<lparr>prev_cluster_index := x\<rparr>) = spc d" "qcow2_wf (d\<lparr>prev_cluster_index := x\<rparr>) = qcow2_wf d"
  "qss (d\<lparr>cluster := c\<rparr>) = qss d" "cs (d\<lparr>cluster := c\<rparr>) = cs d" "spc (d\<lparr>cluster := c\<rparr>) = spc d"
  "length c = length (cluster d) \<Longrightarrow> qcow2_wf (d\<lparr>cluster := c\<rparr>) = qcow2_wf d"
  by (simp_all add: qss_def cs_def spc_def qcow2_wf_def)

lemma sector_of_zeros:
  assumes "qcow2_wf d" "qss d \<le> cs d" "qcow2_map img d (cluster_index d sector) \<in> {Unallocated, Zeroed}"
  shows "sector_data img d sector = replicate (qss d) 0"
proof -
  have "min (qss d) (cs d - unat sector mod spc d * qss d) = qss d"
    using sector_in_cluster [OF assms(1,2), of sector]
    by (metis add.commute add_le_imp_le_diff min.absorb1)
  then show ?thesis using assms(3) by (auto simp: sector_data_def cluster_data_def)
qed

lemma load_and_copy:
  assumes wf: "qcow2_wf d" "qss d \<le> cs d" "qss d \<le> length buf"
    and env: "io_ok w" "fd_ok w (q_fd d) img" and fmt: "e AND L2_ENTRY_FORMAT = 0"
    and off: "off = unat (e AND L2_ENTRY_STD_OFFSET)" and le: "off + cs d' \<le> length img"
    and d': "d' = d\<lparr>prev_cluster_index := x\<rparr>"
  shows "\<exists>w'. rbind (qcow2_load_cluster infl w d' e) (\<lambda>(ok, d, w3).
         if ok then rbind (qcow2_copy_sector d sector buf) (\<lambda>buf. Inr (d, w3, buf)) else Inr (d, w3, buf))
      = Inr (d'\<lparr>cluster := take (cs d) (drop off img)\<rparr>, w',
          take (qss d) (drop (unat sector mod spc d * qss d) (take (cs d) (drop off img))) @ drop (qss d) buf)
      \<and> fd_ok w' (q_fd d) img \<and> io_ok w'"
proof -
  have wf': "qcow2_wf d'" "q_fd d' = q_fd d" "cs d' = cs d" "qss d' = qss d" "spc d' = spc d"
    using wf(1) by (simp_all add: d')
  from load_standard [OF wf'(1) env(1) _ fmt off le, of infl] obtain w3 where
    w3: "qcow2_load_cluster infl w d' e = Inr (True, d'\<lparr>cluster := take (cs d) (drop off img)\<rparr>, w3)"
      "fd_ok w3 (q_fd d) img" "io_ok w3" using env(2) wf' by auto
  let ?d = "d'\<lparr>cluster := take (cs d) (drop off img)\<rparr>"
  have "length (cluster d') = cs d" using wf' wf_cs(1) [OF wf'(1)] by (simp add: qcow2_wf_def)
  then have "qcow2_wf ?d" using wf' le by (subst geometry_update(8)) simp_all
  then show ?thesis using qcow2_copy_sector_wf [of ?d buf sector] wf(2,3) w3 wf' by simp
qed

lemma guest_sector_miss:
  assumes wf: "qcow2_wf d" "qss d \<le> cs d" "qss d \<le> length buf" "unat sector * qss d < 2 ^ 64"
    and env: "io_ok w" "fd_ok w (q_fd d) img" "mem_ok m"
    and ci: "ci = cluster_index d sector" and cov: "covered img d ci"
    and miss: "prev_cluster_index d \<noteq> of_nat ci" and std: "qcow2_map img d ci \<noteq> Compressed"
  shows "\<exists>w'. qcow2_read_guest_sector infl m w d sector buf
      = Inr (after_miss img d ci, w', sector_data img d sector @ drop (qss d) buf)
     \<and> fd_ok w' (q_fd d) img \<and> io_ok w'"
proof (cases "l2_offset d ci = 0")
  case True
  then have "qcow2_map img d ci = Unallocated" by (simp add: qcow2_map_def)
  then show ?thesis
    using guest_sector_miss_unallocated [OF wf(1,3,4), of infl m w] True cov miss env sector_of_zeros [OF wf(1,2)]
    by (auto simp: after_miss_def covered_def ci)
next
  case False
  define e where "e = l2_entry img d ci"
  define d' where "d' = d\<lparr>prev_cluster_index := of_nat ci\<rparr>"
  from guest_sector_miss_entry [OF wf(1,4) env ci cov miss False d'_def e_def, of infl buf] obtain w' where
    w': "fd_ok w' (q_fd d) img" "io_ok w'" and rd: "qcow2_read_guest_sector infl m w d sector buf =
      (if e AND L2_ENTRY_FORMAT = 0 \<and> e AND L2_ENTRY_STD_ZEROED \<noteq> 0 then
         rbind (qcow2_zero_sector d' buf) (\<lambda>buf. Inr (d', w', buf))
       else rbind (qcow2_load_cluster infl w' d' e) (\<lambda>(ok, d, w3).
         if ok then rbind (qcow2_copy_sector d sector buf) (\<lambda>buf. Inr (d, w3, buf)) else Inr (d, w3, buf)))"
    by blast
  have fmt: "e AND L2_ENTRY_FORMAT = 0" using std False by (auto simp: qcow2_map_def e_def Let_def split: if_splits)
  show ?thesis
  proof (cases "e AND L2_ENTRY_STD_ZEROED = 0")
    case False
    then have "qcow2_map img d ci = Zeroed" using fmt \<open>l2_offset d ci \<noteq> 0\<close> by (simp add: qcow2_map_def e_def Let_def)
    then show ?thesis using rd fmt False w' sector_of_zeros [OF wf(1,2)] qcow2_zero_sector_wf [of d' buf] wf(3)
      by (auto simp: after_miss_def ci d'_def)
  next
    case True
    define off where "off = unat (e AND L2_ENTRY_STD_OFFSET)"
    have map: "qcow2_map img d ci = Standard off"
      using fmt True \<open>l2_offset d ci \<noteq> 0\<close> by (simp add: qcow2_map_def e_def off_def Let_def)
    then have le: "off + cs d' \<le> length img" using cov by (simp add: covered_def d'_def)
    then show ?thesis
      using load_and_copy [OF wf(1-3) w'(2,1) fmt off_def _ d'_def, of infl sector] rd fmt True ci
      map [unfolded ci]
      by (auto simp: after_miss_def d'_def cluster_data_def sector_data_def)
  qed
qed


section \<open>The cache invariant\<close>

text \<open>The cache is empty or holds the cluster its tag names.\<close>

definition cache_ok :: "byte list \<Rightarrow> vdisk_qcow2 \<Rightarrow> bool" where
  "cache_ok img d \<longleftrightarrow> (\<forall>ci < 2 ^ 64 - 1. prev_cluster_index d = of_nat ci \<longrightarrow> cluster d = cluster_data img d ci)"

text \<open>Two states of one open image, with possibly different caches.\<close>

definition same_image :: "vdisk_qcow2 \<Rightarrow> vdisk_qcow2 \<Rightarrow> bool" where
  "same_image d d' \<longleftrightarrow> (\<exists>p c. d' = d\<lparr>prev_cluster_index := p, cluster := c\<rparr>)"

definition standard :: "byte list \<Rightarrow> vdisk_qcow2 \<Rightarrow> nat \<Rightarrow> bool" where
  "standard img d ci \<longleftrightarrow> covered img d ci \<and> (\<exists>off. qcow2_map img d ci = Standard off)"

lemma tables_update [simp]:
  "l2_entries (d\<lparr>prev_cluster_index := p\<rparr>) = l2_entries d" "l2_entries (d\<lparr>cluster := c\<rparr>) = l2_entries d"
  "l2_offset (d\<lparr>prev_cluster_index := p\<rparr>) ci = l2_offset d ci" "l2_offset (d\<lparr>cluster := c\<rparr>) ci = l2_offset d ci"
  by (simp_all add: l2_entries_def l2_offset_def)

lemma map_update [simp]:
  "qcow2_map img (d\<lparr>prev_cluster_index := p\<rparr>) ci = qcow2_map img d ci"
  "qcow2_map img (d\<lparr>cluster := c\<rparr>) ci = qcow2_map img d ci"
  by (simp_all add: qcow2_map_def l2_entry_def)

lemma image_update [simp]:
  "cluster_data img (d\<lparr>prev_cluster_index := p\<rparr>) ci = cluster_data img d ci"
  "cluster_data img (d\<lparr>cluster := c\<rparr>) ci = cluster_data img d ci"
  "covered img (d\<lparr>prev_cluster_index := p\<rparr>) ci = covered img d ci"
  "covered img (d\<lparr>cluster := c\<rparr>) ci = covered img d ci"
  "standard img (d\<lparr>prev_cluster_index := p\<rparr>) ci = standard img d ci"
  "standard img (d\<lparr>cluster := c\<rparr>) ci = standard img d ci"
  "cluster_index (d\<lparr>prev_cluster_index := p\<rparr>) x = cluster_index d x"
  "cluster_index (d\<lparr>cluster := c\<rparr>) x = cluster_index d x"
  by (simp_all add: cluster_data_def covered_def standard_def cluster_index_def split: cmap.split)

lemma sector_update [simp]:
  "sector_data img (d\<lparr>prev_cluster_index := p\<rparr>) x = sector_data img d x"
  "sector_data img (d\<lparr>cluster := c\<rparr>) x = sector_data img d x"
  by (simp_all add: sector_data_def)

lemma same_image_props:
  assumes "same_image d d'"
  shows "qss d' = qss d" "cs d' = cs d" "spc d' = spc d" "q_fd d' = q_fd d" "cluster_index d' x = cluster_index d x"
    "standard img d' ci = standard img d ci" "cluster_data img d' ci = cluster_data img d ci"
    "sector_data img d' x = sector_data img d x" "l2_entries d' = l2_entries d" "l1 d' = l1 d"
    "q_vdisk d' = q_vdisk d"
  using assms by (auto simp: same_image_def)

lemma same_image_refl [simp]: "same_image d d"
  unfolding same_image_def by (rule exI [of _ "prev_cluster_index d"], rule exI [of _ "cluster d"]) simp

lemma same_image_trans: "same_image a b \<Longrightarrow> same_image b c \<Longrightarrow> same_image a c"
  unfolding same_image_def by (elim exE) (simp, blast)

lemma cluster_data_length:
  "covered img d ci \<Longrightarrow> length (cluster_data img d ci) = cs d"
  by (auto simp: cluster_data_def covered_def split: cmap.splits)

lemma of_nat_eq_64: "(of_nat a :: uint64) = of_nat b \<Longrightarrow> a < 2 ^ 64 \<Longrightarrow> b < 2 ^ 64 \<Longrightarrow> a = b"
  by (drule arg_cong [where f = unat]) (simp add: unat_of_nat_less)

text \<open>With the invariant a sector of a standard cluster is read correctly, hit or miss.\<close>

lemma guest_sector_standard:
  assumes wf: "qcow2_wf d" "qss d \<le> cs d" "qss d \<le> length buf" "unat sector * qss d < 2 ^ 63"
    and env: "io_ok w" "fd_ok w (q_fd d) img" "mem_ok m"
    and std: "standard img d (cluster_index d sector)" and cache: "cache_ok img d"
  shows "\<exists>d' w'. qcow2_read_guest_sector infl m w d sector buf
      = Inr (d', w', sector_data img d sector @ drop (qss d) buf)
     \<and> qcow2_wf d' \<and> cache_ok img d' \<and> same_image d d' \<and> fd_ok w' (q_fd d) img \<and> io_ok w'"
proof (cases "prev_cluster_index d = of_nat (cluster_index d sector)")
  case True
  have "cluster_index d sector \<le> unat sector * qss d" by (simp add: cluster_index_def)
  then have "cluster_index d sector < 2 ^ 64 - 1" using wf(4) by simp
  then have "cluster d = cluster_data img d (cluster_index d sector)" using cache True by (simp add: cache_ok_def)
  then show ?thesis
    using guest_sector_cached [OF wf(1-3) _ _ True, of infl m w] wf(1,4) env std cache
    by (intro exI [of _ d] exI [of _ w]) (simp add: sector_data_def standard_def covered_def)
next
  case False
  define ci where "ci = cluster_index d sector"
  obtain off where off: "qcow2_map img d ci = Standard off" and cov: "covered img d ci"
    using std by (auto simp: standard_def ci_def)
  have "unat sector * qss d < 2 ^ 64" using wf(4) by simp
  from guest_sector_miss [OF wf(1-3) this env ci_def cov _ _, of infl] False off obtain w' where
    w': "qcow2_read_guest_sector infl m w d sector buf
        = Inr (after_miss img d ci, w', sector_data img d sector @ drop (qss d) buf)"
      "fd_ok w' (q_fd d) img" "io_ok w'" by (auto simp: ci_def)
  have ci64: "ci < 2 ^ 63" using wf(4) le_less_trans [OF div_le_dividend] by (simp add: ci_def cluster_index_def)
  have am: "after_miss img d ci = d\<lparr>prev_cluster_index := of_nat ci, cluster := cluster_data img d ci\<rparr>"
    using off by (simp add: after_miss_def)
  have "length (cluster d) = cs d" using wf(1) wf_cs(1) [OF wf(1)] by (simp add: qcow2_wf_def)
  then have "qcow2_wf (after_miss img d ci)"
    using wf(1) cluster_data_length [OF cov] unfolding am by (subst geometry_update(8)) simp_all
  moreover have "cache_ok img (after_miss img d ci)"
  proof -
    have "c = ci" if "c < 2 ^ 64 - 1" "(of_nat ci :: uint64) = of_nat c" for c
      using that ci64 of_nat_eq_64 [of ci c] by simp
    then show ?thesis by (auto simp: cache_ok_def am)
  qed
  moreover have "same_image d (after_miss img d ci)" by (auto simp: same_image_def am)
  ultimately show ?thesis using w' by blast
qed


section \<open>Many sectors\<close>

lemma drop_concat_equal:
  assumes "\<forall>x\<in>set xs. length x = L" "i < length xs" "j + q \<le> L"
  shows "take q (drop (i * L + j) (concat xs)) = take q (drop j (xs ! i))"
  using assms
proof (induction xs arbitrary: i)
  case (Cons x xs)
  show ?case
  proof (cases i)
    case 0
    then show ?thesis using Cons.prems by simp
  next
    case (Suc k)
    have "drop (i * L + j) (concat (x # xs)) = drop (k * L + j) (concat xs)"
      using Cons.prems by (simp add: Suc)
    then show ?thesis using Cons.IH [of k] Cons.prems by (simp add: Suc)
  qed
qed simp

lemma concat_slices:
  "concat (map (\<lambda>k. take q (drop (k * q) g)) [s..<s + n]) = take (n * q) (drop (s * q) g)"
proof (induction n)
  case (Suc n)
  have "Suc n * q = n * q + q" "(s + n) * q = n * q + s * q" by (simp_all add: algebra_simps)
  then have "take (Suc n * q) (drop (s * q) g) = take (n * q) (drop (s * q) g) @ take q (drop ((s + n) * q) g)"
    by (simp only: take_add drop_drop)
  then show ?case using Suc by simp
qed simp

definition qcow2_clusters :: "vdisk_qcow2 \<Rightarrow> nat" where
  "qcow2_clusters d = unat (sect_cnt (q_vdisk d)) * qss d div cs d"

definition qcow2_content :: "byte list \<Rightarrow> vdisk_qcow2 \<Rightarrow> byte list" where
  "qcow2_content img d = concat (map (cluster_data img d) [0..<qcow2_clusters d])"

text \<open>Every whole cluster of the virtual disk is a standard one inside the file.\<close>

definition standard_image :: "byte list \<Rightarrow> vdisk_qcow2 \<Rightarrow> bool" where
  "standard_image img d \<longleftrightarrow> (\<forall>ci < qcow2_clusters d. standard img d ci)
     \<and> unat (sect_cnt (q_vdisk d)) * qss d < 2 ^ 63"

lemma content_length:
  assumes "standard_image img d"
  shows "length (qcow2_content img d) = qcow2_clusters d * cs d" "qcow2_clusters d * cs d < 2 ^ 63"
proof -
  have "map (length \<circ> cluster_data img d) [0..<qcow2_clusters d] = map (\<lambda>_. cs d) [0..<qcow2_clusters d]"
    using assms cluster_data_length by (intro map_cong) (auto simp: standard_image_def standard_def)
  then show "length (qcow2_content img d) = qcow2_clusters d * cs d"
    unfolding qcow2_content_def length_concat map_map by (simp only: sum_list_triv) simp
  have "qcow2_clusters d * cs d \<le> unat (sect_cnt (q_vdisk d)) * qss d"
    by (simp add: qcow2_clusters_def div_times_less_eq_dividend)
  then show "qcow2_clusters d * cs d < 2 ^ 63" using assms by (simp add: standard_image_def)
qed

lemma sector_inside:
  assumes "qcow2_wf d" "qss d \<le> cs d" "standard_image img d" "(k + 1) * qss d \<le> qcow2_clusters d * cs d"
  shows "unat (of_nat k :: uint64) = k" "unat (of_nat k :: uint64) * qss d < 2 ^ 63"
    "cluster_index d (of_nat k) < qcow2_clusters d"
    "sector_data img d (of_nat k) = take (qss d) (drop (k * qss d) (qcow2_content img d))"
proof -
  note spc = wf_spc [OF assms(1,2)]
  have q: "0 < qss d" using wf_qss [OF assms(1)] by auto
  have "k * qss d < 2 ^ 63" using assms(4) content_length(2) [OF assms(3)] by simp
  moreover have "k \<le> k * qss d" using q by simp
  ultimately have k: "k < 2 ^ 63" "k * qss d < 2 ^ 63" by linarith+
  show u: "unat (of_nat k :: uint64) = k" using k by (simp add: unat_of_nat_less)
  then show "unat (of_nat k :: uint64) * qss d < 2 ^ 63" using k by simp
  have "(k + 1) * qss d \<le> qcow2_clusters d * spc d * qss d" using assms(4) spc(2) by (simp add: mult.assoc)
  then have "k + 1 \<le> qcow2_clusters d * spc d" using q by (metis mult_le_cancel2)
  then have "k < qcow2_clusters d * spc d" by simp
  then have i: "k div spc d < qcow2_clusters d" using spc(3) by (simp add: less_mult_imp_div_less)
  have ci: "cluster_index d (of_nat k) = k div spc d" using cluster_index_spc [OF assms(1,2)] u by simp
  then show "cluster_index d (of_nat k) < qcow2_clusters d" using i by simp
  have pos: "k * qss d = k div spc d * cs d + k mod spc d * qss d"
    by (metis add_mult_distrib div_mult_mod_eq mult.assoc spc(2))
  have "take (qss d) (drop (k * qss d) (qcow2_content img d))
      = take (qss d) (drop (k mod spc d * qss d) (map (cluster_data img d) [0..<qcow2_clusters d] ! (k div spc d)))"
    unfolding pos qcow2_content_def
    using i sector_in_cluster [OF assms(1,2), of "of_nat k :: uint64"] assms(3) u
    by (intro drop_concat_equal) (auto simp: standard_image_def standard_def cluster_data_length)
  then show "sector_data img d (of_nat k) = take (qss d) (drop (k * qss d) (qcow2_content img d))"
    using i by (simp add: sector_data_def ci u)
qed

lemma standard_image_same: "same_image d d' \<Longrightarrow> standard_image img d' = standard_image img d
    \<and> qcow2_content img d' = qcow2_content img d \<and> qcow2_clusters d' = qcow2_clusters d"
  by (simp add: standard_image_def qcow2_content_def qcow2_clusters_def same_image_props cong: map_cong)

lemma read_loop_standard:
  assumes "qcow2_wf d" "qss d \<le> cs d" "n * qss d \<le> length buf" "standard_image img d"
    and "(start + n) * qss d \<le> qcow2_clusters d * cs d"
    and "io_ok w" "fd_ok w (q_fd d) img" "mem_ok m" "cache_ok img d"
  shows "\<exists>d' w'. qcow2_read_loop infl m w d buf (of_nat start) n
      = Inr (d', w', take (n * qss d) (drop (start * qss d) (qcow2_content img d)) @ drop (n * qss d) buf)
     \<and> qcow2_wf d' \<and> cache_ok img d' \<and> same_image d d' \<and> fd_ok w' (q_fd d) img \<and> io_ok w'"
  using assms
proof (induction n arbitrary: d buf start w)
  case 0
  then show ?case by auto
next
  case (Suc n)
  have le1: "(start + 1) * qss d \<le> qcow2_clusters d * cs d"
    by (rule order_trans [OF mult_le_mono1 Suc.prems(5)]) simp
  note sec = sector_inside [OF Suc.prems(1,2,4) le1]
  have "standard img d (cluster_index d (of_nat start))" "qss d \<le> length buf"
    using Suc.prems(3,4) sec(3) by (simp_all add: standard_image_def)
  from guest_sector_standard [OF Suc.prems(1,2) this(2) sec(2) Suc.prems(6-8) this(1) Suc.prems(9), of infl]
  obtain d1 w1 where d1: "qcow2_read_guest_sector infl m w d (of_nat start) buf
      = Inr (d1, w1, sector_data img d (of_nat start) @ drop (qss d) buf)"
    "qcow2_wf d1" "cache_ok img d1" "same_image d d1" "fd_ok w1 (q_fd d) img" "io_ok w1" by blast
  note same = same_image_props [OF d1(4)] standard_image_same [OF d1(4), of img]
  have len: "length (sector_data img d (of_nat start)) = qss d"
    using content_length(1) [OF Suc.prems(4)] le1 by (simp add: sec(4))
  have "\<exists>d' w'. qcow2_read_loop infl m w1 d1 (drop (qss d) buf) (of_nat (start + 1)) n
      = Inr (d', w', take (n * qss d1) (drop ((start + 1) * qss d1) (qcow2_content img d1)) @ drop (n * qss d1) (drop (qss d) buf))
     \<and> qcow2_wf d' \<and> cache_ok img d' \<and> same_image d1 d' \<and> fd_ok w' (q_fd d1) img \<and> io_ok w'"
    using Suc.prems d1 same by (intro Suc.IH) simp_all
  then obtain d2 w2 where d2: "qcow2_read_loop infl m w1 d1 (drop (qss d) buf) (of_nat (start + 1)) n
      = Inr (d2, w2, take (n * qss d) (drop ((start + 1) * qss d) (qcow2_content img d)) @ drop (Suc n * qss d) buf)"
     "qcow2_wf d2" "cache_ok img d2" "same_image d1 d2" "fd_ok w2 (q_fd d) img" "io_ok w2"
    using same by (auto simp: add.commute)
  have "Suc n * qss d = qss d + n * qss d" "(start + 1) * qss d = qss d + start * qss d" by simp_all
  then have "take (Suc n * qss d) (drop (start * qss d) (qcow2_content img d))
      = sector_data img d (of_nat start) @ take (n * qss d) (drop ((start + 1) * qss d) (qcow2_content img d))"
    by (simp only: sec(4) take_add drop_drop)
  then have "qcow2_read_loop infl m w d buf (of_nat start) (Suc n)
      = Inr (d2, w2, take (Suc n * qss d) (drop (start * qss d) (qcow2_content img d)) @ drop (Suc n * qss d) buf)"
    using d1(1) d2(1) len by (simp add: qss_def [symmetric] add.commute)
  then show ?case using d2 same_image_trans [OF d1(4) d2(4)] by blast
qed


section \<open>The device contract\<close>

definition q_image :: "vdisk_qcow2 \<times> world \<Rightarrow> byte list" where
  "q_image = (\<lambda>(d, w). case h_fds w (q_fd d) of Some f \<Rightarrow> fcontent f | None \<Rightarrow> [])"

definition q_guest :: "vdisk_qcow2 \<times> world \<Rightarrow> byte list" where
  "q_guest = (\<lambda>(d, w). qcow2_content (q_image (d, w)) d)"

definition q_sector :: "vdisk_qcow2 \<times> world \<Rightarrow> nat" where "q_sector = (\<lambda>(d, w). qss d)"

definition q_ok :: "mem \<Rightarrow> vdisk_qcow2 \<times> world \<Rightarrow> bool" where
  "q_ok m = (\<lambda>(d, w). mem_ok m \<and> io_ok w \<and> fd_ok w (q_fd d) (q_image (d, w)) \<and> qcow2_wf d \<and> qss d \<le> cs d
     \<and> standard_image (q_image (d, w)) d \<and> cache_ok (q_image (d, w)) d)"

definition q_rd :: "inflate \<Rightarrow> mem \<Rightarrow> vdisk_qcow2 \<times> world \<Rightarrow> nat \<Rightarrow> nat
    \<Rightarrow> (byte list \<times> vdisk_qcow2 \<times> world) res" where
  "q_rd infl m = (\<lambda>(d, w) start count.
     rbind (vdisk_qcow2_read infl m w d (replicate (count * qss d) 0) (of_nat start) (of_nat count))
       (\<lambda>(err, buf, d', w'). Inr (buf, d', w')))"

lemma fd_ok_q_image: "fd_ok w (q_fd d) bs \<Longrightarrow> q_image (d, w) = bs"
  by (auto simp: fd_ok_def q_image_def)

lemma vdisk_qcow2_read_standard:
  assumes "q_ok m (d, w)" "(start + count) * qss d \<le> length (q_guest (d, w))" "count * qss d < 2 ^ 32"
    and "count * qss d \<le> length buf"
  shows "\<exists>d' w'. vdisk_qcow2_read infl m w d buf (of_nat start) (of_nat count) = Inr (KOS_ERROR_SUCCESS,
      take (count * qss d) (drop (start * qss d) (q_guest (d, w))) @ drop (count * qss d) buf, d', w')
     \<and> q_ok m (d', w') \<and> q_guest (d', w') = q_guest (d, w) \<and> qss d' = qss d"
proof -
  let ?img = "q_image (d, w)"
  have ok: "qcow2_wf d" "qss d \<le> cs d" "standard_image ?img d" "io_ok w" "fd_ok w (q_fd d) ?img" "mem_ok m"
    "cache_ok ?img d" using assms(1) by (simp_all add: q_ok_def)
  have "0 < qss d" using wf_qss [OF ok(1)] by auto
  then have "count \<le> count * qss d" by simp
  then have "count < 2 ^ 32" using assms(3) by (rule le_less_trans)
  then have u: "unat (of_nat count :: uint32) = count" by (simp add: unat_of_nat_less)
  have "(start + count) * qss d \<le> qcow2_clusters d * cs d"
    using assms(2) content_length(1) [OF ok(3)] by (simp add: q_guest_def)
  from read_loop_standard [OF ok(1,2) assms(4) ok(3) this ok(4-7), of infl] obtain d' w' where
    l: "qcow2_read_loop infl m w d buf (of_nat start) count
      = Inr (d', w', take (count * qss d) (drop (start * qss d) (q_guest (d, w))) @ drop (count * qss d) buf)"
    "qcow2_wf d'" "cache_ok ?img d'" "same_image d d'" "fd_ok w' (q_fd d) ?img" "io_ok w'"
    by (auto simp: q_guest_def)
  note same = same_image_props [OF l(4)] standard_image_same [OF l(4), of ?img]
  have img: "q_image (d', w') = ?img" using l(5) same by (intro fd_ok_q_image) simp
  have "q_ok m (d', w')" using ok l same by (simp add: q_ok_def img)
  moreover have "q_guest (d', w') = q_guest (d, w)" using same by (simp add: q_guest_def img)
  ultimately show ?thesis using l(1) same by (auto simp: vdisk_qcow2_read_def u)
qed

interpretation qcow2_device: readable_device "q_rd infl m" "q_ok m" q_guest q_sector for infl m
proof
  fix s :: "vdisk_qcow2 \<times> world" and start count
  assume ok: "q_ok m s" and le: "(start + count) * q_sector s \<le> length (q_guest s)"
    and lt: "count * q_sector s < 2 ^ 32"
  obtain d w where s: "s = (d, w)" by fastforce
  have ss: "q_sector s = qss d" by (simp add: s q_sector_def)
  from vdisk_qcow2_read_standard [of m d w start count "replicate (count * qss d) 0" infl] obtain d' w' where
    "vdisk_qcow2_read infl m w d (replicate (count * qss d) 0) (of_nat start) (of_nat count)
      = Inr (KOS_ERROR_SUCCESS, take (count * qss d) (drop (start * qss d) (q_guest (d, w))), d', w')"
    "q_ok m (d', w')" "q_guest (d', w') = q_guest (d, w)" "qss d' = qss d"
    using ok le lt by (auto simp: q_sector_def s)
  then show "\<exists>s'. q_rd infl m s start count = Inr (take (count * q_sector s) (drop (start * q_sector s) (q_guest s)), s')
      \<and> q_ok m s' \<and> q_guest s' = q_guest s \<and> q_sector s' = q_sector s"
    by (intro exI [of _ "(d', w')"]) (simp add: q_rd_def q_sector_def s)
qed

end
