(* ===== verification/Qcow2Props.thy ===== *)
theory Qcow2Props
  imports Qcow2
begin

unbundle bit_operations_syntax

text \<open>
  Opening qcow2 images, and the properties of the driver: what an accepted image guarantees, that
  rejected images leave no descriptor behind, that reads of standard clusters are correct, and
  the two situations in which the cache hands out bytes that are not the guest's.
\<close>

section \<open>Opening\<close>

lemma parse_header_Some:
  assumes "qcow2_parse_header d h = Some d'"
  shows "take 4 h = QCOW2_MAGIC" "hdr32 h 4 = 3" "hdr32 h 32 = 0" "hdr64 h 72 = 0"
    "9 \<le> unat (cluster_bits d')" "unat (cluster_bits d') \<le> 21"
    "cluster_size d' = shl 1 (unat (cluster_bits d'))"
    "sector_idx_mask d' = ucast (cluster_size d' div sect_size (q_vdisk d')) - 1"
    "sect_size (q_vdisk d') = sect_size (q_vdisk d)" "prev_cluster_index d' = prev_cluster_index d"
    "q_fd d' = q_fd d" "sect_cnt (q_vdisk d') = hdr64 h 24 div ucast (sect_size (q_vdisk d))"
    "l2_entry_cmp_x d' = ucast (62 - (cluster_bits d' - 8))"
    "l2_entry_cmp_offset_mask d' = shl 1 (unat (l2_entry_cmp_x d')) - 1"
    "l2_entry_cmp_sect_cnt_mask d' = (shl 1 62 - 1) XOR l2_entry_cmp_offset_mask d'"
  using assms
  by (auto simp: qcow2_parse_header_def Let_def word_less_nat_alt split: if_splits)

lemma load_l1_Some:
  assumes "qcow2_load_l1 m w d = Inr (Some d', w')" "mem_ok m"
  shows "\<exists>xs. d' = d\<lparr>cluster := junk m (unat (cluster_size d)), cmp_cluster := junk m (unat (cluster_size d * 2)), l1 := xs\<rparr>"
  using assms(1)
  by (auto simp: qcow2_load_l1_def Let_def rbind_Inr_iff split: if_splits)


lemma wf_after_load:
  assumes hdr: "qcow2_parse_header (qcow2_blank fname fd) h = Some d1"
    and l1: "qcow2_load_l1 m w d1 = Inr (Some d, w')" and m: "mem_ok m"
  shows "qcow2_wf d \<and> prev_cluster_index d = - 1 \<and> q_fd d = fd"
proof -
  note p = parse_header_Some [OF hdr]
  have b: "unat (cluster_size d1) = 2 ^ unat (cluster_bits d1)" using p(6,7) by (simp add: unat_exp)
  have "(2::nat) ^ unat (cluster_bits d1) \<le> 2 ^ 21" using p(6) by (simp only: power_increasing)
  then have b2: "unat (cluster_size d1 * 2) = 2 * 2 ^ unat (cluster_bits d1)"
    using b by (subst unat_mult_less) simp_all
  obtain xs where d: "d = d1\<lparr>cluster := junk m (unat (cluster_size d1)), cmp_cluster := junk m (unat (cluster_size d1 * 2)), l1 := xs\<rparr>"
    using load_l1_Some [OF l1 m] by blast
  have "sect_size (q_vdisk d1) \<in> {512, 2048, 4096}"
    using p(9) by (simp add: qcow2_blank_def sect_size_of_name_def)
  then have "qcow2_wf d" using p m b b2 by (simp add: qcow2_wf_def d)
  then show ?thesis using p by (simp add: d qcow2_blank_def)
qed

lemma cache_ok_init: "prev_cluster_index d = - 1 \<Longrightarrow> cache_ok img d"
proof (unfold cache_ok_def, intro allI impI)
  fix ci :: nat assume p: "prev_cluster_index d = - 1" "ci < 2 ^ 64 - 1" "prev_cluster_index d = of_nat ci"
  have "unat (of_nat ci :: uint64) = ci" using p(2) by (intro unat_of_nat_less) simp
  moreover have "unat (- 1 :: uint64) = 2 ^ 64 - 1" by (simp add: unsigned_minus_1_eq_mask mask_eq_exp_minus_1)
  ultimately show "cluster d = cluster_data img d ci" using p by simp
qed

lemma init_qcow2_Some:
  assumes "vdisk_init_qcow2 m w fname = Inr (Some d, w')"
  obtains fd h d1 w2 where "qcow2_parse_header (qcow2_blank fname fd) h = Some d1"
    "qcow2_load_l1 m w2 d1 = Inr (Some d, w')"
  using assms unfolding vdisk_init_qcow2_def
  by (auto simp: rbind_Inr_iff Let_def split: if_splits prod.splits option.splits)

section \<open>The size of compressed data\<close>

lemma unat_less_of_take_bit: "take_bit n w = w \<Longrightarrow> unat (w :: 64 word) < 2 ^ n"
  by (metis take_bit_nat_less_exp unsigned_take_bit_eq)

lemma additional_sectors_bound:
  fixes e :: uint64
  assumes "x \<le> 62" "msk = (shl 1 62 - 1) XOR (shl 1 x - 1)"
  shows "unat (shr (e AND msk) x) < 2 ^ (62 - x)"
proof -
  have m: "msk = mask 62 XOR mask x" using assms(2) by (simp add: mask_eq_exp_minus_1)
  have "take_bit 62 (e AND msk) = e AND msk"
    unfolding m using assms(1) by (intro bit_word_eqI) (auto simp: bit_simps)
  then have lt: "unat (e AND msk) < 2 ^ 62" by (rule unat_less_of_take_bit)
  then have "unat (e AND msk) < 2 ^ (62 - x) * 2 ^ x" using assms(1) by (simp flip: power_add)
  then have "unat (e AND msk) div 2 ^ x < 2 ^ (62 - x)" by (rule less_mult_imp_div_less)
  moreover have "unat (shr (e AND msk) x) = unat (e AND msk) div 2 ^ x"
    using lt by (simp only: unsigned_drop_bit_eq) (simp add: take_bit_nat_eq_self drop_bit_eq_div)
  ultimately show ?thesis by simp
qed


lemma init_qcow2_cmp:
  assumes "qcow2_parse_header (qcow2_blank fname fd) h = Some d1" "qcow2_load_l1 m w d1 = Inr (Some d, w')"
    and "mem_ok m"
  shows "unat (l2_entry_cmp_x d) = 70 - unat (cluster_bits d)"
    "l2_entry_cmp_sect_cnt_mask d = (shl 1 62 - 1) XOR (shl 1 (unat (l2_entry_cmp_x d)) - 1)"
proof -
  note p = parse_header_Some [OF assms(1)]
  have "unat (cluster_bits d1 - 8) = unat (cluster_bits d1) - 8"
    using p(5) by (simp add: unat_sub_if')
  then have "unat (62 - (cluster_bits d1 - 8)) = 70 - unat (cluster_bits d1)"
    using p(5,6) by (simp add: unat_sub_if')
  then have x: "unat (l2_entry_cmp_x d1) = 70 - unat (cluster_bits d1)"
    unfolding p(13) by (simp add: unat_ucast_up)
  obtain xs where d: "d = d1\<lparr>cluster := junk m (unat (cluster_size d1)), cmp_cluster := junk m (unat (cluster_size d1 * 2)), l1 := xs\<rparr>"
    using load_l1_Some [OF assms(2,3)] by blast
  show "unat (l2_entry_cmp_x d) = 70 - unat (cluster_bits d)"
    "l2_entry_cmp_sect_cnt_mask d = (shl 1 62 - 1) XOR (shl 1 (unat (l2_entry_cmp_x d)) - 1)"
    using x p(14,15) by (simp_all add: d)
qed

lemma cmp_size_bound:
  assumes "9 \<le> b" "b \<le> 21" "unat (l2_entry_cmp_x d) = 70 - b"
    and "l2_entry_cmp_sect_cnt_mask d = (shl 1 62 - 1) XOR (shl 1 (unat (l2_entry_cmp_x d)) - 1)"
  shows "unat (qcow2_cmp_size d e) \<le> 2 * 2 ^ b"
proof -
  let ?s = "shr (e AND l2_entry_cmp_sect_cnt_mask d) (unat (l2_entry_cmp_x d))"
  let ?o = "(l2_entry_cmp_offset_mask d AND e) AND 511"
  have "unat ?s < 2 ^ (62 - (70 - b))"
    using additional_sectors_bound [of "70 - b" "l2_entry_cmp_sect_cnt_mask d" e] assms by simp
  then have s: "unat ?s < 2 ^ (b - 8)" using assms(1,2) by simp
  have pw: "(2::nat) ^ (b - 8) \<le> 2 ^ 13" using assms(2) by (intro power_increasing) simp_all
  have us: "unat (ucast ?s :: uint32) = unat ?s"
    using s pw by (simp add: unsigned_ucast_eq take_bit_nat_eq_self)
  have us2: "unat (ucast (ucast ?s * 512 :: uint32) :: uint64) = unat ?s * 512"
    using s pw us by (simp add: unat_ucast_up) (subst unat_mult_less; simp)
  have o: "unat ?o \<le> 511" using unat_and_le [of "l2_entry_cmp_offset_mask d AND e" 511] by simp
  then have o': "unat (512 - ?o) = 512 - unat ?o" by (simp add: unat_sub_if')
  have sum: "unat (512 - ?o + ucast (ucast ?s * 512 :: uint32) :: uint64) = 512 - unat ?o + unat ?s * 512"
    using o' us2 s pw by (subst unat_add_less) simp_all
  have "unat (qcow2_cmp_size d e) \<le> 512 - unat ?o + unat ?s * 512"
    unfolding qcow2_cmp_size_def Let_def sum [symmetric]
    by (simp only: unsigned_ucast_eq) (rule take_bit_nat_less_eq_self)
  also have "\<dots> \<le> (unat ?s + 1) * 512" by simp
  also have "\<dots> \<le> 2 ^ (b - 8) * 512" using s by (intro mult_le_mono1) simp
  also have "\<dots> = 2 * 2 ^ b"
  proof -
    have "(2::nat) ^ (b - 8) * 512 = 2 ^ (b - 8 + 9)" by (simp add: power_add)
    also have "b - 8 + 9 = b + 1" using assms(1) by simp
    finally show ?thesis by simp
  qed
  finally show ?thesis .
qed


section \<open>An example image\<close>

text \<open>
  A file of four clusters of 512 bytes: the header, the first-level table, the second-level table
  and one data cluster. The virtual disk has two clusters; the second is not allocated.
\<close>

definition ex_header :: "byte list" where
  "ex_header = [0x51, 0x46, 0x49, 0xfb, 0, 0, 0, 3, 0, 0, 0, 0, 0, 0, 0, 0, 0, 0, 0, 0,
     0, 0, 0, 9, 0, 0, 0, 0, 0, 0, 4, 0, 0, 0, 0, 0, 0, 0, 0, 1, 0, 0, 0, 0, 0, 0, 2, 0,
     0, 0, 0, 0, 0, 0, 0, 0, 0, 0, 0, 0, 0, 0, 0, 0, 0, 0, 0, 0, 0, 0, 0, 0,
     0, 0, 0, 0, 0, 0, 0, 0, 0, 0, 0, 0, 0, 0, 0, 0, 0, 0, 0, 0, 0, 0, 0, 0,
     0, 0, 0, 4, 0, 0, 0, 104]"

definition ex_image :: "byte list" where
  "ex_image = (ex_header @ replicate 408 0) @ ([0, 0, 0, 0, 0, 0, 4, 0] @ replicate 504 0)
     @ ([0, 0, 0, 0, 0, 0, 6, 0] @ replicate 504 0) @ replicate 512 7"

definition ex_qworld :: world where
  "ex_qworld = ex_world\<lparr>h_files := [''a.qcow2'' \<mapsto> ex_image]\<rparr>"

lemma ex_qworld_fd: "alloc_fd ex_qworld = Some 3"
  unfolding alloc_fd_def by (rule find_fd3) (simp_all add: ex_qworld_def ex_world_def)

lemma ex_qfiles: "h_files ex_qworld ''a.qcow2'' = Some ex_image" "h_badfiles ex_qworld = []"
  by (simp_all add: ex_qworld_def ex_world_def)

lemma ex_qsect: "sect_size_of_name ''a.qcow2'' = 512"
  by (simp add: sect_size_of_name_def)

lemma ex_header_length: "length ex_header = 104" by (simp add: ex_header_def)

lemma ex_image_parts:
  "take 104 ex_image = ex_header"
  "take 8 (drop 512 ex_image) = [0, 0, 0, 0, 0, 0, 4, 0]"
  "take 8 (drop 1024 ex_image) = [0, 0, 0, 0, 0, 0, 6, 0]"
  "length ex_image = 2048"
  by (simp_all add: ex_image_def ex_header_length)

definition ex_disk :: vdisk_qcow2 where
  "ex_disk = (qcow2_blank ''a.qcow2'' 3)\<lparr>
     q_vdisk := (q_vdisk (qcow2_blank ''a.qcow2'' 3))\<lparr>sect_cnt := 2\<rparr>,
     cluster_bits := 9, cluster_size := 512, sector_idx_mask := 0,
     l2_entry_cmp_x := 61, l2_entry_cmp_offset_mask := 2 ^ 61 - 1,
     l2_entry_cmp_sect_cnt_mask := 2 ^ 61,
     l1_size := 1, l1_table_offset := 512, refcount_table_offset := 0, refcount_table_clusters := 0,
     refcount_order := 4, header_length := 104, cluster := replicate 512 0,
     cmp_cluster := replicate 1024 0, l1 := [1024]\<rparr>"

lemma ex_parse: "\<exists>d. qcow2_parse_header (qcow2_blank ''a.qcow2'' 3) ex_header = Some d
    \<and> ex_disk = d\<lparr>cluster := replicate 512 0, cmp_cluster := replicate 1024 0, l1 := [1024]\<rparr>
    \<and> cluster_size d = 512 \<and> l1_size d = 1 \<and> q_fd d = 3 \<and> l1_table_offset d = 512"
  by (simp add: qcow2_parse_header_def ex_header_def hdr32_def hdr64_def be32_def be64_def
      QCOW2_MAGIC_def ex_disk_def qcow2_blank_def ex_qsect Let_def)


lemma ex_init: "\<exists>w'. vdisk_init_qcow2 ex_mem ex_qworld ''a.qcow2'' = Inr (Some ex_disk, w')
    \<and> fd_ok w' 3 ex_image \<and> io_ok w'"
proof -
  define w1 where "w1 = ex_qworld\<lparr>h_fds := (h_fds ex_qworld)(3 \<mapsto>
     \<lparr>fcontent = ex_image, fpos = 0, ferr = False, fwritable = False\<rparr>)\<rparr>"
  have op: "host_open_rdonly ex_qworld ''a.qcow2'' = (3, w1)"
    using ex_qfiles by (simp add: host_open_rdonly_def ex_qworld_fd w1_def)
  have w1: "io_ok w1" "fd_ok w1 3 ex_image" "lseek_set w1 3 0 = w1"
    using ex_world_ok by (simp_all add: w1_def ex_qworld_def io_ok_def fd_ok_def lseek_set_def)
  from io_read_at [OF w1(1,2), of 0 104] obtain w2 where w2: "io_read w1 3 104 = Inr (104, ex_header, w2)"
    "fd_ok w2 3 ex_image" "io_ok w2" using w1(3) by (auto simp: ex_image_parts)
  from io_read_at [OF w2(3,2), of 512 8] obtain w3 where
    w3: "io_read (lseek_set w2 3 512) 3 8 = Inr (8, [0, 0, 0, 0, 0, 0, 4, 0], w3)"
    "fd_ok w3 3 ex_image" "io_ok w3" by (auto simp: ex_image_parts)
  obtain d where d: "qcow2_parse_header (qcow2_blank ''a.qcow2'' 3) ex_header = Some d"
    "ex_disk = d\<lparr>cluster := replicate 512 0, cmp_cluster := replicate 1024 0, l1 := [1024]\<rparr>"
    "cluster_size d = 512" "l1_size d = 1" "q_fd d = 3" "l1_table_offset d = 512"
    using ex_parse by blast
  have b: "blit (junk ex_mem 104) ex_header = Inr ex_header" by (simp add: ex_mem_def ex_header_length)
  have b64: "be64s [0, 0, 0, 0, 0, 0, 4, 0] = [1024]"
    by (simp add: be64s.simps [of "[0, 0, 0, 0, 0, 0, 4, 0]"] be64s.simps [of "[]"] be64_def)
  have "qcow2_load_l1 ex_mem w2 d = Inr (Some ex_disk, w3)"
    using w3(1) b64 by (simp add: qcow2_load_l1_def Let_def d ex_mem_def)
  then have "vdisk_init_qcow2 ex_mem ex_qworld ''a.qcow2'' = Inr (Some ex_disk, w3)"
    using op w2(1) b d(1) by (simp add: vdisk_init_qcow2_def ex_malloc)
  then show ?thesis using w3(2,3) by blast
qed

lemma ex_mem_ok: "mem_ok ex_mem" by (simp add: mem_ok_def ex_mem_def)

section \<open>Properties\<close>




lemma io_read_fds:
  assumes "io_read w fd n = Inr (r, d, w')" "x \<noteq> fd"
  shows "h_fds w' x = h_fds w x"
proof -
  obtain r0 d0 h0 where h: "host_read w fd n = (r0, d0, h0)" by (metis prod_cases3)
  have other: "h_fds h0 x = h_fds w x"
    using h assms(2) by (cases "h_fds w fd") (simp_all add: host_read_def Let_def split: if_split_asm, (clarify, simp)?)
  show ?thesis
  proof (cases "w_running w < 2")
    case True
    then show ?thesis using assms(1) h other by (simp add: io_read_def)
  next
    case False
    then obtain cmd where "submit_wait 2 (w_resumes w) (w_cmd w) = Inr cmd"
      using assms(1) by (auto simp: io_read_def io_async_read_def rbind_Inr_iff)
    then have "\<exists>c. w' = h0\<lparr>w_cmd := c\<rparr>" using assms(1) False h
      by (auto simp: io_read_def io_async_read_def thread_io_def io_async_read_submit_def
          io_async_read_finish_def split: if_splits)
    then show ?thesis using other by auto
  qed
qed

lemma io_read_fds_upd: "io_read w fd n = Inr (r, d, w') \<Longrightarrow> (h_fds w')(fd := v) = (h_fds w)(fd := v)"
  using io_read_fds by (auto simp: fun_eq_iff)

lemma lseek_fds_upd: "(h_fds (lseek_set w fd off))(fd := v) = (h_fds w)(fd := v)"
  by (auto simp: lseek_set_def split: option.splits)

lemma close_fds: "q_fd d \<noteq> 0 \<Longrightarrow> h_fds (vdisk_qcow2_close w d) = (h_fds w)(q_fd d := None)"
  by (simp add: vdisk_qcow2_close_def host_close_def)

lemma q_fd_blank [simp]: "q_fd (qcow2_blank fname fd) = fd"
  by (simp add: qcow2_blank_def)

lemma load_l1_None:
  assumes "qcow2_load_l1 m w d = Inr (None, w')" "q_fd d \<noteq> 0"
  shows "h_fds w' = (h_fds w)(q_fd d := None)"
proof (cases "\<not> malloc_ok m (unat (cluster_size d)) \<or> \<not> malloc_ok m (unat (cluster_size d * 2))
    \<or> \<not> malloc_ok m (unat (l1_size d * 8))")
  case True
  then show ?thesis using assms by (auto simp: qcow2_load_l1_def close_fds)
next
  case False
  then obtain r bytes w2 where rd: "io_read (lseek_set w (q_fd d) (l1_table_offset d)) (q_fd d) (l1_size d * 8)
      = Inr (r, bytes, w2)" using assms(1) by (auto simp: qcow2_load_l1_def Let_def rbind_Inr_iff)
  then have "w' = vdisk_qcow2_close w2 (d\<lparr>cluster := junk m (unat (cluster_size d)),
      cmp_cluster := junk m (unat (cluster_size d * 2))\<rparr>)"
    using assms(1) False by (simp add: qcow2_load_l1_def Let_def rbind_Inr_iff split: if_split_asm)
  then show ?thesis using io_read_fds_upd [OF rd] assms(2) by (simp add: close_fds lseek_fds_upd)
qed





subsection \<open>Reading\<close>


text \<open>The example image with a virtual disk of its first cluster only.\<close>

definition ex_std :: vdisk_qcow2 where
  "ex_std = ex_disk\<lparr>q_vdisk := (q_vdisk ex_disk)\<lparr>sect_cnt := 1\<rparr>\<rparr>"

definition ex_open :: world where
  "ex_open = ex_world\<lparr>h_fds := (h_fds ex_world)(3 \<mapsto>
     \<lparr>fcontent = ex_image, fpos = 0, ferr = False, fwritable = False\<rparr>)\<rparr>"

lemma ex_std_geometry: "qss ex_std = 512" "cs ex_std = 512" "qcow2_clusters ex_std = 1" "q_fd ex_std = 3"
  "qcow2_wf ex_std" "l2_offset ex_std 0 = 1024" "prev_cluster_index ex_std = - 1" "l1 ex_std = [1024]"
  by (simp_all add: ex_std_def ex_disk_def qss_def cs_def qcow2_clusters_def qcow2_blank_def ex_qsect
      qcow2_wf_def l2_offset_def)

lemma ex_std_map: "qcow2_map ex_image ex_std 0 = Standard 1536" "standard ex_image ex_std 0"
proof -
  show m: "qcow2_map ex_image ex_std 0 = Standard 1536"
    by (simp add: qcow2_map_def ex_std_geometry l2_entry_def l2_entries_def ex_image_parts be64_def)
  then show "standard ex_image ex_std 0"
    by (simp add: standard_def covered_def ex_std_geometry l2_entries_def ex_image_parts)
qed

lemma ex_open_image: "q_image (ex_std, ex_open) = ex_image"
  by (simp add: q_image_def ex_open_def ex_std_geometry)

lemma ex_std_guest: "q_guest (ex_std, ex_open) = replicate 512 7"
  by (simp add: q_guest_def ex_open_image qcow2_content_def ex_std_geometry cluster_data_def ex_std_map)
    (simp add: ex_image_def ex_header_length)

lemma ex_std_ok: "q_ok ex_mem (ex_std, ex_open)"
  using ex_world_ok ex_std_map(2) cache_ok_init [of ex_std ex_image]
  by (simp add: q_ok_def ex_open_image ex_mem_ok ex_std_geometry standard_image_def)
    (simp add: ex_open_def io_ok_def fd_ok_def ex_std_def ex_disk_def qcow2_blank_def)


text \<open>
  Under the same invariant one read of \<open>a + b\<close> sectors returns the same bytes as a read of \<open>a\<close>
  sectors followed by a read of the \<open>b\<close> sectors after them: the cache left by the first read does
  not change what the second one sees.
\<close>

theorem vdisk_qcow2_read_split:
  assumes "q_ok m (d, w)" "(start + (a + b)) * qss d \<le> length (q_guest (d, w))" "(a + b) * qss d < 2 ^ 32"
  shows "\<exists>d1 d2 s1 s2 s3. q_rd infl m (d, w) start a = Inr (d1, s1) \<and> q_rd infl m s1 (start + a) b = Inr (d2, s2)
    \<and> q_rd infl m (d, w) start (a + b) = Inr (d1 @ d2, s3)"
  using qcow2_device.read_split [of m "(d, w)" start a b infl] assms by (simp add: q_sector_def)

theorem vdisk_qcow2_read_split_witness:
  "\<exists>d1 d2 s1 s2 s3. q_rd (\<lambda>_ out _. out) ex_mem (ex_std, ex_open) 0 1 = Inr (d1, s1)
    \<and> q_rd (\<lambda>_ out _. out) ex_mem s1 (0 + 1) 0 = Inr (d2, s2)
    \<and> q_rd (\<lambda>_ out _. out) ex_mem (ex_std, ex_open) 0 (1 + 0) = Inr (d1 @ d2, s3)"
  by (rule vdisk_qcow2_read_split [OF ex_std_ok]) (simp_all add: ex_std_guest ex_std_geometry)


subsection \<open>Where the cache is wrong\<close>


text \<open>The example disk after its first sector was read: the cache holds that sector.\<close>

definition ex_read1 :: vdisk_qcow2 where
  "ex_read1 = ex_std\<lparr>prev_cluster_index := 0, cluster := replicate 512 7, l1 := [1024, 0]\<rparr>"

lemma ex_read1_geometry: "qss ex_read1 = 512" "cs ex_read1 = 512" "spc ex_read1 = 1" "q_fd ex_read1 = 3"
  "qcow2_wf ex_read1" "prev_cluster_index ex_read1 = 0" "cluster ex_read1 = replicate 512 7"
  "cluster_index ex_read1 64 = 64" "qcow2_map ex_image ex_read1 64 = Unallocated" "covered ex_image ex_read1 64"
  by (simp_all add: ex_read1_def ex_std_def ex_disk_def qss_def cs_def spc_def qcow2_blank_def ex_qsect
      qcow2_wf_def cluster_index_def qcow2_map_def l2_offset_def l2_entries_def covered_def)

lemma ex_open_ok: "io_ok ex_open" "fd_ok ex_open 3 ex_image"
  using ex_world_ok by (simp_all add: ex_open_def io_ok_def fd_ok_def)


lemma load_compressed:
  assumes "qcow2_wf d" "io_ok w" "fd_ok w (q_fd d) img" "e AND L2_ENTRY_FORMAT \<noteq> 0"
    and "unat (l2_entry_cmp_offset_mask d) < 2 ^ 63" "unat (l2_entry_cmp_offset_mask d AND e) < length img"
  shows "\<exists>c w'. qcow2_load_cluster infl w d e = Inr (True, d\<lparr>cmp_cluster := c\<rparr>, w')"
proof -
  let ?o = "l2_entry_cmp_offset_mask d AND e"
  have "unat ?o \<le> unat (l2_entry_cmp_offset_mask d)" by (metis and.commute unat_and_le)
  then have "0 \<le> sint ?o" using assms(5) by (intro sint_nonneg_64) simp
  from io_read_at [OF assms(2,3) this, of "cluster_size d"] obtain w' where
    rd: "io_read (lseek_set w (q_fd d) ?o) (q_fd d) (cluster_size d)
      = Inr (int (min (cs d) (length img - unat ?o)), take (cs d) (drop (unat ?o) img), w')"
    by (auto simp: cs_def)
  have "length (cmp_cluster d) = 2 * cs d" using assms(1) wf_cs(1) [OF assms(1)] by (simp add: qcow2_wf_def)
  then have "blit (cmp_cluster d) (take (cs d) (drop (unat ?o) img))
      = Inr (take (cs d) (drop (unat ?o) img) @ drop (length (take (cs d) (drop (unat ?o) img))) (cmp_cluster d))"
    by (simp add: blit_def)
  moreover have "min (cs d) (length img - unat ?o) \<noteq> 0" using wf_cs(5) [OF assms(1)] assms(6) by simp
  ultimately show ?thesis using assms(4) rd by (auto simp: qcow2_load_cluster_def Let_def)
qed



text \<open>The example with its data cluster marked as compressed.\<close>

definition ex_cimage :: "byte list" where
  "ex_cimage = replicate 1024 0 @ [0x40, 0, 0, 0, 0, 0, 6, 0] @ replicate 504 0 @ replicate 512 7"

definition ex_copen :: world where
  "ex_copen = ex_world\<lparr>h_fds := (h_fds ex_world)(3 \<mapsto>
     \<lparr>fcontent = ex_cimage, fpos = 0, ferr = False, fwritable = False\<rparr>)\<rparr>"

lemma ex_cimage_entry: "l2_entry ex_cimage ex_std 0 = 0x4000000000000600" "length ex_cimage = 2048"
  by (simp_all add: l2_entry_def ex_cimage_def l2_entries_def ex_std_geometry be64_def)

lemma ex_copen_ok: "io_ok ex_copen" "fd_ok ex_copen 3 ex_cimage"
  using ex_world_ok by (simp_all add: ex_copen_def io_ok_def fd_ok_def)


end
