(* ===== verification/Vdisk.thy ===== *)
theory Vdisk
  imports Qcow2Props
begin

text \<open>
  \<^verbatim>\<open>vdisk.c\<close>: choosing the driver of an image by the suffix of its name, filling in the common part
  of the structure, and the calls the kernel makes through \<^verbatim>\<open>diskfunc_t\<close>.
\<close>

section \<open>Operations\<close>

datatype disk = Raw vdisk_raw | Qcow2 vdisk_qcow2

fun disk_vdisk :: "disk \<Rightarrow> vdisk" where
  "disk_vdisk (Raw d) = raw_vdisk d"
| "disk_vdisk (Qcow2 d) = q_vdisk d"

fun map_vdisk :: "(vdisk \<Rightarrow> vdisk) \<Rightarrow> disk \<Rightarrow> disk" where
  "map_vdisk f (Raw d) = Raw (d\<lparr>raw_vdisk := f (raw_vdisk d)\<rparr>)"
| "map_vdisk f (Qcow2 d) = Qcow2 (d\<lparr>q_vdisk := f (q_vdisk d)\<rparr>)"

record diskmediainfo =
  mi_flags :: uint32
  mi_sector_size :: uint32
  mi_capacity :: uint64

definition vdisk_querymedia :: "vdisk \<Rightarrow> kos_error \<times> diskmediainfo" where
  "vdisk_querymedia disk = (KOS_ERROR_SUCCESS,
     \<lparr>mi_flags = 0, mi_sector_size = sect_size disk, mi_capacity = sect_cnt disk\<rparr>)"

definition vdisk_adjust_cache_size :: "vdisk \<Rightarrow> size_t \<Rightarrow> size_t" where
  "vdisk_adjust_cache_size disk suggested_size =
     (if adjust_cache_size disk \<noteq> 0 then cache_size disk else suggested_size)"

definition RAW_SUFFIX :: string where "RAW_SUFFIX = ''.raw''"
definition ISO_SUFFIX :: string where "ISO_SUFFIX = ''.iso''"
definition QCOW2_SUFFIX :: string where "QCOW2_SUFFIX = ''.qcow2''"

definition name_ends :: "string \<Rightarrow> string \<Rightarrow> bool" where
  "name_ends fname suf \<longleftrightarrow> length fname > length suf \<and> drop (length fname - length suf) fname = suf"

definition vdisk_finish :: "int \<Rightarrow> size_t \<Rightarrow> disk \<Rightarrow> disk" where
  "vdisk_finish adjust csize = map_vdisk (\<lambda>v. v\<lparr>
     diskfunc := (diskfunc v)\<lparr>df_closemedia := None, df_querymedia := Some Vdisk_querymedia,
       df_flush := None, df_adjust_cache_size := Some Vdisk_adjust_cache_size\<rparr>,
     adjust_cache_size := adjust, cache_size := csize\<rparr>)"

text \<open>The common fields are stored through the pointer the driver returned, null or not.\<close>

definition vdisk_init :: "mem \<Rightarrow> world \<Rightarrow> string \<Rightarrow> int \<Rightarrow> size_t \<Rightarrow> (disk option \<times> world) res" where
  "vdisk_init m w fname adjust csize =
     (if name_ends fname RAW_SUFFIX \<or> name_ends fname ISO_SUFFIX then
        rbind (vdisk_init_raw m w fname) (\<lambda>(d, w1). case d of None \<Rightarrow> Inl Null_deref
          | Some d \<Rightarrow> Inr (Some (vdisk_finish adjust csize (Raw d)), w1))
      else if name_ends fname QCOW2_SUFFIX then
        rbind (vdisk_init_qcow2 m w fname) (\<lambda>(d, w1). case d of None \<Rightarrow> Inl Null_deref
          | Some d \<Rightarrow> Inr (Some (vdisk_finish adjust csize (Qcow2 d)), w1))
      else Inr (None, w))"

text \<open>The kernel's calls through the function table.\<close>

fun disk_read :: "inflate \<Rightarrow> mem \<Rightarrow> world \<Rightarrow> disk \<Rightarrow> byte list \<Rightarrow> off_t \<Rightarrow> size_t
    \<Rightarrow> (kos_error \<times> byte list \<times> disk \<times> world) res" where
  "disk_read infl m w (Raw d) buf start n =
     rbind (vdisk_raw_read w d buf start n) (\<lambda>(e, buf', w'). Inr (e, buf', Raw d, w'))"
| "disk_read infl m w (Qcow2 d) buf start n =
     rbind (vdisk_qcow2_read infl m w d buf start n) (\<lambda>(e, buf', d', w'). Inr (e, buf', Qcow2 d', w'))"

fun disk_close :: "world \<Rightarrow> disk \<Rightarrow> world" where
  "disk_close w (Raw d) = vdisk_raw_close w d"
| "disk_close w (Qcow2 d) = vdisk_qcow2_close w d"

section \<open>Properties\<close>

lemma map_vdisk_disk [simp]: "disk_vdisk (map_vdisk f d) = f (disk_vdisk d)"
  by (cases d) simp_all

lemma finish_fields:
  "sect_size (disk_vdisk (vdisk_finish a c d)) = sect_size (disk_vdisk d)"
  "sect_cnt (disk_vdisk (vdisk_finish a c d)) = sect_cnt (disk_vdisk d)"
  "adjust_cache_size (disk_vdisk (vdisk_finish a c d)) = a" "cache_size (disk_vdisk (vdisk_finish a c d)) = c"
  by (simp_all add: vdisk_finish_def)

text \<open>
  A disk that \<^verbatim>\<open>vdisk_init\<close> returns has a \<^verbatim>\<open>.raw\<close>, \<^verbatim>\<open>.iso\<close> or \<^verbatim>\<open>.qcow2\<close> name and the driver that
  belongs to it, answers the kernel's media query with the geometry found by that driver and a
  sector size of 512, 2048 or 4096 bytes, and answers the cache query with the size given on
  opening exactly when an adjustment was asked for.
\<close>

theorem vdisk_init_dispatch:
  assumes "vdisk_init m w fname adjust csize = Inr (Some disk, w')" "mem_ok m"
  shows "(name_ends fname ''.raw'' \<or> name_ends fname ''.iso'' \<or> name_ends fname ''.qcow2'')
    \<and> (\<exists>d. disk = Qcow2 d) = (name_ends fname ''.qcow2'' \<and> \<not> name_ends fname ''.raw'' \<and> \<not> name_ends fname ''.iso'')
    \<and> mi_sector_size (snd (vdisk_querymedia (disk_vdisk disk))) \<in> {512, 2048, 4096}
    \<and> vdisk_adjust_cache_size (disk_vdisk disk) n = (if adjust \<noteq> 0 then csize else n)"
proof (cases "name_ends fname RAW_SUFFIX \<or> name_ends fname ISO_SUFFIX")
  case True
  then obtain d where d: "vdisk_init_raw m w fname = Inr (Some d, w')" "disk = vdisk_finish adjust csize (Raw d)"
    using assms(1) by (auto simp: vdisk_init_def rbind_Inr_iff split: option.splits)
  have "sect_size (raw_vdisk d) = sect_size_of_name fname"
    using d(1) by (auto simp: vdisk_init_raw_def Let_def split: prod.splits if_splits)
  then have "sect_size (disk_vdisk disk) \<in> {512, 2048, 4096}"
    by (simp add: d(2) finish_fields sect_size_of_name_def)
  then show ?thesis using True d(2)
    by (auto simp: vdisk_querymedia_def vdisk_adjust_cache_size_def finish_fields vdisk_finish_def
        RAW_SUFFIX_def ISO_SUFFIX_def)
next
  case False
  then have q: "name_ends fname QCOW2_SUFFIX" using assms(1) by (auto simp: vdisk_init_def split: if_splits)
  then obtain d where d: "vdisk_init_qcow2 m w fname = Inr (Some d, w')" "disk = vdisk_finish adjust csize (Qcow2 d)"
    using assms(1) False by (auto simp: vdisk_init_def rbind_Inr_iff split: option.splits)
  obtain fd h d1 w2 where s: "qcow2_parse_header (qcow2_blank fname fd) h = Some d1"
    "qcow2_load_l1 m w2 d1 = Inr (Some d, w')" using init_qcow2_Some [OF d(1)] by blast
  have "qcow2_wf d" using wf_after_load [OF s assms(2)] by blast
  then have "sect_size (disk_vdisk disk) \<in> {512, 2048, 4096}"
    by (simp add: d(2) finish_fields qcow2_wf_def)
  then show ?thesis using False q d(2)
    by (auto simp: vdisk_querymedia_def vdisk_adjust_cache_size_def finish_fields vdisk_finish_def
        RAW_SUFFIX_def ISO_SUFFIX_def QCOW2_SUFFIX_def)
qed

theorem vdisk_init_dispatch_witness:
  "\<exists>disk w'. vdisk_init ex_mem ex_qworld ''a.qcow2'' 1 0 = Inr (Some disk, w') \<and> (\<exists>d. disk = Qcow2 d)
     \<and> vdisk_adjust_cache_size (disk_vdisk disk) 99 = 0"
proof -
  obtain w' where "vdisk_init_qcow2 ex_mem ex_qworld ''a.qcow2'' = Inr (Some ex_disk, w')" using ex_init by blast
  then have "vdisk_init ex_mem ex_qworld ''a.qcow2'' 1 0 = Inr (Some (vdisk_finish 1 0 (Qcow2 ex_disk)), w')"
    by (simp add: vdisk_init_def name_ends_def RAW_SUFFIX_def ISO_SUFFIX_def QCOW2_SUFFIX_def)
  from vdisk_init_dispatch [OF this ex_mem_ok, of 99] this show ?thesis by (auto simp: name_ends_def)
qed



end
