(* ===== verification/Syscalls.thy ===== *)
theory Syscalls
  imports Host
begin

unbundle bit_operations_syntax

text \<open>
  The system call wrappers of \<^verbatim>\<open>umka.h\<close>. Each of them loads the registers a KolibriOS system
  call expects and enters the kernel through \<^verbatim>\<open>i40\<close>. The kernel is not part of this repository
  (it is assembled from the KolibriOS sources), so it is the argument \<^verbatim>\<open>K\<close> of every definition
  here: a function from the registers it is entered with and its own state to the registers it
  leaves and its next state. A register that holds a pointer is described by what the pointer
  leads to; a register a wrapper does not load is \<^const>\<open>None\<close>. The lemmas show that the packed
  registers can be taken apart again, which is what makes the wrappers correct callers.
\<close>

named_theorems sys_defs \<open>definitions of the wrappers\<close>

section \<open>Registers and the kernel\<close>

text \<open>The path at the end of an \<^verbatim>\<open>f7080s?arg_t\<close>: the two members of its union.\<close>

datatype lfn_path = F70_path uint8 cptr | F80_path uint32 cptr

text \<open>The argument blocks of system functions 70 and 80, by subfunction.\<close>

datatype lfn_arg =
    F7080s0 uint64 uint32 nat lfn_path
  | F7080s1 uint32 uint32 uint32 nat lfn_path
  | F7080s5 uint32 nat lfn_path
  | F7080s7 uint32 string lfn_path

fun lfn_sf :: "lfn_arg \<Rightarrow> uint32" where
  "lfn_sf (F7080s0 offset count buf u) = 0"
| "lfn_sf (F7080s1 offset encoding size' buf u) = 1"
| "lfn_sf (F7080s5 flags buf u) = 5"
| "lfn_sf (F7080s7 flags params u) = 7"

text \<open>
  What a register holds: a number, or a pointer to a string, to bytes the kernel reads, to a
  buffer of some size the kernel may write, to an array of words, to an argument block, or to a
  function (by its name).
\<close>

datatype regval = Num uint32 | Str string | InBuf "byte list" | OutBuf nat
  | Words "regval list" | Lfn lfn_arg | Fun string

record pushad_t =
  eax :: uint32
  ebx :: "regval option"
  ecx :: "regval option"
  edx :: "regval option"
  esi :: "regval option"
  edi :: "regval option"
  ebp :: "regval option"

text \<open>What the kernel leaves: the result registers and the bytes stored in the output buffer.\<close>

record i40_ret =
  ret_eax :: uint32
  ret_ebx :: uint32
  ret_edx :: uint32
  ret_mem :: "byte list"

text \<open>
  The kernel: its system call entry, its other entry points by name, and what its own threads do
  while the shell thread waits.
\<close>

record 'k kernel =
  i40 :: "pushad_t \<Rightarrow> 'k \<Rightarrow> i40_ret \<times> 'k"
  kos :: "string \<Rightarrow> regval list \<Rightarrow> 'k \<Rightarrow> uint32 \<times> 'k"
  kos_schedule :: "'k \<Rightarrow> 'k"

definition regs :: "uint32 \<Rightarrow> pushad_t" where
  "regs n = \<lparr>eax = n, ebx = None, ecx = None, edx = None, esi = None, edi = None, ebp = None\<rparr>"

definition regs1 :: "uint32 \<Rightarrow> regval \<Rightarrow> pushad_t" where
  "regs1 n b = (regs n)\<lparr>ebx := Some b\<rparr>"

definition regs2 :: "uint32 \<Rightarrow> regval \<Rightarrow> regval \<Rightarrow> pushad_t" where
  "regs2 n b c = (regs1 n b)\<lparr>ecx := Some c\<rparr>"

definition regs3 :: "uint32 \<Rightarrow> regval \<Rightarrow> regval \<Rightarrow> regval \<Rightarrow> pushad_t" where
  "regs3 n b c d = (regs2 n b c)\<lparr>edx := Some d\<rparr>"

definition regs4 :: "uint32 \<Rightarrow> regval \<Rightarrow> regval \<Rightarrow> regval \<Rightarrow> regval \<Rightarrow> pushad_t" where
  "regs4 n b c d s = (regs3 n b c d)\<lparr>esi := Some s\<rparr>"

definition regs5 :: "uint32 \<Rightarrow> regval \<Rightarrow> regval \<Rightarrow> regval \<Rightarrow> regval \<Rightarrow> regval \<Rightarrow> pushad_t" where
  "regs5 n b c d s e = (regs4 n b c d s)\<lparr>edi := Some e\<rparr>"

lemmas regs_defs = regs_def regs1_def regs2_def regs3_def regs4_def regs5_def

text \<open>Calls whose result is ignored, is in \<^verbatim>\<open>eax\<close>, is in \<^verbatim>\<open>eax\<close> and \<^verbatim>\<open>ebx\<close>, or is a buffer.\<close>

definition call_void :: "'k kernel \<Rightarrow> pushad_t \<Rightarrow> 'k \<Rightarrow> 'k" where
  "call_void K r k = snd (i40 K r k)"

definition call_eax :: "'k kernel \<Rightarrow> pushad_t \<Rightarrow> 'k \<Rightarrow> uint32 \<times> 'k" where
  "call_eax K r k = (let (x, k') = i40 K r k in (ret_eax x, k'))"

definition call_eax_ebx :: "'k kernel \<Rightarrow> pushad_t \<Rightarrow> 'k \<Rightarrow> (uint32 \<times> uint32) \<times> 'k" where
  "call_eax_ebx K r k = (let (x, k') = i40 K r k in ((ret_eax x, ret_ebx x), k'))"

definition call_mem :: "'k kernel \<Rightarrow> pushad_t \<Rightarrow> 'k \<Rightarrow> byte list \<times> 'k" where
  "call_mem K r k = (let (x, k') = i40 K r k in (ret_mem x, k'))"

lemmas call_defs = call_void_def call_eax_def call_eax_ebx_def call_mem_def

definition umka_i40 :: "'k kernel \<Rightarrow> pushad_t \<Rightarrow> 'k \<Rightarrow> (uint32 \<times> uint32) \<times> 'k" where
  "umka_i40 K r k = call_eax_ebx K r k"

section \<open>Entry points other than system calls\<close>

definition umka_osloop :: "'k kernel \<Rightarrow> 'k \<Rightarrow> 'k" where
  "umka_osloop K k = snd (kos K ''kos_osloop'' [] k)"

definition umka_stack_init :: "'k kernel \<Rightarrow> 'k \<Rightarrow> 'k" where
  "umka_stack_init K k = snd (kos K ''kos_stack_init'' [] k)"

definition kos_net_add_device :: "'k kernel \<Rightarrow> regval \<Rightarrow> 'k \<Rightarrow> uint32 \<times> 'k" where
  "kos_net_add_device K dev k = kos K ''net_add_device'' [dev] k"

definition umka_fs_execute :: "'k kernel \<Rightarrow> string \<Rightarrow> 'k \<Rightarrow> uint32 \<times> 'k" where
  "umka_fs_execute K filename k =
     kos K ''kos_fs_execute'' [Num (of_nat (length filename)), Str filename, Num 0, Num 0] k"

definition kos_new_sys_threads :: "'k kernel \<Rightarrow> uint32 \<Rightarrow> regval \<Rightarrow> regval \<Rightarrow> 'k \<Rightarrow> uint32 \<times> 'k" where
  "kos_new_sys_threads K flags entry stack_top k = kos K ''_kos_new_sys_threads'' [Num flags, entry, stack_top] k"

definition kos_enable_acpi :: "'k kernel \<Rightarrow> 'k \<Rightarrow> 'k" where
  "kos_enable_acpi K k = snd (kos K ''enable_acpi'' [] k)"

definition kos_acpi_call_name :: "'k kernel \<Rightarrow> regval \<Rightarrow> string \<Rightarrow> 'k \<Rightarrow> 'k" where
  "kos_acpi_call_name K ctx nm k = snd (kos K ''acpi.call_name'' [ctx, Str nm] k)"

definition umka_set_keyboard_data :: "'k kernel \<Rightarrow> uint32 \<Rightarrow> 'k \<Rightarrow> 'k" where
  "umka_set_keyboard_data K scancode k = snd (kos K ''kos_set_keyboard_data'' [Num scancode] k)"

section \<open>Windows and drawing\<close>

definition umka_sys_draw_window :: "'k kernel \<Rightarrow> uint32 \<Rightarrow> uint32 \<Rightarrow> uint32 \<Rightarrow> uint32 \<Rightarrow> uint32
    \<Rightarrow> uint32 \<Rightarrow> uint32 \<Rightarrow> uint32 \<Rightarrow> uint32 \<Rightarrow> uint32 \<Rightarrow> uint32 \<Rightarrow> string \<Rightarrow> 'k \<Rightarrow> 'k" where
  "umka_sys_draw_window K x xsize y ysize color has_caption client_relative fill_workarea
       gradient_fill movable style caption =
     call_void K (regs5 0 (Num (shl x 16 + xsize)) (Num (shl y 16 + ysize))
       (Num (shl gradient_fill 31 + shl (c_not fill_workarea) 30 + shl client_relative 29
             + shl has_caption 28 + shl style 24 + color))
       (Num (shl (c_not movable) 24)) (Str caption))"

definition umka_sys_set_pixel :: "'k kernel \<Rightarrow> uint32 \<Rightarrow> uint32 \<Rightarrow> uint32 \<Rightarrow> uint32 \<Rightarrow> 'k \<Rightarrow> 'k" where
  "umka_sys_set_pixel K x y color invert =
     call_void K (regs3 1 (Num x) (Num y) (Num (shl invert 24 + color)))"

definition umka_get_key :: "'k kernel \<Rightarrow> 'k \<Rightarrow> uint32 \<times> 'k" where
  "umka_get_key K = call_eax K (regs 2)"

definition umka_sys_write_text :: "'k kernel \<Rightarrow> uint32 \<Rightarrow> uint32 \<Rightarrow> uint32 \<Rightarrow> uint32 \<Rightarrow> uint32
    \<Rightarrow> uint32 \<Rightarrow> uint32 \<Rightarrow> uint32 \<Rightarrow> string \<Rightarrow> uint32 \<Rightarrow> uint32 \<Rightarrow> 'k \<Rightarrow> 'k" where
  "umka_sys_write_text K x y color asciiz fill_background font_and_encoding draw_to_buffer
       scale_factor str len background_color_or_buffer =
     call_void K (regs5 4 (Num (shl x 16 + y))
       (Num (shl asciiz 31 + shl fill_background 30 + shl font_and_encoding 28
             + shl draw_to_buffer 27 + shl scale_factor 24 + color))
       (Str str) (Num len) (Num background_color_or_buffer))"

definition umka_sys_csleep :: "'k kernel \<Rightarrow> uint32 \<Rightarrow> 'k \<Rightarrow> 'k" where
  "umka_sys_csleep K cs = call_void K (regs1 5 (Num cs))"

definition umka_sys_put_image :: "'k kernel \<Rightarrow> regval \<Rightarrow> uint32 \<Rightarrow> uint32 \<Rightarrow> uint32 \<Rightarrow> uint32 \<Rightarrow> 'k \<Rightarrow> 'k" where
  "umka_sys_put_image K img xsize ysize x y =
     call_void K (regs3 7 img (Num (shl xsize 16 + ysize)) (Num (shl x 16 + y)))"

definition umka_sys_button :: "'k kernel \<Rightarrow> uint32 \<Rightarrow> uint32 \<Rightarrow> uint32 \<Rightarrow> uint32 \<Rightarrow> uint32 \<Rightarrow> uint32
    \<Rightarrow> uint32 \<Rightarrow> uint32 \<Rightarrow> 'k \<Rightarrow> 'k" where
  "umka_sys_button K x xsize y ysize button_id draw_button draw_frame color =
     call_void K (regs4 8 (Num (shl x 16 + xsize)) (Num (shl y 16 + ysize))
       (Num (shl (c_not draw_button) 30 + shl (c_not draw_frame) 29 + button_id)) (Num color))"

definition umka_sys_process_info :: "'k kernel \<Rightarrow> uint32 \<Rightarrow> regval \<Rightarrow> 'k \<Rightarrow> byte list \<times> 'k" where
  "umka_sys_process_info K pid param = call_mem K (regs2 9 param (Num pid))"

definition umka_sys_wait_for_event :: "'k kernel \<Rightarrow> 'k \<Rightarrow> uint32 \<times> 'k" where
  "umka_sys_wait_for_event K = call_eax K (regs 10)"

definition umka_sys_check_for_event :: "'k kernel \<Rightarrow> 'k \<Rightarrow> uint32 \<times> 'k" where
  "umka_sys_check_for_event K = call_eax K (regs 11)"

definition umka_sys_window_redraw :: "'k kernel \<Rightarrow> uint32 \<Rightarrow> 'k \<Rightarrow> 'k" where
  "umka_sys_window_redraw K begin_end = call_void K (regs1 12 (Num begin_end))"

definition umka_sys_draw_rect :: "'k kernel \<Rightarrow> uint32 \<Rightarrow> uint32 \<Rightarrow> uint32 \<Rightarrow> uint32 \<Rightarrow> uint32 \<Rightarrow> uint32
    \<Rightarrow> 'k \<Rightarrow> 'k" where
  "umka_sys_draw_rect K x xsize y ysize color gradient =
     call_void K (regs3 13 (Num (shl x 16 + xsize)) (Num (shl y 16 + ysize))
       (Num (shl gradient 31 + color)))"

definition umka_sys_get_screen_size :: "'k kernel \<Rightarrow> 'k \<Rightarrow> (uint32 \<times> uint32) \<times> 'k" where
  "umka_sys_get_screen_size K k = (let (xysize, k') = call_eax K (regs 14) k in
     ((shr xysize 16 + 1, (xysize AND 0xffff) + 1), k'))"

definition umka_sys_draw_line :: "'k kernel \<Rightarrow> uint32 \<Rightarrow> uint32 \<Rightarrow> uint32 \<Rightarrow> uint32 \<Rightarrow> uint32 \<Rightarrow> uint32
    \<Rightarrow> 'k \<Rightarrow> 'k" where
  "umka_sys_draw_line K x xend y yend color invert =
     call_void K (regs3 38 (Num (shl x 16 + xend)) (Num (shl y 16 + yend))
       (Num (shl invert 24 + color)))"

definition umka_sys_display_number :: "'k kernel \<Rightarrow> uint32 \<Rightarrow> uint32 \<Rightarrow> uint32 \<Rightarrow> uint32 \<Rightarrow> uint32
    \<Rightarrow> uint32 \<Rightarrow> uint32 \<Rightarrow> uint32 \<Rightarrow> uint32 \<Rightarrow> uint32 \<Rightarrow> uint32 \<Rightarrow> uint32 \<Rightarrow> uint32 \<Rightarrow> uint32 \<Rightarrow> 'k \<Rightarrow> 'k" where
  "umka_sys_display_number K is_pointer base digits_to_display is_qword show_leading_zeros
       number_or_pointer x y color fill_background font draw_to_buffer scale_factor
       background_color_or_buffer =
     call_void K (regs5 47
       (Num (is_pointer + shl base 8 + shl digits_to_display 16 + shl is_qword 30
             + shl show_leading_zeros 31))
       (Num number_or_pointer) (Num (shl x 16 + y))
       (Num (color + shl fill_background 30 + shl font 28 + shl draw_to_buffer 27
             + shl scale_factor 24))
       (Num background_color_or_buffer))"

definition umka_sys_put_image_palette :: "'k kernel \<Rightarrow> regval \<Rightarrow> uint32 \<Rightarrow> uint32 \<Rightarrow> uint32 \<Rightarrow> uint32
    \<Rightarrow> uint32 \<Rightarrow> regval \<Rightarrow> uint32 \<Rightarrow> 'k \<Rightarrow> 'k" where
  "umka_sys_put_image_palette K img xsize ysize x y bpp palette row_offset k =
     snd (umka_i40 K \<lparr>eax = 65, ebx = Some img, ecx = Some (Num (shl xsize 16 + ysize)),
       edx = Some (Num (shl x 16 + y)), esi = Some (Num bpp), edi = Some palette,
       ebp = Some (Num row_offset)\<rparr> k)"

definition umka_sys_move_window :: "'k kernel \<Rightarrow> uint32 \<Rightarrow> uint32 \<Rightarrow> uint32 \<Rightarrow> uint32 \<Rightarrow> 'k \<Rightarrow> 'k" where
  "umka_sys_move_window K x y xsize ysize =
     call_void K (regs4 67 (Num x) (Num y) (Num xsize) (Num ysize))"

definition umka_sys_set_window_caption :: "'k kernel \<Rightarrow> string \<Rightarrow> uint32 \<Rightarrow> 'k \<Rightarrow> 'k" where
  "umka_sys_set_window_caption K caption encoding =
     call_void K (regs3 71 (Num (if encoding \<noteq> 0 then 2 else 1)) (Str caption) (Num encoding))"

definition umka_sys_blit_bitmap :: "'k kernel \<Rightarrow> uint32 \<Rightarrow> uint32 \<Rightarrow> uint32 \<Rightarrow> uint32 \<Rightarrow> regval \<Rightarrow> 'k \<Rightarrow> 'k" where
  "umka_sys_blit_bitmap K operation background transparent client_relative params =
     call_void K (regs2 73
       (Num (shl client_relative 29 + shl transparent 5 + shl background 4 + operation)) params)"

section \<open>The background image\<close>

definition umka_sys_bg_set_size :: "'k kernel \<Rightarrow> uint32 \<Rightarrow> uint32 \<Rightarrow> 'k \<Rightarrow> 'k" where
  "umka_sys_bg_set_size K xsize ysize = call_void K (regs3 15 (Num 1) (Num xsize) (Num ysize))"

definition umka_sys_bg_put_pixel :: "'k kernel \<Rightarrow> uint32 \<Rightarrow> uint32 \<Rightarrow> 'k \<Rightarrow> 'k" where
  "umka_sys_bg_put_pixel K offset color = call_void K (regs3 15 (Num 2) (Num offset) (Num color))"

definition umka_sys_bg_redraw :: "'k kernel \<Rightarrow> 'k \<Rightarrow> 'k" where
  "umka_sys_bg_redraw K = call_void K (regs1 15 (Num 3))"

definition umka_sys_bg_set_mode :: "'k kernel \<Rightarrow> uint32 \<Rightarrow> 'k \<Rightarrow> 'k" where
  "umka_sys_bg_set_mode K mode = call_void K (regs2 15 (Num 4) (Num mode))"

definition umka_sys_bg_put_img :: "'k kernel \<Rightarrow> regval \<Rightarrow> uint32 \<Rightarrow> uint32 \<Rightarrow> 'k \<Rightarrow> 'k" where
  "umka_sys_bg_put_img K img offset sz =
     call_void K (regs4 15 (Num 5) img (Num offset) (Num sz))"

definition umka_sys_bg_map :: "'k kernel \<Rightarrow> 'k \<Rightarrow> uint32 \<times> 'k" where
  "umka_sys_bg_map K = call_eax K (regs1 15 (Num 6))"

definition umka_sys_bg_unmap :: "'k kernel \<Rightarrow> uint32 \<Rightarrow> 'k \<Rightarrow> uint32 \<times> 'k" where
  "umka_sys_bg_unmap K addr = call_eax K (regs2 15 (Num 7) (Num addr))"

section \<open>Mouse and keyboard\<close>

text \<open>\<^verbatim>\<open>struct point16s\<close> has \<^verbatim>\<open>y\<close> in its low half, so it travels in one register.\<close>

record point16s =
  pt_y :: uint16
  pt_x :: uint16

definition point_word :: "point16s \<Rightarrow> uint32" where
  "point_word p = shl (ucast (pt_x p)) 16 OR ucast (pt_y p)"

definition word_point :: "uint32 \<Rightarrow> point16s" where
  "word_point w = \<lparr>pt_y = ucast w, pt_x = ucast (shr w 16)\<rparr>"

text \<open>The bit-fields of the two mouse structures, from the lowest bit.\<close>

record mouse_state =
  bl_held :: bool
  br_held :: bool
  bm_held :: bool
  b4_held :: bool
  b5_held :: bool

record mouse_events =
  bl_pressed :: bool
  br_pressed :: bool
  bm_pressed :: bool
  vscroll_used :: bool
  bl_released :: bool
  br_released :: bool
  bm_released :: bool
  hscroll_used :: bool
  bl_dbclick :: bool

definition word_mouse_state :: "uint32 \<Rightarrow> mouse_state" where
  "word_mouse_state w = \<lparr>bl_held = bit w 0, br_held = bit w 1, bm_held = bit w 2,
     b4_held = bit w 3, b5_held = bit w 4\<rparr>"

definition word_mouse_events :: "uint32 \<Rightarrow> mouse_events" where
  "word_mouse_events w = \<lparr>bl_pressed = bit w 8, br_pressed = bit w 9, bm_pressed = bit w 10,
     vscroll_used = bit w 16, bl_released = bit w 17, br_released = bit w 18, bm_released = bit w 19,
     hscroll_used = bit w 24, bl_dbclick = bit w 25\<rparr>"

definition umka_sys_set_mouse_pos_screen :: "'k kernel \<Rightarrow> point16s \<Rightarrow> 'k \<Rightarrow> 'k" where
  "umka_sys_set_mouse_pos_screen K new_pos =
     call_void K (regs3 18 (Num 19) (Num 4) (Num (point_word new_pos)))"

definition umka_sys_get_mouse_pos_screen :: "'k kernel \<Rightarrow> 'k \<Rightarrow> point16s \<times> 'k" where
  "umka_sys_get_mouse_pos_screen K k = (let (w, k') = call_eax K (regs1 37 (Num 0)) k in
     (word_point w, k'))"

definition umka_sys_get_mouse_pos_window :: "'k kernel \<Rightarrow> 'k \<Rightarrow> point16s \<times> 'k" where
  "umka_sys_get_mouse_pos_window K k = (let (w, k') = call_eax K (regs1 37 (Num 1)) k in
     (word_point w, k'))"

definition umka_sys_get_mouse_buttons_state :: "'k kernel \<Rightarrow> 'k \<Rightarrow> mouse_state \<times> 'k" where
  "umka_sys_get_mouse_buttons_state K k = (let (w, k') = call_eax K (regs1 37 (Num 2)) k in
     (word_mouse_state w, k'))"

definition umka_sys_get_mouse_buttons_state_events ::
    "'k kernel \<Rightarrow> 'k \<Rightarrow> (mouse_state \<times> mouse_events) \<times> 'k" where
  "umka_sys_get_mouse_buttons_state_events K k = (let (w, k') = call_eax K (regs1 37 (Num 3)) k in
     ((word_mouse_state w, word_mouse_events w), k'))"

definition umka_sys_load_cursor_from_file :: "'k kernel \<Rightarrow> string \<Rightarrow> 'k \<Rightarrow> uint32 \<times> 'k" where
  "umka_sys_load_cursor_from_file K fname = call_eax K (regs3 37 (Num 4) (Str fname) (Num 0))"

definition umka_sys_load_cursor_from_mem :: "'k kernel \<Rightarrow> regval \<Rightarrow> 'k \<Rightarrow> uint32 \<times> 'k" where
  "umka_sys_load_cursor_from_mem K data = call_eax K (regs3 37 (Num 4) data (Num 1))"

definition umka_sys_set_cursor :: "'k kernel \<Rightarrow> uint32 \<Rightarrow> 'k \<Rightarrow> uint32 \<times> 'k" where
  "umka_sys_set_cursor K handle = call_eax K (regs2 37 (Num 5) (Num handle))"

abbreviation (input) KOS_LAYOUT_SIZE :: nat where "KOS_LAYOUT_SIZE \<equiv> 128"

definition umka_sys_set_keyboard_layout :: "'k kernel \<Rightarrow> uint32 \<Rightarrow> regval \<Rightarrow> 'k \<Rightarrow> uint32 \<times> 'k" where
  "umka_sys_set_keyboard_layout K type layout = call_eax K (regs3 21 (Num 2) (Num type) layout)"

definition umka_sys_set_keyboard_lang :: "'k kernel \<Rightarrow> uint32 \<Rightarrow> 'k \<Rightarrow> uint32 \<times> 'k" where
  "umka_sys_set_keyboard_lang K lang_id = call_eax K (regs3 21 (Num 2) (Num 9) (Num lang_id))"

definition umka_sys_set_system_lang :: "'k kernel \<Rightarrow> uint32 \<Rightarrow> 'k \<Rightarrow> uint32 \<times> 'k" where
  "umka_sys_set_system_lang K lang_id = call_eax K (regs2 21 (Num 5) (Num lang_id))"

definition umka_sys_get_keyboard_layout :: "'k kernel \<Rightarrow> uint32 \<Rightarrow> regval \<Rightarrow> 'k \<Rightarrow> byte list \<times> 'k" where
  "umka_sys_get_keyboard_layout K type layout = call_mem K (regs3 26 (Num 2) (Num type) layout)"

definition umka_sys_get_keyboard_lang :: "'k kernel \<Rightarrow> 'k \<Rightarrow> uint32 \<times> 'k" where
  "umka_sys_get_keyboard_lang K = call_eax K (regs2 26 (Num 2) (Num 9))"

definition umka_sys_get_system_lang :: "'k kernel \<Rightarrow> 'k \<Rightarrow> uint32 \<times> 'k" where
  "umka_sys_get_system_lang K = call_eax K (regs1 26 (Num 5))"

definition umka_sys_set_keyboard_mode :: "'k kernel \<Rightarrow> uint32 \<Rightarrow> 'k \<Rightarrow> 'k" where
  "umka_sys_set_keyboard_mode K mode = call_void K (regs2 66 (Num 1) (Num mode))"

definition umka_sys_get_keyboard_mode :: "'k kernel \<Rightarrow> 'k \<Rightarrow> uint32 \<times> 'k" where
  "umka_sys_get_keyboard_mode K = call_eax K (regs1 66 (Num 2))"

section \<open>Directories, skin and fonts\<close>

definition umka_sys_set_cwd :: "'k kernel \<Rightarrow> string \<Rightarrow> 'k \<Rightarrow> 'k" where
  "umka_sys_set_cwd K dir = call_void K (regs2 30 (Num 1) (Str dir))"

definition umka_sys_get_cwd :: "'k kernel \<Rightarrow> regval \<Rightarrow> uint32 \<Rightarrow> 'k \<Rightarrow> byte list \<times> 'k" where
  "umka_sys_get_cwd K buf len = call_mem K (regs3 30 (Num 2) buf (Num len))"

definition umka_sys_set_button_style :: "'k kernel \<Rightarrow> uint32 \<Rightarrow> 'k \<Rightarrow> 'k" where
  "umka_sys_set_button_style K style = call_void K (regs2 48 (Num 1) (Num style))"

definition umka_sys_set_window_colors :: "'k kernel \<Rightarrow> regval \<Rightarrow> 'k \<Rightarrow> 'k" where
  "umka_sys_set_window_colors K colors = call_void K (regs3 48 (Num 2) colors (Num 40))"

definition umka_sys_get_window_colors :: "'k kernel \<Rightarrow> regval \<Rightarrow> 'k \<Rightarrow> byte list \<times> 'k" where
  "umka_sys_get_window_colors K colors = call_mem K (regs3 48 (Num 3) colors (Num 40))"

definition umka_sys_get_skin_height :: "'k kernel \<Rightarrow> 'k \<Rightarrow> uint32 \<times> 'k" where
  "umka_sys_get_skin_height K = call_eax K (regs1 48 (Num 4))"

record rect_t =
  r_left :: uint32
  r_top :: uint32
  r_right :: uint32
  r_bottom :: uint32

text \<open>The four edges as two registers hold them.\<close>

definition unpack_rect :: "uint32 \<times> uint32 \<Rightarrow> rect_t" where
  "unpack_rect = (\<lambda>(a, b). \<lparr>r_left = shr a 16, r_top = shr b 16, r_right = a AND 0xffff, r_bottom = b AND 0xffff\<rparr>)"

definition umka_sys_get_screen_area :: "'k kernel \<Rightarrow> 'k \<Rightarrow> rect_t \<times> 'k" where
  "umka_sys_get_screen_area K k = (let (ab, k') = call_eax_ebx K (regs1 48 (Num 5)) k in
     (unpack_rect ab, k'))"

definition umka_sys_set_screen_area :: "'k kernel \<Rightarrow> rect_t \<Rightarrow> 'k \<Rightarrow> 'k" where
  "umka_sys_set_screen_area K wa =
     call_void K (regs3 48 (Num 6) (Num (shl (r_left wa) 16 + r_right wa)) (Num (shl (r_top wa) 16 + r_bottom wa)))"

definition umka_sys_get_skin_margins :: "'k kernel \<Rightarrow> 'k \<Rightarrow> rect_t \<times> 'k" where
  "umka_sys_get_skin_margins K k = (let (ab, k') = call_eax_ebx K (regs1 48 (Num 7)) k in
     (unpack_rect ab, k'))"

definition umka_sys_set_skin :: "'k kernel \<Rightarrow> string \<Rightarrow> 'k \<Rightarrow> uint32 \<times> 'k" where
  "umka_sys_set_skin K path = call_eax K (regs2 48 (Num 8) (Str path))"

definition umka_sys_get_font_smoothing :: "'k kernel \<Rightarrow> 'k \<Rightarrow> uint32 \<times> 'k" where
  "umka_sys_get_font_smoothing K = call_eax K (regs1 48 (Num 9))"

definition umka_sys_set_font_smoothing :: "'k kernel \<Rightarrow> uint32 \<Rightarrow> 'k \<Rightarrow> 'k" where
  "umka_sys_set_font_smoothing K type = call_void K (regs2 48 (Num 10) (Num type))"

definition umka_sys_get_font_size :: "'k kernel \<Rightarrow> 'k \<Rightarrow> uint32 \<times> 'k" where
  "umka_sys_get_font_size K = call_eax K (regs1 48 (Num 11))"

definition umka_sys_set_font_size :: "'k kernel \<Rightarrow> uint32 \<Rightarrow> 'k \<Rightarrow> 'k" where
  "umka_sys_set_font_size K sz = call_void K (regs2 48 (Num 12) (Num sz))"

section \<open>Debug board, heap and files\<close>

text \<open>A \<^verbatim>\<open>char\<close> is signed, so it is sign-extended into the register.\<close>

definition umka_sys_board_put :: "'k kernel \<Rightarrow> char \<Rightarrow> 'k \<Rightarrow> 'k" where
  "umka_sys_board_put K c = call_void K (regs2 63 (Num 1) (Num (scast (of_char c :: uint8))))"

record board_get_ret =
  board_value :: uint32
  board_status :: uint32

definition umka_sys_board_get :: "'k kernel \<Rightarrow> 'k \<Rightarrow> board_get_ret \<times> 'k" where
  "umka_sys_board_get K k = (let ((a, b), k') = call_eax_ebx K (regs1 63 (Num 2)) k in
     (\<lparr>board_value = a, board_status = b\<rparr>, k'))"

definition umka_sys_load_dll :: "'k kernel \<Rightarrow> string \<Rightarrow> 'k \<Rightarrow> uint32 \<times> 'k" where
  "umka_sys_load_dll K fname = call_eax K (regs2 68 (Num 19) (Str fname))"

definition kos_sys_misc_init_heap :: "'k kernel \<Rightarrow> 'k \<Rightarrow> uint32 \<times> 'k" where
  "kos_sys_misc_init_heap K = call_eax K (regs1 68 (Num 11))"

text \<open>The address and the size of the loaded file, with the bytes found at that address.\<close>

record sys_load_file_ret =
  fdata :: uint32
  fsize :: uint32
  fbytes :: "byte list"

definition kos_sys_misc_load_file :: "'k kernel \<Rightarrow> string \<Rightarrow> 'k \<Rightarrow> sys_load_file_ret \<times> 'k" where
  "kos_sys_misc_load_file K fname k = (let (x, k') = i40 K (regs2 68 (Num 27) (Str fname)) k in
     (\<lparr>fdata = ret_eax x, fsize = ret_edx x, fbytes = ret_mem x\<rparr>, k'))"

datatype f70or80_t = F70 | F80

fun f70or80_num :: "f70or80_t \<Rightarrow> uint32" where
  "f70or80_num F70 = 70"
| "f70or80_num F80 = 80"

record f7080ret_t =
  lfn_status :: uint32
  lfn_count :: uint32
  lfn_data :: "byte list"

definition umka_sys_lfn :: "'k kernel \<Rightarrow> lfn_arg \<Rightarrow> f70or80_t \<Rightarrow> 'k \<Rightarrow> f7080ret_t \<times> 'k" where
  "umka_sys_lfn K arg f k = (let (x, k') = i40 K (regs1 (f70or80_num f) (Lfn arg)) k in
     (\<lparr>lfn_status = ret_eax x, lfn_count = ret_ebx x, lfn_data = ret_mem x\<rparr>, k'))"

section \<open>Network\<close>

definition umka_sys_net_get_dev_count :: "'k kernel \<Rightarrow> 'k \<Rightarrow> uint32 \<times> 'k" where
  "umka_sys_net_get_dev_count K = call_eax K (regs1 74 (Num 255))"

text \<open>Function 74 takes the device in bits 8 to 15 and the subfunction below it.\<close>

definition f74 :: "uint8 \<Rightarrow> uint32 \<Rightarrow> regval" where
  "f74 dev_num sf = Num (shl (ucast dev_num) 8 + sf)"

definition umka_sys_net_get_dev_type :: "'k kernel \<Rightarrow> uint8 \<Rightarrow> 'k \<Rightarrow> uint32 \<times> 'k" where
  "umka_sys_net_get_dev_type K dev_num = call_eax K (regs1 74 (f74 dev_num 0))"

definition umka_sys_net_get_dev_name :: "'k kernel \<Rightarrow> uint8 \<Rightarrow> regval \<Rightarrow> 'k \<Rightarrow> (uint32 \<times> byte list) \<times> 'k" where
  "umka_sys_net_get_dev_name K dev_num name k = (let (x, k') = i40 K (regs2 74 (f74 dev_num 1) name) k in
     ((ret_eax x, ret_mem x), k'))"

definition umka_sys_net_dev_reset :: "'k kernel \<Rightarrow> uint8 \<Rightarrow> 'k \<Rightarrow> uint32 \<times> 'k" where
  "umka_sys_net_dev_reset K dev_num = call_eax K (regs1 74 (f74 dev_num 2))"

definition umka_sys_net_dev_stop :: "'k kernel \<Rightarrow> uint8 \<Rightarrow> 'k \<Rightarrow> uint32 \<times> 'k" where
  "umka_sys_net_dev_stop K dev_num = call_eax K (regs1 74 (f74 dev_num 3))"

definition umka_sys_net_get_dev :: "'k kernel \<Rightarrow> uint8 \<Rightarrow> 'k \<Rightarrow> uint32 \<times> 'k" where
  "umka_sys_net_get_dev K dev_num = call_eax K (regs1 74 (f74 dev_num 4))"

definition umka_sys_net_get_packet_tx_count :: "'k kernel \<Rightarrow> uint8 \<Rightarrow> 'k \<Rightarrow> uint32 \<times> 'k" where
  "umka_sys_net_get_packet_tx_count K dev_num = call_eax K (regs1 74 (f74 dev_num 6))"

definition umka_sys_net_get_packet_rx_count :: "'k kernel \<Rightarrow> uint8 \<Rightarrow> 'k \<Rightarrow> uint32 \<times> 'k" where
  "umka_sys_net_get_packet_rx_count K dev_num = call_eax K (regs1 74 (f74 dev_num 7))"

definition umka_sys_net_get_byte_tx_count :: "'k kernel \<Rightarrow> uint8 \<Rightarrow> 'k \<Rightarrow> uint32 \<times> 'k" where
  "umka_sys_net_get_byte_tx_count K dev_num = call_eax K (regs1 74 (f74 dev_num 8))"

definition umka_sys_net_get_byte_rx_count :: "'k kernel \<Rightarrow> uint8 \<Rightarrow> 'k \<Rightarrow> uint32 \<times> 'k" where
  "umka_sys_net_get_byte_rx_count K dev_num = call_eax K (regs1 74 (f74 dev_num 9))"

definition umka_sys_net_get_link_status :: "'k kernel \<Rightarrow> uint8 \<Rightarrow> 'k \<Rightarrow> uint32 \<times> 'k" where
  "umka_sys_net_get_link_status K dev_num = call_eax K (regs1 74 (f74 dev_num 10))"

text \<open>Socket calls answer with a value and an error code.\<close>

definition umka_sys_net_open_socket :: "'k kernel \<Rightarrow> uint32 \<Rightarrow> uint32 \<Rightarrow> uint32 \<Rightarrow> 'k \<Rightarrow> (uint32 \<times> uint32) \<times> 'k" where
  "umka_sys_net_open_socket K domain type protocol =
     call_eax_ebx K (regs4 75 (Num 0) (Num domain) (Num type) (Num protocol))"

definition umka_sys_net_close_socket :: "'k kernel \<Rightarrow> uint32 \<Rightarrow> 'k \<Rightarrow> (uint32 \<times> uint32) \<times> 'k" where
  "umka_sys_net_close_socket K fd = call_eax_ebx K (regs2 75 (Num 1) (Num fd))"

definition umka_sys_net_bind :: "'k kernel \<Rightarrow> uint32 \<Rightarrow> regval \<Rightarrow> uint32 \<Rightarrow> 'k \<Rightarrow> (uint32 \<times> uint32) \<times> 'k" where
  "umka_sys_net_bind K fd sockaddr sockaddr_len =
     call_eax_ebx K (regs4 75 (Num 2) (Num fd) sockaddr (Num sockaddr_len))"

definition umka_sys_net_listen :: "'k kernel \<Rightarrow> uint32 \<Rightarrow> uint32 \<Rightarrow> 'k \<Rightarrow> (uint32 \<times> uint32) \<times> 'k" where
  "umka_sys_net_listen K fd backlog = call_eax_ebx K (regs3 75 (Num 3) (Num fd) (Num backlog))"

definition umka_sys_net_connect :: "'k kernel \<Rightarrow> uint32 \<Rightarrow> regval \<Rightarrow> uint32 \<Rightarrow> 'k \<Rightarrow> (uint32 \<times> uint32) \<times> 'k" where
  "umka_sys_net_connect K fd sockaddr sockaddr_len =
     call_eax_ebx K (regs4 75 (Num 4) (Num fd) sockaddr (Num sockaddr_len))"

definition umka_sys_net_accept :: "'k kernel \<Rightarrow> uint32 \<Rightarrow> regval \<Rightarrow> uint32 \<Rightarrow> 'k \<Rightarrow> (uint32 \<times> uint32) \<times> 'k" where
  "umka_sys_net_accept K fd sockaddr sockaddr_len =
     call_eax_ebx K (regs4 75 (Num 5) (Num fd) sockaddr (Num sockaddr_len))"

definition umka_sys_net_send :: "'k kernel \<Rightarrow> uint32 \<Rightarrow> regval \<Rightarrow> uint32 \<Rightarrow> uint32 \<Rightarrow> 'k
    \<Rightarrow> (uint32 \<times> uint32) \<times> 'k" where
  "umka_sys_net_send K fd buf buf_len flags =
     call_eax_ebx K (regs5 75 (Num 6) (Num fd) buf (Num buf_len) (Num flags))"

definition umka_sys_net_receive :: "'k kernel \<Rightarrow> uint32 \<Rightarrow> regval \<Rightarrow> uint32 \<Rightarrow> uint32 \<Rightarrow> 'k
    \<Rightarrow> (uint32 \<times> uint32) \<times> 'k" where
  "umka_sys_net_receive K fd buf buf_len flags =
     call_eax_ebx K (regs5 75 (Num 7) (Num fd) buf (Num buf_len) (Num flags))"

text \<open>Function 76 takes the protocol above bit 16; the device is a full word here, not a byte.\<close>

definition f76 :: "uint32 \<Rightarrow> uint32 \<Rightarrow> uint32 \<Rightarrow> regval" where
  "f76 proto dev_num sf = Num (shl proto 16 + shl dev_num 8 + sf)"

definition umka_sys_net_eth_read_mac :: "'k kernel \<Rightarrow> uint32 \<Rightarrow> 'k \<Rightarrow> (uint32 \<times> uint32) \<times> 'k" where
  "umka_sys_net_eth_read_mac K dev_num = call_eax_ebx K (regs1 76 (f76 0 dev_num 0))"

definition umka_sys_net_ipv4_get_addr :: "'k kernel \<Rightarrow> uint32 \<Rightarrow> 'k \<Rightarrow> (uint32 \<times> uint32) \<times> 'k" where
  "umka_sys_net_ipv4_get_addr K dev_num = call_eax_ebx K (regs1 76 (f76 1 dev_num 2))"

definition umka_sys_net_ipv4_set_addr :: "'k kernel \<Rightarrow> uint32 \<Rightarrow> uint32 \<Rightarrow> 'k \<Rightarrow> (uint32 \<times> uint32) \<times> 'k" where
  "umka_sys_net_ipv4_set_addr K dev_num addr = call_eax_ebx K (regs2 76 (f76 1 dev_num 3) (Num addr))"

definition umka_sys_net_ipv4_get_dns :: "'k kernel \<Rightarrow> uint32 \<Rightarrow> 'k \<Rightarrow> (uint32 \<times> uint32) \<times> 'k" where
  "umka_sys_net_ipv4_get_dns K dev_num = call_eax_ebx K (regs1 76 (f76 1 dev_num 4))"

definition umka_sys_net_ipv4_set_dns :: "'k kernel \<Rightarrow> uint32 \<Rightarrow> uint32 \<Rightarrow> 'k \<Rightarrow> (uint32 \<times> uint32) \<times> 'k" where
  "umka_sys_net_ipv4_set_dns K dev_num dns = call_eax_ebx K (regs2 76 (f76 1 dev_num 5) (Num dns))"

definition umka_sys_net_ipv4_get_subnet :: "'k kernel \<Rightarrow> uint32 \<Rightarrow> 'k \<Rightarrow> (uint32 \<times> uint32) \<times> 'k" where
  "umka_sys_net_ipv4_get_subnet K dev_num = call_eax_ebx K (regs1 76 (f76 1 dev_num 6))"

definition umka_sys_net_ipv4_set_subnet :: "'k kernel \<Rightarrow> uint32 \<Rightarrow> uint32 \<Rightarrow> 'k \<Rightarrow> (uint32 \<times> uint32) \<times> 'k" where
  "umka_sys_net_ipv4_set_subnet K dev_num subnet = call_eax_ebx K (regs2 76 (f76 1 dev_num 7) (Num subnet))"

definition umka_sys_net_ipv4_get_gw :: "'k kernel \<Rightarrow> uint32 \<Rightarrow> 'k \<Rightarrow> (uint32 \<times> uint32) \<times> 'k" where
  "umka_sys_net_ipv4_get_gw K dev_num = call_eax_ebx K (regs1 76 (f76 1 dev_num 8))"

definition umka_sys_net_ipv4_set_gw :: "'k kernel \<Rightarrow> uint32 \<Rightarrow> uint32 \<Rightarrow> 'k \<Rightarrow> (uint32 \<times> uint32) \<times> 'k" where
  "umka_sys_net_ipv4_set_gw K dev_num gw = call_eax_ebx K (regs2 76 (f76 1 dev_num 9) (Num gw))"

definition umka_sys_net_arp_get_count :: "'k kernel \<Rightarrow> uint32 \<Rightarrow> 'k \<Rightarrow> (uint32 \<times> uint32) \<times> 'k" where
  "umka_sys_net_arp_get_count K dev_num = call_eax_ebx K (regs1 76 (f76 5 dev_num 2))"

definition umka_sys_net_arp_get_entry :: "'k kernel \<Rightarrow> uint32 \<Rightarrow> uint32 \<Rightarrow> regval \<Rightarrow> 'k
    \<Rightarrow> (uint32 \<times> byte list) \<times> 'k" where
  "umka_sys_net_arp_get_entry K dev_num arp_num buf k =
     (let (x, k') = i40 K ((regs2 76 (f76 5 dev_num 3) (Num arp_num))\<lparr>edi := Some buf\<rparr>) k in
      ((ret_eax x, ret_mem x), k'))"

definition umka_sys_net_arp_add_entry :: "'k kernel \<Rightarrow> uint32 \<Rightarrow> regval \<Rightarrow> 'k \<Rightarrow> (uint32 \<times> uint32) \<times> 'k" where
  "umka_sys_net_arp_add_entry K dev_num buf =
     call_eax_ebx K ((regs1 76 (f76 5 dev_num 4))\<lparr>esi := Some buf\<rparr>)"

definition umka_sys_net_arp_del_entry :: "'k kernel \<Rightarrow> uint32 \<Rightarrow> uint32 \<Rightarrow> 'k \<Rightarrow> (uint32 \<times> uint32) \<times> 'k" where
  "umka_sys_net_arp_del_entry K dev_num arp_num = call_eax_ebx K (regs2 76 (f76 5 dev_num 5) (Num arp_num))"
end
