(* ===== verification/Vnet.thy ===== *)
theory Vnet
  imports UmkaIO Syscalls
begin

unbundle bit_operations_syntax

text \<open>
  The virtual network card: \<^verbatim>\<open>vnet.c\<close>, its back ends \<^verbatim>\<open>vnet/null.c\<close>, \<^verbatim>\<open>vnet/file.c\<close> and
  \<^verbatim>\<open>linux/vnet/tap.c\<close>. A monitor thread reads frames from the back end into the card's one input
  buffer and raises the network interrupt; the interrupt handler copies the buffer into a network
  buffer of the kernel and passes it to the kernel's Ethernet input. The results of the \<^verbatim>\<open>ioctl\<close>
  calls that configure a tap interface are an argument. What is printed on the standard error
  stream is not modelled.
\<close>

section \<open>Data\<close>

datatype vnet_type = VNET_DEVTYPE_NULL | VNET_DEVTYPE_FILE | VNET_DEVTYPE_TAP

datatype vnet_fn = Vnet_null | Vnet_file | Vnet_tap

record net_device =
  device_type :: uint32
  mtu :: uint32
  nd_name :: string
  unload :: vnet_fn
  reset :: vnet_fn
  transmit :: vnet_fn
  link_state :: uint32
  hwacc :: uint32
  bytes_tx :: uint64
  bytes_rx :: uint64
  packets_tx :: uint32
  packets_tx_err :: uint32
  packets_tx_drop :: uint32
  packets_tx_ovr :: uint32
  packets_rx :: uint32
  packets_rx_err :: uint32
  packets_rx_drop :: uint32
  packets_rx_ovr :: uint32

abbreviation (input) NET_BUFFER_SIZE :: nat where "NET_BUFFER_SIZE \<equiv> 2048"
abbreviation (input) NET_BUFF_DATA :: nat where "NET_BUFF_DATA \<equiv> 24"
abbreviation (input) VNET_BUFIN_CAP :: nat where "VNET_BUFIN_CAP \<equiv> 2024"
abbreviation (input) sizeof_vnet :: nat where "sizeof_vnet \<equiv> 2132"
abbreviation (input) UMKA_IRQ_NETWORK :: uint32 where "UMKA_IRQ_NETWORK \<equiv> 15"
abbreviation (input) NET_TYPE_ETH :: uint32 where "NET_TYPE_ETH \<equiv> 1"
abbreviation (input) ETH_LINK_DOWN :: uint32 where "ETH_LINK_DOWN \<equiv> 0"
abbreviation (input) ETH_LINK_UNKNOWN :: uint32 where "ETH_LINK_UNKNOWN \<equiv> 1"
abbreviation (input) ETH_LINK_FD :: uint32 where "ETH_LINK_FD \<equiv> 2"
abbreviation (input) ETH_LINK_10M :: uint32 where "ETH_LINK_10M \<equiv> 4"
abbreviation (input) ETH_LINK_100M :: uint32 where "ETH_LINK_100M \<equiv> 8"
abbreviation (input) ETH_LINK_1G :: uint32 where "ETH_LINK_1G \<equiv> 12"

text \<open>
  The length of the input is not set before the first read; \<^verbatim>\<open>monitored\<close> says that the thread that
  reads the input has been started.
\<close>

record vnet =
  net :: net_device
  mac :: "byte list"
  bufin :: "byte list"
  bufin_len :: "uint32 option"
  fdin :: int
  fdout :: int
  input_processed :: bool
  monitored :: bool

text \<open>A network buffer of the kernel, as the card fills it.\<close>

record net_buff_t =
  nb_data :: "byte list"
  nb_length :: uint32
  nb_offset :: uint32

text \<open>Which of the steps that set up a tap interface succeed.\<close>

record tap_env =
  tap_open :: bool
  ioctl_TUNSETIFF :: bool
  ioctl_SIOCSIFHWADDR :: bool
  ioctl_SIOCSIFADDR :: bool
  ioctl_SIOCSIFNETMASK :: bool
  ioctl_SIOCGIFFLAGS :: bool
  ioctl_SIOCSIFFLAGS :: bool

section \<open>Back ends\<close>

text \<open>
  A fresh card: what \<^verbatim>\<open>malloc\<close> returned, with the fields every back end sets alike. The link state
  and the counters, which \<^verbatim>\<open>vnet_init\<close> sets afterwards, are zero until then.
\<close>

definition vnet_alloc :: "mem \<Rightarrow> string \<Rightarrow> vnet_fn \<Rightarrow> int \<Rightarrow> int \<Rightarrow> vnet res" where
  "vnet_alloc m nm fn fi fo =
     (if malloc_ok m sizeof_vnet \<and> malloc_ok m 8 then Inr
        \<lparr>net = \<lparr>device_type = NET_TYPE_ETH, mtu = 1514, nd_name = nm, unload = fn, reset = fn, transmit = fn,
           link_state = 0, hwacc = 0, bytes_tx = 0, bytes_rx = 0, packets_tx = 0, packets_tx_err = 0,
           packets_tx_drop = 0, packets_tx_ovr = 0, packets_rx = 0, packets_rx_err = 0,
           packets_rx_drop = 0, packets_rx_ovr = 0\<rparr>,
         mac = [0x80, 0x2b, 0xf9, 0x3b, 0x6c, 0xca], bufin = junk m VNET_BUFIN_CAP, bufin_len = None,
         fdin = fi, fdout = fo, input_processed = True, monitored = False\<rparr>
      else Inl Null_deref)"

definition vnet_init_null :: "mem \<Rightarrow> world \<Rightarrow> (vnet option \<times> world) res" where
  "vnet_init_null m w = rbind (vnet_alloc m ''UMKNUL0'' Vnet_null 0 0) (\<lambda>v. Inr (Some v, w))"

definition host_open_wronly :: "'a host_scheme \<Rightarrow> string \<Rightarrow> int \<times> 'a host_scheme" where
  "host_open_wronly h fname = (case h_files h fname of None \<Rightarrow> (- 1, h)
     | Some bs \<Rightarrow> (case alloc_fd h of None \<Rightarrow> (- 1, h)
        | Some n \<Rightarrow> (int n, h\<lparr>h_fds := (h_fds h)(int n \<mapsto>
            \<lparr>fcontent = bs, fpos = 0, ferr = fname \<in> set (h_badfiles h), fwritable = True\<rparr>)\<rparr>)))"

definition FDIN_PATH :: string where "FDIN_PATH = ''/path/to/fdin''"

definition vnet_init_file :: "mem \<Rightarrow> world \<Rightarrow> (vnet option \<times> world) res" where
  "vnet_init_file m w = (let (fi, w1) = host_open_rdonly w FDIN_PATH in
     if fi < 0 then Inr (None, w1)
     else let (fo, w2) = host_open_wronly w1 FDIN_PATH in
       if fo < 0 then Inr (None, w2)
       else rbind (vnet_alloc m ''UMKFIL0'' Vnet_file fi fo) (\<lambda>v. Inr (Some v, w2)))"

text \<open>The tap device is a descriptor that is closed again when a later step fails.\<close>

definition vnet_init_tap :: "mem \<Rightarrow> tap_env \<Rightarrow> world \<Rightarrow> (vnet option \<times> world) res" where
  "vnet_init_tap m t w = (case alloc_fd w of None \<Rightarrow> Inr (None, w)
     | Some n \<Rightarrow>
         if \<not> tap_open t then Inr (None, w)
         else if \<not> ioctl_TUNSETIFF t \<or> \<not> ioctl_SIOCSIFHWADDR t \<or> \<not> ioctl_SIOCSIFADDR t
             \<or> \<not> ioctl_SIOCSIFNETMASK t \<or> \<not> ioctl_SIOCGIFFLAGS t \<or> \<not> ioctl_SIOCSIFFLAGS t
         then Inr (None, w)
         else rbind (vnet_alloc m ''UMKTAP0'' Vnet_tap (int n) (int n)) (\<lambda>v.
           Inr (Some v, w\<lparr>h_fds := (h_fds w)(int n \<mapsto>
             \<lparr>fcontent = [], fpos = 0, ferr = False, fwritable = True\<rparr>)\<rparr>)))"

section \<open>The card\<close>

definition net_zero :: "net_device \<Rightarrow> net_device" where
  "net_zero d = d\<lparr>link_state := ETH_LINK_FD + ETH_LINK_10M, hwacc := 0, bytes_tx := 0, bytes_rx := 0,
     packets_tx := 0, packets_tx_err := 0, packets_tx_drop := 0, packets_tx_ovr := 0,
     packets_rx := 0, packets_rx_err := 0, packets_rx_drop := 0, packets_rx_ovr := 0\<rparr>"

text \<open>
  The card is registered with the kernel as the argument of the interrupt handler; \<^verbatim>\<open>addr\<close> is the
  number that stands for its address.
\<close>

definition vnet_init :: "'k kernel \<Rightarrow> mem \<Rightarrow> tap_env \<Rightarrow> uint32 \<Rightarrow> int \<Rightarrow> world \<Rightarrow> 'k \<Rightarrow> vnet_type
    \<Rightarrow> (vnet option \<times> world \<times> 'k) res" where
  "vnet_init K m t addr running w k type = rbind
     (case type of VNET_DEVTYPE_NULL \<Rightarrow> vnet_init_null m w
        | VNET_DEVTYPE_FILE \<Rightarrow> vnet_init_file m w
        | VNET_DEVTYPE_TAP \<Rightarrow> vnet_init_tap m t w)
     (\<lambda>(v, w1). case v of None \<Rightarrow> Inr (None, w1, k)
        | Some d \<Rightarrow> Inr (Some (d\<lparr>net := net_zero (net d), monitored := running \<noteq> UMKA_RUNNING_NEVER\<rparr>), w1,
            snd (kos K ''kos_attach_int_handler'' [Num UMKA_IRQ_NETWORK, Fun ''vnet_input'', Num addr] k)))"

text \<open>One turn of the monitor: what \<^verbatim>\<open>read\<close> returned, -1 included, becomes the length.\<close>

definition vnet_input_monitor :: "vnet \<Rightarrow> world \<Rightarrow> vnet \<times> world" where
  "vnet_input_monitor v w = (let (nread, d, w1) = host_read w (fdin v) (of_nat VNET_BUFIN_CAP) in
     (v\<lparr>bufin := d @ drop (length d) (bufin v), input_processed := False,
        bufin_len := Some (word_of_int nread)\<rparr>, w1))"

text \<open>
  The interrupt handler. The kernel's allocator is entered under its name and gives null or the
  buffer; the filled buffer goes to \<^verbatim>\<open>kos_eth_input\<close>.
\<close>

definition vnet_input :: "'k kernel \<Rightarrow> mem \<Rightarrow> vnet \<Rightarrow> 'k \<Rightarrow> (net_buff_t option \<times> vnet \<times> 'k) res" where
  "vnet_input K m v k = (let (b, k1) = kos K ''kos_net_buff_alloc'' [Num (of_nat NET_BUFFER_SIZE)] k in
     if b = 0 then Inr (None, v, k1)
     else case bufin_len v of None \<Rightarrow> Inl Uninitialised
     | Some n \<Rightarrow>
         rbind (slice (bufin v) 0 (unat n)) (\<lambda>d.
         rbind (blit (junk m (NET_BUFFER_SIZE - NET_BUFF_DATA)) d) (\<lambda>bd.
           let nb = \<lparr>nb_data = bd, nb_length = n, nb_offset = of_nat NET_BUFF_DATA\<rparr> in
           Inr (Some nb, v\<lparr>input_processed := True\<rparr>, snd (kos K ''kos_eth_input'' [Num b, InBuf d] k1)))))"

text \<open>The three transmit functions: write the frame to the back end, if it has one, and empty the buffer.\<close>

definition vnet_transmit_null :: "net_buff_t \<Rightarrow> world \<Rightarrow> net_buff_t \<times> world" where
  "vnet_transmit_null b w = (b\<lparr>nb_length := 0\<rparr>, w)"

definition vnet_transmit_tap :: "vnet \<Rightarrow> net_buff_t \<Rightarrow> world \<Rightarrow> (net_buff_t \<times> world) res" where
  "vnet_transmit_tap v b w = rbind (slice (nb_data b) 0 (unat (nb_length b))) (\<lambda>d.
     Inr (b\<lparr>nb_length := 0\<rparr>, snd (host_write w (fdout v) d)))"

definition vnet_transmit_file :: "vnet \<Rightarrow> net_buff_t \<Rightarrow> world \<Rightarrow> (string \<times> net_buff_t \<times> world) res" where
  "vnet_transmit_file v b w = rbind (slice (nb_data b) 0 (unat (nb_length b))) (\<lambda>d.
     Inr (''vnet_transmit: '' @ fmt_d (nb_length b) @ '' bytes'' @ [CHR 0x0A]
          @ concat (map (\<lambda>x. prec 2 (fmt_x x) @ '' '') d) @ [CHR 0x0A]
          @ ''vnet_transmit: done'' @ [CHR 0x0A],
        b\<lparr>nb_length := 0\<rparr>, snd (host_write w (fdout v) d)))"

end
