(* ===== verification/Usage.thy ===== *)
theory Usage
  imports Libc
begin

text \<open>
  The usage texts of the shell commands, as the handlers of \<^verbatim>\<open>shell.c\<close> have them in their local
  constants \<^verbatim>\<open>usage\<close>. A handler prints its text when it is called with a wrong number of
  arguments; \<^verbatim>\<open>help\<close> relies on that.
\<close>

definition usage_var :: string where
  "usage_var =
     ''usage: var <$name>\<newline>'' @
     ''  $name            variable name, must start with $ sign\<newline>''"

definition usage_send_scancode :: string where
  "usage_send_scancode =
     ''usage: send_scancode <code>...\<newline>'' @
     ''  code             dec or hex number\<newline>''"

definition usage_umka_boot :: string where
  "usage_umka_boot =
     ''usage: umka_boot\<newline>''"

definition usage_umka_set_boot_params :: string where
  "usage_umka_set_boot_params =
     ''usage: umka_set_boot_params [--x_res <num>] [--y_res <num>]\<newline>'' @
     ''  --x_res <num>    screen width\<newline>'' @
     ''  --y_res <num>    screen height\<newline>'' @
     ''  --bpp <num>      screen bits per pixel\<newline>'' @
     ''  --pitch <num>    screen line length in bytes\<newline>''"

definition usage_csleep :: string where
  "usage_csleep =
     ''usage: csleep\<newline>''"

definition usage_wait_for_idle :: string where
  "usage_wait_for_idle =
     ''usage: wait_for_idle\<newline>''"

definition usage_wait_for_os_idle :: string where
  "usage_wait_for_os_idle =
     ''usage: wait_for_os_idle\<newline>''"

definition usage_wait_for_window :: string where
  "usage_wait_for_window =
     ''usage: wait_for_window <window_title>\<newline>''"

definition usage_i40 :: string where
  "usage_i40 =
     ''usage: i40 <eax> [ebx [ecx [edx [esi [edi [ebp]]]]]]...\<newline>'' @
     ''  see '' @
     [CHR 0x27] @
     ''/kernel/docs/sysfuncs.txt'' @
     [CHR 0x27] @
     '' for details\<newline>''"

definition usage_ramdisk_init :: string where
  "usage_ramdisk_init =
     ''usage: ramdisk_init <file>\<newline>'' @
     ''  <file>           absolute or relative path\<newline>''"

definition usage_disk_add :: string where
  "usage_disk_add =
     ''usage: disk_add <file> <name> [option]...\<newline>'' @
     ''  <file>           absolute or relative path\<newline>'' @
     ''  <name>           disk name, e.g. hd0 or rd\<newline>'' @
     ''  -c cache size    size of disk cache in bytes\<newline>''"

definition usage_disk_del :: string where
  "usage_disk_del =
     ''usage: disk_del <name>\<newline>'' @
     ''  name             disk name, i.e. rd or hd0\<newline>''"

definition usage_pwd :: string where
  "usage_pwd =
     ''usage: pwd\<newline>''"

definition usage_set_pixel :: string where
  "usage_set_pixel =
     ''usage: set_pixel <x> <y> <color> [-i]\<newline>'' @
     ''  x                x window coordinate\<newline>'' @
     ''  y                y window coordinate\<newline>'' @
     ''  color            argb in hex\<newline>'' @
     ''  -i               inverted color\<newline>''"

definition usage_write_text :: string where
  "usage_write_text =
     ''usage: write_text <x> <y> <color> <string> <asciiz> <fill_bg> <font_and_enc> <draw_to_buf> <scale_factor> <length> <bg_color_or_buf>\<newline>'' @
     ''  x                x window coordinate\<newline>'' @
     ''  y                y window coordinate\<newline>'' @
     ''  color            argb in hex\<newline>'' @
     ''  string           escape spaces\<newline>'' @
     ''  asciiz           1 if the string is zero-terminated\<newline>'' @
     ''  fill_bg          fill text background with specified color\<newline>'' @
     ''  font_and_enc     font size and string encoding\<newline>'' @
     ''  draw_to_buf      draw to the buffer pointed to by the next param\<newline>'' @
     ''  length           length of the string if it is non-asciiz\<newline>'' @
     ''  bg_color_or_buf  argb or pointer\<newline>''"

definition usage_get_key :: string where
  "usage_get_key =
     ''usage: get_key\<newline>''"

definition usage_dump_key_buff :: string where
  "usage_dump_key_buff =
     ''usage: dump_key_buff [count]\<newline>'' @
     ''  count            how many items to dump (all by default)\<newline>''"

definition usage_dump_win_stack :: string where
  "usage_dump_win_stack =
     ''usage: dump_win_stack [count]\<newline>'' @
     ''  count            how many items to dump\<newline>''"

definition usage_dump_win_pos :: string where
  "usage_dump_win_pos =
     ''usage: dump_win_pos [count]\<newline>'' @
     ''  count            how many items to dump\<newline>''"

definition usage_dump_win_map :: string where
  "usage_dump_win_map =
     ''usage: dump_win_map\<newline>''"

definition usage_dump_wdata :: string where
  "usage_dump_wdata =
     ''usage: dump_wdata <index>\<newline>'' @
     ''  index            index into wdata array to dump\<newline>'' @
     ''  -p               print fields that are pointers\<newline>''"

definition usage_dump_appdata :: string where
  "usage_dump_appdata =
     ''usage: dump_appdata <index> [-p]\<newline>'' @
     ''  index            index into appdata array to dump\<newline>'' @
     ''  -p               print fields that are pointers\<newline>''"

definition usage_switch_to_thread :: string where
  "usage_switch_to_thread =
     ''usage: switch_to_thread <tid>\<newline>'' @
     ''  <tid>          thread id to switch to\<newline>''"

definition usage_get :: string where
  "usage_get =
     ''usage: get <var>\<newline>'' @
     ''  <var>          variable to get\<newline>''"

definition usage_set :: string where
  "usage_set =
     ''usage: set <var> <value>\<newline>'' @
     ''  <var>          variable to set\<newline>'' @
     ''  <value>        decimal or hex value\<newline>''"

definition usage_new_sys_thread :: string where
  "usage_new_sys_thread =
     ''usage: new_sys_thread\<newline>''"

definition usage_mouse_move :: string where
  "usage_mouse_move =
     ''usage: mouse_move [-l] [-m] [-r] [-x {+|-|=}<value>] [-y {+|-|=}<value>] [-h {+|-}<value>] [-v {+|-}<value>]\<newline>'' @
     ''  -l             left button is held\<newline>'' @
     ''  -m             middle button is held\<newline>'' @
     ''  -r             right button is held\<newline>'' @
     ''  -x             increase, decrease or set x coordinate\<newline>'' @
     ''  -y             increase, decrease or set y coordinate\<newline>'' @
     ''  -h             scroll horizontally\<newline>'' @
     ''  -v             scroll vertically\<newline>''"

definition usage_process_info :: string where
  "usage_process_info =
     ''usage: process_info <pid>\<newline>'' @
     ''  pid              process id to dump, -1 for self\<newline>''"

definition usage_check_for_event :: string where
  "usage_check_for_event =
     ''usage: check_for_event\<newline>''"

definition usage_display_number :: string where
  "usage_display_number =
     ''usage: display_number <is_pointer> <base> <num_digits> <is_qword> <show_lead_zeros> <num_or_ptr> <x> <y> <color> <fill_bg> <font> <draw_to_buf> <scale_factor> <bg_color_or_buf>\<newline>'' @
     ''  is_pointer       if num_or_ptr argument is a pointer\<newline>'' @
     ''  base             0 - dec, 1 - hex, 2 - bin\<newline>'' @
     ''  num_digits       how many digits to print\<newline>'' @
     ''  is_qword         if 1, is_pointer = 1 and num_or_ptr is pointer\<newline>'' @
     ''  show_lead_zeros  0/1\<newline>'' @
     ''  num_or_ptr       number itself or a pointer to it\<newline>'' @
     ''  x                x window coord\<newline>'' @
     ''  y                y window coord\<newline>'' @
     ''  color            argb in hex\<newline>'' @
     ''  fill_bg          0/1\<newline>'' @
     ''  font             0 = 6x9, 1 = 8x16\<newline>'' @
     ''  draw_to_buf      0/1\<newline>'' @
     ''  scale_factor     0 = x1, ..., 7 = x8\<newline>'' @
     ''  bg_color_or_buf  depending on flags fill_bg and draw_to_buf\<newline>''"

definition usage_set_window_colors :: string where
  "usage_set_window_colors =
     ''usage: set_window_colors <frame> <grab> <work_3d_dark> <work_3d_light> <grab_text> <work> <work_button> <work_button_text> <work_text> <work_graph>\<newline>'' @
     ''  *                all colors are in hex\<newline>''"

definition usage_get_window_colors :: string where
  "usage_get_window_colors =
     ''usage: get_window_colors\<newline>''"

definition usage_get_skin_height :: string where
  "usage_get_skin_height =
     ''usage: get_skin_height\<newline>''"

definition usage_get_screen_area :: string where
  "usage_get_screen_area =
     ''usage: get_screen_area\<newline>''"

definition usage_set_screen_area :: string where
  "usage_set_screen_area =
     ''usage: set_screen_area <left> <top> <right> <bottom>\<newline>'' @
     ''  left             left x coord\<newline>'' @
     ''  top              top y coord\<newline>'' @
     ''  right            right x coord (not length!)\<newline>'' @
     ''  bottom           bottom y coord\<newline>''"

definition usage_get_skin_margins :: string where
  "usage_get_skin_margins =
     ''usage: get_skin_margins\<newline>''"

definition usage_set_button_style :: string where
  "usage_set_button_style =
     ''usage: set_button_style <style>\<newline>'' @
     ''  style            0 - flat, 1 - 3d\<newline>''"

definition usage_set_skin :: string where
  "usage_set_skin =
     ''usage: set_skin <path>\<newline>'' @
     ''  path             i.e. /rd/1/DEFAULT.SKN\<newline>''"

definition usage_get_keyboard_layout :: string where
  "usage_get_keyboard_layout =
     ''usage: get_keyboard_layout <-t type> [-f file]\<newline>'' @
     ''  -t type          layout type: 1 - normal, 2 - shift, 3 - alt\<newline>'' @
     ''  -f file          file name to save layout to\<newline>''"

definition usage_set_keyboard_layout :: string where
  "usage_set_keyboard_layout =
     ''usage: set_keyboard_layout <-t type> <-f file|code{128}>\<newline>'' @
     ''  -t type          layout type: 1 - normal, 2 - shift, 3 - alt\<newline>'' @
     ''  -f file          file name to read layout from\<newline>'' @
     ''  code             i-th ASCII code for the scancode i\<newline>''"

definition usage_get_keyboard_lang :: string where
  "usage_get_keyboard_lang =
     ''usage: get_keyboard_lang\<newline>''"

definition usage_get_system_lang :: string where
  "usage_get_system_lang =
     ''usage: get_system_lang\<newline>''"

definition usage_set_keyboard_lang :: string where
  "usage_set_keyboard_lang =
     ''usage: set_keyboard_lang <lang_id>\<newline>'' @
     ''  lang_id          number or a two-digit code:\<newline>'' @
     ''                   1 - en, 2 - fi, 3 - ge, 4 - ru, 5 - fr, 6 - et,\<newline>'' @
     ''                   7 - ua, 8 - it, 9 - be, 10 - sp, 11 - ca\<newline>''"

definition usage_set_system_lang :: string where
  "usage_set_system_lang =
     ''usage: set_system_lang <lang_id>\<newline>'' @
     ''  lang_id          number or a two-digit code:\<newline>'' @
     ''                   1 - en, 2 - fi, 3 - ge, 4 - ru, 5 - fr, 6 - et,\<newline>'' @
     ''                   7 - ua, 8 - it, 9 - be, 10 - sp, 11 - ca\<newline>''"

definition usage_get_keyboard_mode :: string where
  "usage_get_keyboard_mode =
     ''usage: get_keyboard_mode\<newline>''"

definition usage_set_keyboard_mode :: string where
  "usage_set_keyboard_mode =
     ''usage: set_keyboard_mode <mode>\<newline>'' @
     ''  mode             0 - ASCII, 1 - scancodes\<newline>''"

definition usage_get_font_smoothing :: string where
  "usage_get_font_smoothing =
     ''usage: get_font_smoothing\<newline>''"

definition usage_set_font_smoothing :: string where
  "usage_set_font_smoothing =
     ''usage: set_font_smoothing <mode>\<newline>'' @
     ''  mode             0 - off, 1 - gray AA, 2 - subpixel AA\<newline>''"

definition usage_get_font_size :: string where
  "usage_get_font_size =
     ''usage: get_font_size\<newline>''"

definition usage_set_font_size :: string where
  "usage_set_font_size =
     ''usage: set_font_size <size>\<newline>'' @
     ''  size             in pixels\<newline>''"

definition usage_set_mouse_pos_screen :: string where
  "usage_set_mouse_pos_screen =
     ''usage: set_mouse_pos_screen <x> <y>\<newline>'' @
     ''  x                in pixels\<newline>'' @
     ''  y                in pixels\<newline>''"

definition usage_get_mouse_pos_screen :: string where
  "usage_get_mouse_pos_screen =
     ''usage: get_mouse_pos_screen\<newline>''"

definition usage_get_mouse_pos_window :: string where
  "usage_get_mouse_pos_window =
     ''usage: get_mouse_pos_window\<newline>''"

definition usage_get_mouse_buttons_state :: string where
  "usage_get_mouse_buttons_state =
     ''usage: get_mouse_buttons_state\<newline>''"

definition usage_get_mouse_buttons_state_events :: string where
  "usage_get_mouse_buttons_state_events =
     ''usage: get_mouse_buttons_state_events\<newline>''"

definition usage_button :: string where
  "usage_button =
     ''usage: button <x> <xsize> <y> <ysize> <id> <color> <draw_button> <draw_frame>\<newline>'' @
     ''  x                x\<newline>'' @
     ''  xsize            may be size-1, check it\<newline>'' @
     ''  y                y\<newline>'' @
     ''  ysize            may be size-1, check it\<newline>'' @
     ''  id               24-bit\<newline>'' @
     ''  color            hex\<newline>'' @
     ''  draw_button      0/1\<newline>'' @
     ''  draw_frame       0/1\<newline>''"

definition usage_kos_sys_misc_init_heap :: string where
  "usage_kos_sys_misc_init_heap =
     ''usage: kos_sys_misc_init_heap\<newline>''"

definition usage_kos_sys_misc_load_file :: string where
  "usage_kos_sys_misc_load_file =
     ''usage: kos_sys_misc_load_file <filename> [-h] [-p]\<newline>'' @
     ''  file             file in kolibri fs, e.g. /sys/pew/blah\<newline>'' @
     ''  -h               dump bytes in hex\<newline>'' @
     ''  -p               print pointers\<newline>''"

definition usage_load_cursor_from_file :: string where
  "usage_load_cursor_from_file =
     ''usage: load_cursor_from_file <file>\<newline>'' @
     ''  file             file in .cur format in kolibri fs\<newline>''"

definition usage_load_cursor_from_mem :: string where
  "usage_load_cursor_from_mem =
     ''usage: load_cursor_from_mem <file>\<newline>'' @
     ''  file             file in .cur format in host fs\<newline>''"

definition usage_set_cursor :: string where
  "usage_set_cursor =
     ''usage: set_cursor <handle>\<newline>'' @
     ''  handle           as returned by load_cursor* functions\<newline>''"

definition usage_put_image :: string where
  "usage_put_image =
     ''usage: put_image <file> <xsize> <ysize> <x> <y>\<newline>'' @
     ''  file             file with rgb triplets\<newline>'' @
     ''  xsize            x size\<newline>'' @
     ''  ysize            y size\<newline>'' @
     ''  x                x coord\<newline>'' @
     ''  y                y coord\<newline>''"

definition usage_put_image_palette :: string where
  "usage_put_image_palette =
     ''usage: put_image_palette <file> <xsize> <ysize> <x> <y> <bpp> <row_offset>\<newline>'' @
     ''  file             path/to/file, contents according tp bpp argument\<newline>'' @
     ''  xsize            x size\<newline>'' @
     ''  ysize            y size\<newline>'' @
     ''  x                x coord\<newline>'' @
     ''  y                y coord\<newline>'' @
     ''  bpp              bits per pixel\<newline>'' @
     ''  row_offset       in bytes\<newline>''"

definition usage_draw_rect :: string where
  "usage_draw_rect =
     ''usage: draw_rect <x> <xsize> <y> <ysize> <color> [-g]\<newline>'' @
     ''  x                x coord\<newline>'' @
     ''  xsize            x size\<newline>'' @
     ''  y                y coord\<newline>'' @
     ''  ysize            y size\<newline>'' @
     ''  color            in hex\<newline>'' @
     ''  -g               0/1 - gradient\<newline>''"

definition usage_get_screen_size :: string where
  "usage_get_screen_size =
     ''usage: get_screen_size\<newline>''"

definition usage_draw_line :: string where
  "usage_draw_line =
     ''usage: draw_line <xbegin> <xend> <ybegin> <yend> <color> [-i]\<newline>'' @
     ''  xbegin           x left coord\<newline>'' @
     ''  xend             x right coord\<newline>'' @
     ''  ybegin           y top coord\<newline>'' @
     ''  yend             y bottom coord\<newline>'' @
     ''  color            hex\<newline>'' @
     ''  -i               inverted color\<newline>''"

definition usage_set_window_caption :: string where
  "usage_set_window_caption =
     ''usage: set_window_caption <caption> <encoding>\<newline>'' @
     ''  caption          asciiz string\<newline>'' @
     ''  encoding         1 = cp866, 2 = UTF-16LE, 3 = UTF-8\<newline>''"

definition usage_draw_window :: string where
  "usage_draw_window =
     ''usage: draw_window <x> <xsize> <y> <ysize> <color> <has_caption> <client_relative> <fill_workarea> <gradient_fill> <movable> <style> <caption>\<newline>'' @
     ''  x                x coord\<newline>'' @
     ''  xsize            x size\<newline>'' @
     ''  y                y coord\<newline>'' @
     ''  ysize            y size\<newline>'' @
     ''  color            hex\<newline>'' @
     ''  has_caption      0/1\<newline>'' @
     ''  client_relative  0/1\<newline>'' @
     ''  fill_workarea    0/1\<newline>'' @
     ''  gradient_fill    0/1\<newline>'' @
     ''  movable          0/1\<newline>'' @
     ''  style            1 - draw nothing, 3 - skinned, 4 - skinned fixed\<newline>'' @
     ''  caption          asciiz\<newline>''"

definition usage_window_redraw :: string where
  "usage_window_redraw =
     ''usage: window_redraw <1|2>\<newline>'' @
     ''  1                begin\<newline>'' @
     ''  2                end\<newline>''"

definition usage_move_window :: string where
  "usage_move_window =
     ''usage: move_window <x> <y> <xsize> <ysize>\<newline>'' @
     ''  x                new x coord\<newline>'' @
     ''  y                new y coord\<newline>'' @
     ''  xsize            x size -1\<newline>'' @
     ''  ysize            y size -1\<newline>''"

definition usage_blit_bitmap :: string where
  "usage_blit_bitmap =
     ''usage: blit_bitmap <dstx> <dsty> <dstxsize> <dstysize> <srcx> <srcy> <srcxsize> <srcysize> <operation> <background> <transparent> <client_relative> <row_length>\<newline>'' @
     ''  dstx             dst rect x offset, window-relative\<newline>'' @
     ''  dsty             dst rect y offset, window-relative\<newline>'' @
     ''  dstxsize         dst rect width\<newline>'' @
     ''  dstysize         dst rect height\<newline>'' @
     ''  srcx             src rect x offset, window-relative\<newline>'' @
     ''  srcy             src rect y offset, window-relative\<newline>'' @
     ''  srcxsize         src rect width\<newline>'' @
     ''  srcysize         src rect height\<newline>'' @
     ''  operation        0 - copy\<newline>'' @
     ''  background       0/1 - blit into background surface\<newline>'' @
     ''  transparent      0/1\<newline>'' @
     ''  client_relative  0/1\<newline>'' @
     ''  row_length       in bytes\<newline>''"

definition usage_write_devices_dat :: string where
  "usage_write_devices_dat =
     ''usage: write_devices_dat <file>\<newline>'' @
     ''  file             path/to/devices.dat\<newline>''"

definition usage_scrot :: string where
  "usage_scrot =
     ''usage: scrot <file>\<newline>'' @
     ''  file             path/to/file in png format\<newline>''"

definition usage_cd :: string where
  "usage_cd =
     ''usage: cd <path>\<newline>'' @
     ''  path             path/to/dir\<newline>''"

definition usage_exec :: string where
  "usage_exec =
     ''usage: exec <file>\<newline>'' @
     ''  file           executable to run\<newline>''"

definition usage_ls70 :: string where
  "usage_ls70 =
     ''usage: ls70 [dir] [option]...\<newline>'' @
     ''  -f number        index of the first dir entry to read\<newline>'' @
     ''  -c number        number of dir entries to read\<newline>'' @
     ''  -e encoding      cp866|utf16|utf8\<newline>'' @
     ''                   return directory listing in this encoding\<newline>''"

definition usage_ls80 :: string where
  "usage_ls80 =
     ''usage: ls80 [dir] [option]...\<newline>'' @
     ''  -f number        index of the first dir entry to read\<newline>'' @
     ''  -c number        number of dir entries to read\<newline>'' @
     ''  -e encoding      cp866|utf16|utf8\<newline>'' @
     ''                   return directory listing in this encoding\<newline>'' @
     ''  -p encoding      cp866|utf16|utf8\<newline>'' @
     ''                   path to dir is specified in this encoding\<newline>''"

definition usage_stat :: string where
  "usage_stat =
     ''usage: stat <file> [-c] [-m] [-a]\<newline>'' @
     ''  file             path/to/file\<newline>'' @
     ''  [-c]             force show creation time\<newline>'' @
     ''  [-m]             force show modification time\<newline>'' @
     ''  [-a]             force show access time\<newline>''"

definition usage_read70 :: string where
  "usage_read70 =
     ''usage: read70 <file> <offset> <length> [-b] [-h]\<newline>'' @
     ''  file             path/to/file\<newline>'' @
     ''  offset           in bytes\<newline>'' @
     ''  length           in bytes\<newline>'' @
     ''  -b               dump bytes in hex\<newline>'' @
     ''  -h               print hash of data read\<newline>''"

definition usage_read80 :: string where
  "usage_read80 =
     ''usage: read80 <file> <offset> <length> [-b] [-h] [-e cp866|utf8|utf16]\<newline>'' @
     ''  file             path/to/file\<newline>'' @
     ''  offset           in bytes\<newline>'' @
     ''  length           in bytes\<newline>'' @
     ''  -b               dump bytes in hex\<newline>'' @
     ''  -h               print hash of data read\<newline>'' @
     ''  -e               encoding\<newline>''"

definition usage_acpi_preload_table :: string where
  "usage_acpi_preload_table =
     ''usage: acpi_preload_table <file>\<newline>'' @
     ''  file             path/to/local/file.aml\<newline>''"

definition usage_acpi_enable :: string where
  "usage_acpi_enable =
     ''usage: acpi_enable\<newline>''"

definition usage_acpi_get_node_cnt :: string where
  "usage_acpi_get_node_cnt =
     ''usage: acpi_get_node_cnt\<newline>''"

definition usage_acpi_get_node_alloc_cnt :: string where
  "usage_acpi_get_node_alloc_cnt =
     ''usage: acpi_get_node_alloc_cnt\<newline>''"

definition usage_acpi_get_node_free_cnt :: string where
  "usage_acpi_get_node_free_cnt =
     ''usage: acpi_get_node_free_cnt\<newline>''"

definition usage_acpi_set_usage :: string where
  "usage_acpi_set_usage =
     ''usage: acpi_set_usage <num>\<newline>'' @
     ''  num            one of ACPI_USAGE_* constants\<newline>''"

definition usage_acpi_get_usage :: string where
  "usage_acpi_get_usage =
     ''usage: acpi_get_usage\<newline>''"

definition usage_acpi_call :: string where
  "usage_acpi_call =
     ''usage: acpi_call <method> [args...]\<newline>'' @
     ''  method         name of acpi method to call, e.g. '' @
     [CHR 0x5C] @
     ''_SB_PCI0_PRT\<newline>''"

definition usage_pci_set_path :: string where
  "usage_pci_set_path =
     ''usage: pci_set_path <path>\<newline>'' @
     ''  path           where aaaa:bb:cc.d dirs are\<newline>''"

definition usage_pci_get_path :: string where
  "usage_pci_get_path =
     ''usage: pci_get_path\<newline>''"

definition usage_load_dll :: string where
  "usage_load_dll =
     ''usage: load_dll <path>\<newline>'' @
     ''  path           /path/to/library.obj in KolibriOS fs\<newline>''"

definition usage_stack_init :: string where
  "usage_stack_init =
     ''usage: stack_init\<newline>''"

definition usage_net_add_device :: string where
  "usage_net_add_device =
     ''usage: net_add_device <devtype>\<newline>'' @
     ''  devtype          null, file or tap\<newline>''"

definition usage_net_get_dev_count :: string where
  "usage_net_get_dev_count =
     ''usage: net_get_dev_count\<newline>''"

definition usage_net_get_dev_type :: string where
  "usage_net_get_dev_type =
     ''usage: net_get_dev_type <dev_num>\<newline>'' @
     ''  dev_num        device number as returned by net_add_device\<newline>''"

definition usage_net_get_dev_name :: string where
  "usage_net_get_dev_name =
     ''usage: net_get_dev_name <dev_num>\<newline>'' @
     ''  dev_num        device number as returned by net_add_device\<newline>''"

definition usage_net_dev_reset :: string where
  "usage_net_dev_reset =
     ''usage: net_dev_reset <dev_num>\<newline>'' @
     ''  dev_num        device number as returned by net_add_device\<newline>''"

definition usage_net_dev_stop :: string where
  "usage_net_dev_stop =
     ''usage: net_dev_stop <dev_num>\<newline>'' @
     ''  dev_num        device number as returned by net_add_device\<newline>''"

definition usage_net_get_dev :: string where
  "usage_net_get_dev =
     ''usage: net_get_dev <dev_num>\<newline>'' @
     ''  dev_num        device number as returned by net_add_device\<newline>''"

definition usage_net_get_packet_tx_count :: string where
  "usage_net_get_packet_tx_count =
     ''usage: net_get_packet_tx_count <dev_num>\<newline>'' @
     ''  dev_num        device number as returned by net_add_device\<newline>''"

definition usage_net_get_packet_rx_count :: string where
  "usage_net_get_packet_rx_count =
     ''usage: net_get_packet_rx_count <dev_num>\<newline>'' @
     ''  dev_num        device number as returned by net_add_device\<newline>''"

definition usage_net_get_byte_tx_count :: string where
  "usage_net_get_byte_tx_count =
     ''usage: net_get_byte_tx_count <dev_num>\<newline>'' @
     ''  dev_num        device number as returned by net_add_device\<newline>''"

definition usage_net_get_byte_rx_count :: string where
  "usage_net_get_byte_rx_count =
     ''usage: net_get_byte_rx_count <dev_num>\<newline>'' @
     ''  dev_num        device number as returned by net_add_device\<newline>''"

definition usage_net_get_link_status :: string where
  "usage_net_get_link_status =
     ''usage: net_get_link_status <dev_num>\<newline>'' @
     ''  dev_num        device number as returned by net_add_device\<newline>''"

definition usage_net_open_socket :: string where
  "usage_net_open_socket =
     ''usage: net_open_socket <domain> <type> <protocol>\<newline>'' @
     ''  domain         domain\<newline>'' @
     ''  type           type\<newline>'' @
     ''  protocol       protocol\<newline>''"

definition usage_net_close_socket :: string where
  "usage_net_close_socket =
     ''usage: net_close_socket <socknum>\<newline>'' @
     ''  socknum        socket number\<newline>''"

definition usage_net_bind :: string where
  "usage_net_bind =
     ''usage: net_bind <fd> <port> <ip>\<newline>'' @
     ''  fd             socket number\<newline>'' @
     ''  port           port\<newline>'' @
     ''  addr           addr\<newline>''"

definition usage_net_listen :: string where
  "usage_net_listen =
     ''usage: net_listen <fd> <backlog>\<newline>'' @
     ''  fd             socket number\<newline>'' @
     ''  backlog        max queue length\<newline>''"

definition usage_net_connect :: string where
  "usage_net_connect =
     ''usage: net_connect <fd> <port> <ip>\<newline>'' @
     ''  fd             socket number\<newline>'' @
     ''  port           port\<newline>'' @
     ''  addr           addr\<newline>''"

definition usage_net_accept :: string where
  "usage_net_accept =
     ''usage: net_accept <fd> <port> <ip>\<newline>'' @
     ''  fd             socket number\<newline>'' @
     ''  port           port\<newline>'' @
     ''  addr           addr\<newline>''"

definition usage_net_eth_read_mac :: string where
  "usage_net_eth_read_mac =
     ''usage: net_eth_read_mac <dev_num>\<newline>'' @
     ''  dev_num        device number as returned by net_add_device\<newline>''"

definition usage_net_ipv4_get_addr :: string where
  "usage_net_ipv4_get_addr =
     ''usage: net_ipv4_get_addr <dev_num>\<newline>'' @
     ''  dev_num        device number as returned by net_add_device\<newline>''"

definition usage_net_ipv4_set_addr :: string where
  "usage_net_ipv4_set_addr =
     ''usage: net_ipv4_set_addr <dev_num> <addr>\<newline>'' @
     ''  dev_num        device number as returned by net_add_device\<newline>'' @
     ''  addr           a.b.c.d\<newline>''"

definition usage_net_ipv4_get_dns :: string where
  "usage_net_ipv4_get_dns =
     ''usage: net_ipv4_get_dns <dev_num>\<newline>'' @
     ''  dev_num        device number as returned by net_add_device\<newline>''"

definition usage_net_ipv4_set_dns :: string where
  "usage_net_ipv4_set_dns =
     ''usage: net_ipv4_set_dns <dev_num> <dns>\<newline>'' @
     ''  dev_num        device number as returned by net_add_device\<newline>'' @
     ''  dns            a.b.c.d\<newline>''"

definition usage_net_ipv4_get_subnet :: string where
  "usage_net_ipv4_get_subnet =
     ''usage: net_ipv4_get_subnet <dev_num>\<newline>'' @
     ''  dev_num        device number as returned by net_add_device\<newline>''"

definition usage_net_ipv4_set_subnet :: string where
  "usage_net_ipv4_set_subnet =
     ''usage: net_ipv4_set_subnet <dev_num> <subnet>\<newline>'' @
     ''  dev_num        device number as returned by net_add_device\<newline>'' @
     ''  subnet         a.b.c.d\<newline>''"

definition usage_net_ipv4_get_gw :: string where
  "usage_net_ipv4_get_gw =
     ''usage: net_ipv4_get_gw <dev_num>\<newline>'' @
     ''  dev_num        device number as returned by net_add_device\<newline>''"

definition usage_net_ipv4_set_gw :: string where
  "usage_net_ipv4_set_gw =
     ''usage: net_ipv4_set_gw <dev_num> <gw>\<newline>'' @
     ''  dev_num        device number as returned by net_add_device\<newline>'' @
     ''  gw             a.b.c.d\<newline>''"

definition usage_net_arp_get_count :: string where
  "usage_net_arp_get_count =
     ''usage: net_arp_get_count <dev_num>\<newline>'' @
     ''  dev_num        device number as returned by net_add_device\<newline>''"

definition usage_net_arp_get_entry :: string where
  "usage_net_arp_get_entry =
     ''usage: net_arp_get_entry <dev_num> <arp_num>\<newline>'' @
     ''  dev_num        device number as returned by net_add_device\<newline>'' @
     ''  arp_num        arp number as returned by net_add_device\<newline>''"

definition usage_net_arp_add_entry :: string where
  "usage_net_arp_add_entry =
     ''usage: net_arp_add_entry <dev_num> <addr> <mac> <status> <ttl>\<newline>'' @
     ''  dev_num        device number as returned by net_add_device\<newline>'' @
     ''  addr           IP addr\<newline>'' @
     ''  mac            ethernet addr\<newline>'' @
     ''  status         see ARP.inc\<newline>'' @
     ''  ttl            Time to live\<newline>''"

definition usage_net_arp_del_entry :: string where
  "usage_net_arp_del_entry =
     ''usage: net_arp_del_entry <dev_num> <arp_num>\<newline>'' @
     ''  dev_num        device number as returned by net_add_device\<newline>'' @
     ''  arp_num        arp number as returned by net_add_device\<newline>''"

definition usage_osloop :: string where
  "usage_osloop =
     ''usage: osloop\<newline>''"

definition usage_bg_set_size :: string where
  "usage_bg_set_size =
     ''usage: bg_set_size <xsize> <ysize>\<newline>'' @
     ''  xsize          in pixels\<newline>'' @
     ''  ysize          in pixels\<newline>''"

definition usage_bg_put_pixel :: string where
  "usage_bg_put_pixel =
     ''usage: bg_put_pixel <offset> <color>\<newline>'' @
     ''  offset         in bytes, (x+y*xsize)*3\<newline>'' @
     ''  color          in hex\<newline>''"

definition usage_bg_redraw :: string where
  "usage_bg_redraw =
     ''usage: bg_redraw\<newline>''"

definition usage_bg_set_mode :: string where
  "usage_bg_set_mode =
     ''usage: bg_set_mode <mode>\<newline>'' @
     ''  mode           1 = tile, 2 = stretch\<newline>''"

definition usage_bg_put_img :: string where
  "usage_bg_put_img =
     ''usage: bg_put_img <image> <offset>\<newline>'' @
     ''  image          file\<newline>'' @
     ''  offset         in bytes, (x+y*xsize)*3\<newline>''"

definition usage_board_get :: string where
  "usage_board_get =
     ''usage: board_get [<-l|-a>] [-n]\<newline>''"

definition usage_board_put :: string where
  "usage_board_put =
     ''usage: board_put <char>\<newline>''"

definition usage_bg_map :: string where
  "usage_bg_map =
     ''usage: bg_map\<newline>''"

definition usage_bg_unmap :: string where
  "usage_bg_unmap =
     ''usage: bg_unmap <addr>\<newline>'' @
     ''  addr           return value of bg_map\<newline>''"

definition usage_help :: string where
  "usage_help =
     ''usage: help [command]\<newline>'' @
     ''  command        help on this command usage\<newline>''"

end
