(* ===== verification/ShellCore.thy ===== *)
theory ShellCore
  imports Syscalls Usage Optparse Vdisk Vnet
begin

unbundle bit_operations_syntax

text \<open>
  The shell's state and the helpers its command handlers share (\<^verbatim>\<open>shell.c\<close> up to \<^verbatim>\<open>split_args\<close>,
  \<^verbatim>\<open>shell.h\<close>, and the command buffer at the end of \<^verbatim>\<open>shell.c\<close>): shell variables, number parsing,
  printing of status words and bytes, the prompt, and the one-slot buffer through which commands
  that must run inside the kernel's scheduler are handed to its command thread.
\<close>

section \<open>Kernel variables the shell reads and writes\<close>

text \<open>
  The kernel exports its variables to the shell; they are the first part of its state, and the
  rest of it (the type parameter) is the kernel's own.
\<close>

record appdata_t =
  app_name :: "byte list"
  ad_process :: uint32
  fpu_state :: uint32
  exc_handler :: uint32
  except_mask :: uint32
  pl0_stack :: uint32
  fd_ev :: uint32
  bk_ev :: uint32
  fd_obj :: uint32
  bk_obj :: uint32
  saved_esp :: uint32
  dbg_state :: uint32
  ad_cur_dir :: cptr
  event_mask :: uint32
  ad_tid :: uint32
  ad_state :: uint8
  wnd_number :: uint8
  terminate_protection :: uint32
  ad_keyboard_mode :: uint8
  exec_params :: cptr
  priority :: uint32
  in_schedule_prev :: uint32
  in_schedule_next :: uint32
  thread_arg :: uint32

record box_t =
  b_left :: uint32
  b_top :: uint32
  b_width :: uint32
  b_height :: uint32

record wdata_t =
  caption :: cptr
  caption_encoding :: uint8
  clientbox :: box_t
  draw_bgr_x :: uint32
  draw_bgr_y :: uint32
  wd_thread :: uint32
  cursor :: uint32

record display_t =
  disp_width :: uint32
  disp_height :: uint32
  bits_per_pixel :: uint32
  lfb_pitch :: uint32
  win_map :: "byte list"

record boot_data_t =
  bpp :: uint8
  pitch :: uint16
  x_res :: uint16
  y_res :: uint16

datatype fs_user_functions = Xfs | Ext | Fat | Exfat | Ntfs | Iso9660 | Other_fs

record partition_t =
  first_sector :: uint64
  part_length :: uint64
  part_fs :: fs_user_functions

record disk_t =
  disk_name :: string
  media_sector_size :: uint32
  media_capacity :: uint64
  partitions :: "partition_t list"

record pci_dev =
  pci_bus :: uint32
  pci_dev_num :: uint32
  pci_fun :: uint32
  pci_vendor_id :: uint32
  pci_device_id :: uint32
  pci_gsi :: uint32
  pci_parent_bus :: "uint32 option"

record kvars =
  kos_redraw_background :: uint8
  kos_key_count :: uint8
  kos_key_buff :: "byte list"
  kos_keyboard_mode :: uint8
  kos_syslang :: uint32
  kos_keyboard :: uint32
  kos_win_stack :: "uint16 list"
  kos_win_pos :: "uint16 list"
  kos_window_data :: "wdata_t list"
  kos_slot_base :: "appdata_t list"
  kos_slot_addr :: uint32
  kos_current_slot_idx :: uint32
  kos_current_slot :: uint32
  kos_display :: display_t
  kos_lfb_base :: "byte list"
  kos_boot :: boot_data_t
  kos_ramdisk :: "byte list"
  kos_acpi_ssdt_cnt :: uint32
  kos_acpi_ssdt :: "(byte list \<times> uint32) list"
  kos_acpi_usage :: uint32
  kos_acpi_node_alloc_cnt :: uint32
  kos_acpi_node_free_cnt :: uint32
  acpi_ctx :: uint32
  idle_scheduled :: uint32
  os_scheduled :: uint32
  disk_list :: "(uint32 \<times> disk_t) list"
  kos_pci_devs :: "pci_dev list"

section \<open>The shell\<close>

datatype shell_var_type = SHELL_VAR_SINT | SHELL_VAR_UINT | SHELL_VAR_POINTER

record shell_var =
  var_type :: shell_var_type
  var_name :: string
  var_value :: uint32

abbreviation (input) SHELL_VAR_NAME_LEN :: nat where "SHELL_VAR_NAME_LEN \<equiv> 16"

text \<open>
  The buffer slot \<^verbatim>\<open>umka_cmd_buf[0]\<close>. The \<^verbatim>\<open>type\<close> tag and the union member it selects are one
  value; the number of the tag is kept for \<^verbatim>\<open>UMKA_CMD_NONE\<close> and the tags no handler uses.
\<close>

datatype cmd_status = SHELL_CMD_STATUS_EMPTY | SHELL_CMD_STATUS_READY | SHELL_CMD_STATUS_DONE

datatype cmd_data =
    UMKA_CMD_SET_MOUSE_DATA uint32 uint32 uint32 uint32 uint32
  | UMKA_CMD_WAIT_FOR_IDLE
  | UMKA_CMD_WAIT_FOR_OS_IDLE
  | UMKA_CMD_WAIT_FOR_WINDOW string
  | UMKA_CMD_SYS_CSLEEP uint32
  | UMKA_CMD_SYS_LFN f70or80_t lfn_arg
  | UMKA_CMD_SEND_SCANCODE uint32
  | Other_cmd uint32

text \<open>
  What the handlers take from outside the program and outside the kernel: memory allocation,
  the local time zone, why a file could not be opened, which files can be created and how much
  can be written to them, which steps of a tap set-up succeed, the address of a local variable that is printed, the PNG encoder of the
  bundled \<^verbatim>\<open>lodepng\<close>, and the kernel's pure functions for hashes and time stamps.
\<close>

record tm =
  tm_year :: int
  tm_mon :: int
  tm_mday :: int
  tm_hour :: int
  tm_min :: int
  tm_sec :: int

record env =
  e_mem :: mem
  e_localtime :: "uint32 \<Rightarrow> tm"
  e_strerror :: "string \<Rightarrow> string"
  e_creatable :: "string \<Rightarrow> bool"
  e_fwrite :: "string \<Rightarrow> nat \<Rightarrow> nat"
  e_tap :: tap_env
  e_local_addr :: uint32
  e_lodepng :: "byte list \<Rightarrow> uint32 \<Rightarrow> uint32 \<Rightarrow> uint32 \<times> string \<times> byte list"
  e_hash :: "byte list \<Rightarrow> byte list"
  e_time_to_epoch :: "uint32 \<Rightarrow> uint32 \<Rightarrow> uint32"

record 'k shell =
  env :: env
  booted :: bool
  running :: int
  cmd_runner :: bool
  reproducible :: bool
  var :: "shell_var list"
  fout :: string
  cur_dir :: "byte list"
  last_dir :: nat
  cur_dir_changed :: bool
  pci_path :: string
  host :: world
  vdisks :: "disk list"
  vnets :: "vnet list"
  cmd_state :: cmd_status
  cmd_dat :: cmd_data
  cmd_lfn_ret :: f7080ret_t
  kst :: 'k

type_synonym 'k command = "'k kernel \<Rightarrow> int \<Rightarrow> argv \<Rightarrow> 'k shell \<Rightarrow> 'k shell res"
type_synonym 'a kst = "'a kvars_scheme"

abbreviation (input) PATH_MAX :: nat where "PATH_MAX \<equiv> 4096"

definition fputs :: "string \<Rightarrow> 'k shell \<Rightarrow> 'k shell" where
  "fputs s sh = sh\<lparr>fout := fout sh @ s\<rparr>"

text \<open>A kernel call made by a handler, with and without a result.\<close>

definition kcall :: "('k \<Rightarrow> 'r \<times> 'k) \<Rightarrow> 'k shell \<Rightarrow> 'r \<times> 'k shell" where
  "kcall f sh = (let (r, k) = f (kst sh) in (r, sh\<lparr>kst := k\<rparr>))"

definition kdo :: "('k \<Rightarrow> 'k) \<Rightarrow> 'k shell \<Rightarrow> 'k shell" where
  "kdo f sh = sh\<lparr>kst := f (kst sh)\<rparr>"

text \<open>The arguments \<^verbatim>\<open>argv[1] .. argv[n]\<close>, read in this order; position 0 is not looked at.\<close>

fun deref_all :: "argv \<Rightarrow> nat list \<Rightarrow> string list res" where
  "deref_all argv [] = Inr []"
| "deref_all argv (i # is) = rbind (deref argv i) (\<lambda>s. rbind (deref_all argv is) (\<lambda>ss. Inr (s # ss)))"

definition args :: "argv \<Rightarrow> nat \<Rightarrow> string list res" where
  "args argv n = rbind (deref_all argv [1..<n + 1]) (\<lambda>ss. Inr ([] # ss))"

text \<open>Numeric arguments, in any base or in hexadecimal.\<close>

definition num :: "string list \<Rightarrow> nat \<Rightarrow> uint32" where
  "num a i = strtoul (a ! i) 0"

definition hex :: "string list \<Rightarrow> nat \<Rightarrow> uint32" where
  "hex a i = strtoul (a ! i) 16"

text \<open>A flag that counts only as the last of \<^verbatim>\<open>n\<close> arguments.\<close>

definition last_flag :: "int \<Rightarrow> argv \<Rightarrow> nat \<Rightarrow> string \<Rightarrow> uint32 res" where
  "last_flag argc argv n flag = (if argc = int n + 1 then rbind (deref argv n) (\<lambda>s. Inr (c_bool (s = flag)))
     else Inr 0)"

definition nl :: string where "nl = [CHR 0x0A]"

definition quote :: string where "quote = [CHR 0x27]"

text \<open>Bytes up to the terminating zero, as a string.\<close>

definition cstr :: "byte list \<Rightarrow> string" where
  "cstr bs = map (\<lambda>b. char_of (unat b)) (takeWhile (\<lambda>b. b \<noteq> 0) bs)"

text \<open>Reading an array element, a loop over indices, and \<^verbatim>\<open>%s\<close> of a pointer (null prints as glibc does).\<close>

definition nth_res :: "'a list \<Rightarrow> nat \<Rightarrow> 'a res" where
  "nth_res xs i = (if i < length xs then Inr (xs ! i) else Inl Out_of_bounds)"

fun rfor :: "'i list \<Rightarrow> ('i \<Rightarrow> 's \<Rightarrow> 's res) \<Rightarrow> 's \<Rightarrow> 's res" where
  "rfor [] f s = Inr s"
| "rfor (i # is) f s = rbind (f i s) (rfor is f)"

fun fmt_s :: "cptr \<Rightarrow> string res" where
  "fmt_s NULL = Inr ''(null)''"
| "fmt_s (Ptr s) = Inr s"
| "fmt_s Freed = Inl Use_after_free"

text \<open>Signed division truncates towards zero; pointers into the slot table are 256 bytes apart.\<close>

definition tdiv :: "int \<Rightarrow> int \<Rightarrow> int" where
  "tdiv a b = (if a < 0 then - ((- a) div b) else a div b)"

definition slot_diff :: "uint32 \<Rightarrow> uint32 \<Rightarrow> uint32" where
  "slot_diff p base = word_of_int (tdiv (sint (p - base)) 256)"

text \<open>Little-endian members of a structure the kernel filled.\<close>

definition le16 :: "byte list \<Rightarrow> nat \<Rightarrow> uint16" where
  "le16 bs i = ucast (bs ! i) OR shl (ucast (bs ! (i + 1))) 8"

definition le32 :: "byte list \<Rightarrow> nat \<Rightarrow> uint32" where
  "le32 bs i = ucast (le16 bs i) OR shl (ucast (le16 bs (i + 2))) 16"

definition le64 :: "byte list \<Rightarrow> nat \<Rightarrow> uint64" where
  "le64 bs i = ucast (le32 bs i) OR shl (ucast (le32 bs (i + 4))) 32"

text \<open>A word as the four bytes it has in memory.\<close>

definition bytes_le32 :: "uint32 \<Rightarrow> byte list" where
  "bytes_le32 w = [ucast w, ucast (shr w 8), ucast (shr w 16), ucast (shr w 24)]"

definition bytes_le16 :: "uint16 \<Rightarrow> byte list" where
  "bytes_le16 w = [ucast w, ucast (shr w 8)]"

text \<open>A file read as a whole: \<^verbatim>\<open>fopen\<close>, the size by \<^verbatim>\<open>fseek\<close>/\<^verbatim>\<open>ftell\<close>, \<^verbatim>\<open>malloc\<close>, \<^verbatim>\<open>fread\<close>, \<^verbatim>\<open>fclose\<close>.\<close>

definition read_whole :: "'k shell \<Rightarrow> string \<Rightarrow> byte list option res" where
  "read_whole sh fname = (case h_files (host sh) fname of None \<Rightarrow> Inr None
     | Some bs \<Rightarrow>
         if alloc_fd (host sh) = None then Inr None
         else if bs \<noteq> [] \<and> \<not> malloc_ok (e_mem (env sh)) (length bs) then Inl Null_deref
         else Inr (Some (if fname \<in> set (h_badfiles (host sh)) then junk (e_mem (env sh)) (length bs)
                         else bs)))"

text \<open>The callers that do not test the stream pointer hand it to \<^verbatim>\<open>fseek\<close> as it is.\<close>

definition read_whole_unchecked :: "'k shell \<Rightarrow> string \<Rightarrow> byte list res" where
  "read_whole_unchecked sh fname = rbind (read_whole sh fname)
     (\<lambda>f. case f of None \<Rightarrow> Inl Null_deref | Some bs \<Rightarrow> Inr bs)"

section \<open>Status names and numbers\<close>

definition f70_status_name :: "string list" where
  "f70_status_name = [''success'', ''disk_base'', ''unsupported_fs'', ''unknown_fs'', ''partition'',
     ''file_not_found'', ''end_of_file'', ''memory_pointer'', ''disk_full'', ''fs_fail'',
     ''access_denied'', ''device'', ''out_of_memory'']"

abbreviation (input) ERR_SUCCESS :: uint32 where "ERR_SUCCESS \<equiv> 0"
abbreviation (input) ERR_END_OF_FILE :: uint32 where "ERR_END_OF_FILE \<equiv> 6"

definition get_f70_status_name :: "uint32 \<Rightarrow> string" where
  "get_f70_status_name s = (if s \<le> 12 then f70_status_name ! unat s else ''unknown'')"

definition convert_f70_file_attr :: "uint32 \<Rightarrow> string" where
  "convert_f70_file_attr attr =
     [if attr AND 0x01 \<noteq> 0 then CHR ''r'' else CHR ''-'',
      if attr AND 0x02 \<noteq> 0 then CHR ''h'' else CHR ''-'',
      if attr AND 0x04 \<noteq> 0 then CHR ''s'' else CHR ''-'',
      if attr AND 0x08 \<noteq> 0 then CHR ''l'' else CHR ''-'',
      if attr AND 0x10 \<noteq> 0 then CHR ''f'' else CHR ''-'']"

definition print_f70_status :: "f7080ret_t \<Rightarrow> bool \<Rightarrow> 'k shell \<Rightarrow> 'k shell" where
  "print_f70_status r use_ebx sh = fputs
     (''status = '' @ fmt_d (lfn_status r) @ '' '' @ get_f70_status_name (lfn_status r)
      @ (if use_ebx \<and> (lfn_status r = ERR_SUCCESS \<or> lfn_status r = ERR_END_OF_FILE)
         then '', count = '' @ fmt_d (lfn_count r) else []) @ nl) sh"

definition parse_uintmax :: "string \<Rightarrow> uint64 \<times> bool" where
  "parse_uintmax str = (strtoumax str 0, strtoumax_end str 0 \<noteq> str \<and> strtoumax_end str 0 = [])"

definition parse_uint32 :: "string \<Rightarrow> 'k shell \<Rightarrow> uint32 option \<times> 'k shell" where
  "parse_uint32 str sh = (let (x, ok) = parse_uintmax str in
     if ok \<and> x \<le> 0xFFFFFFFF then (Some (ucast x), sh)
     else (None, fputs (''invalid number: '' @ str @ nl) sh))"

definition parse_uint64 :: "string \<Rightarrow> 'k shell \<Rightarrow> uint64 option \<times> 'k shell" where
  "parse_uint64 str sh = (let (x, ok) = parse_uintmax str in
     if ok \<and> x \<le> 0xFFFFFFFFFFFFFFFF then (Some x, sh)
     else (None, fputs (''invalid number: '' @ str @ nl) sh))"

section \<open>Shell variables\<close>

text \<open>
  The variables are a list with the most recent first. The value of the last command that
  produced one is in a variable without a name at the head, until \<^verbatim>\<open>var\<close> names it.
\<close>

fun shell_var_get :: "shell_var list \<Rightarrow> string \<Rightarrow> shell_var option" where
  "shell_var_get [] nm = None"
| "shell_var_get (v # vs) nm = (if var_name v = nm then Some v else shell_var_get vs nm)"

text \<open>The three parsers differ in the C type they read the value as; the bits are the same.\<close>

definition shell_parse_with :: "(string \<Rightarrow> uint32) \<Rightarrow> 'k shell \<Rightarrow> string \<Rightarrow> uint32 option" where
  "shell_parse_with f sh s =
     (if take 1 s = ''$'' then map_option var_value (shell_var_get (var sh) s) else Some (f s))"

definition shell_parse_sint :: "'k shell \<Rightarrow> string \<Rightarrow> uint32 option" where
  "shell_parse_sint = shell_parse_with (\<lambda>s. strtol s 0)"

definition shell_parse_uint :: "'k shell \<Rightarrow> string \<Rightarrow> uint32 option" where
  "shell_parse_uint = shell_parse_with (\<lambda>s. strtoul s 0)"

definition shell_parse_ptr :: "'k shell \<Rightarrow> string \<Rightarrow> uint32 option" where
  "shell_parse_ptr = shell_parse_with (\<lambda>s. strtoul s 0)"

definition shell_var_name :: "'k shell \<Rightarrow> string \<Rightarrow> bool \<times> 'k shell" where
  "shell_var_name sh nm = (case var sh of [] \<Rightarrow> (False, sh)
     | v # vs \<Rightarrow>
         if var_name v \<noteq> [] then (False, sh)
         else if take 1 nm \<noteq> ''$'' \<or> SHELL_VAR_NAME_LEN \<le> length nm then (False, sh)
         else (True, sh\<lparr>var := v\<lparr>var_name := nm\<rparr> # vs\<rparr>))"

abbreviation (input) sizeof_shell_var :: nat where "sizeof_shell_var \<equiv> 32"

definition shell_var_new :: "'k shell \<Rightarrow> shell_var_type \<Rightarrow> uint32 \<Rightarrow> shell_var res" where
  "shell_var_new sh ty v = (if malloc_ok (e_mem (env sh)) sizeof_shell_var
     then Inr \<lparr>var_type = ty, var_name = [], var_value = v\<rparr> else Inl Null_deref)"

text \<open>\<^verbatim>\<open>shell_var_add\<close> followed by the stores its three callers make through the result.\<close>

definition shell_var_add :: "shell_var_type \<Rightarrow> uint32 \<Rightarrow> 'k shell \<Rightarrow> 'k shell res" where
  "shell_var_add ty value sh = (case var sh of
       [] \<Rightarrow> rbind (shell_var_new sh ty value) (\<lambda>v. Inr (sh\<lparr>var := [v]\<rparr>))
     | v # vs \<Rightarrow> if var_name v = [] then Inr (sh\<lparr>var := v\<lparr>var_type := ty, var_value := value\<rparr> # vs\<rparr>)
         else rbind (shell_var_new sh ty value) (\<lambda>v'. Inr (sh\<lparr>var := v' # v # vs\<rparr>)))"

definition shell_var_add_sint :: "uint32 \<Rightarrow> 'k shell \<Rightarrow> 'k shell res" where
  "shell_var_add_sint = shell_var_add SHELL_VAR_SINT"

definition shell_var_add_uint :: "uint32 \<Rightarrow> 'k shell \<Rightarrow> 'k shell res" where
  "shell_var_add_uint = shell_var_add SHELL_VAR_UINT"

definition shell_var_add_ptr :: "uint32 \<Rightarrow> 'k shell \<Rightarrow> 'k shell res" where
  "shell_var_add_ptr = shell_var_add SHELL_VAR_POINTER"

section \<open>Bytes and files\<close>

abbreviation (input) PRINT_BYTES_PER_LINE :: nat where "PRINT_BYTES_PER_LINE \<equiv> 32"

definition hex2 :: "'a::len word \<Rightarrow> string" where
  "hex2 b = prec 2 (fmt_x b)"

fun print_bytes_from :: "nat \<Rightarrow> byte list \<Rightarrow> string" where
  "print_bytes_from i [] = nl"
| "print_bytes_from i (b # bs) =
     (if i mod PRINT_BYTES_PER_LINE = 0 \<and> i \<noteq> 0 then nl else []) @ hex2 b @ print_bytes_from (i + 1) bs"

definition print_bytes :: "byte list \<Rightarrow> uint32 \<Rightarrow> 'k shell \<Rightarrow> 'k shell res" where
  "print_bytes x len sh = rbind (slice x 0 (unat len)) (\<lambda>bs. Inr (fputs (print_bytes_from 0 bs) sh))"

definition print_hash :: "byte list \<Rightarrow> uint32 \<Rightarrow> 'k shell \<Rightarrow> 'k shell res" where
  "print_hash x len sh = rbind (slice x 0 (unat len)) (\<lambda>bs.
     Inr (fputs (concat (map hex2 (take 32 (e_hash (env sh) bs))) @ nl) sh))"

definition host_load_file :: "'k shell \<Rightarrow> string \<Rightarrow> byte list option res" where
  "host_load_file = read_whole"

section \<open>The prompt\<close>

text \<open>The offset in the path at which its last component starts; the root is its own last component.\<close>

definition get_last_dir :: "string \<Rightarrow> nat" where
  "get_last_dir path = (case strrchr path CHR ''/'' of None \<Rightarrow> 0
     | Some r \<Rightarrow> (let i = length path - length r in if i \<noteq> 0 \<or> length r > 1 then i + 1 else i))"

text \<open>\<^verbatim>\<open>umka_sys_get_cwd\<close> stores into the global \<^verbatim>\<open>cur_dir\<close>.\<close>

definition load_cwd :: "'k kernel \<Rightarrow> 'k shell \<Rightarrow> 'k shell res" where
  "load_cwd K sh = (let (bs, sh1) = kcall (umka_sys_get_cwd K (OutBuf PATH_MAX) (of_nat PATH_MAX)) sh in
     rbind (blit (cur_dir sh1) bs) (\<lambda>d. Inr (sh1\<lparr>cur_dir := d\<rparr>)))"

definition prompt :: "'k kernel \<Rightarrow> 'k shell \<Rightarrow> 'k shell res" where
  "prompt K sh = rbind
     (if cur_dir_changed sh
      then rbind (if booted sh then load_cwd K sh else Inr sh)
        (\<lambda>sh1. Inr (sh1\<lparr>last_dir := get_last_dir (cstr (cur_dir sh1)), cur_dir_changed := False\<rparr>))
      else Inr sh)
     (\<lambda>sh2. Inr (fputs (cstr (drop (last_dir sh2) (cur_dir sh2)) @ ''> '') sh2))"

section \<open>Commands that run in the kernel's scheduler\<close>

definition shell_run_cmd_wait_test :: "'k shell \<Rightarrow> uint32" where
  "shell_run_cmd_wait_test sh = c_bool (cmd_state sh = SHELL_CMD_STATUS_READY)"

definition umka_wait_for_idle_test :: "'a kst \<Rightarrow> uint32" where
  "umka_wait_for_idle_test k = idle_scheduled k"

definition umka_wait_for_os_test :: "'a kst \<Rightarrow> uint32" where
  "umka_wait_for_os_test k = os_scheduled k"

abbreviation (input) KOS_TSTATE_FREE :: uint8 where "KOS_TSTATE_FREE \<equiv> 9"

fun window_in :: "string \<Rightarrow> appdata_t list \<Rightarrow> wdata_t list \<Rightarrow> bool" where
  "window_in t (a # as) (w # ws) =
     ((ad_state a \<noteq> KOS_TSTATE_FREE \<and> caption w = Ptr t) \<or> window_in t as ws)"
| "window_in t as ws = False"

definition umka_wait_for_window_test :: "string \<Rightarrow> 'a kst \<Rightarrow> uint32" where
  "umka_wait_for_window_test wnd_title k =
     c_bool (window_in wnd_title (take 256 (kos_slot_base k)) (take 256 (kos_window_data k)))"

definition kos_wait_events :: "'k kernel \<Rightarrow> string \<Rightarrow> regval \<Rightarrow> 'k \<Rightarrow> 'k" where
  "kos_wait_events K wait_test wait_param k = snd (kos K ''_kos_wait_events'' [wait_param, Fun wait_test] k)"

definition umka_wait_for_idle :: "'a kst kernel \<Rightarrow> 'a kst \<Rightarrow> 'a kst" where
  "umka_wait_for_idle K k =
     kos_wait_events K ''umka_wait_for_idle_test'' (Num 0) (k\<lparr>idle_scheduled := 0\<rparr>)"

definition umka_wait_for_os_idle :: "'a kst kernel \<Rightarrow> 'a kst \<Rightarrow> 'a kst" where
  "umka_wait_for_os_idle K k =
     (let k1 = kos_wait_events K ''umka_wait_for_os_test'' (Num 0) (k\<lparr>os_scheduled := 0\<rparr>) in
      kos_wait_events K ''umka_wait_for_idle_test'' (Num 0) (k1\<lparr>idle_scheduled := 0\<rparr>))"

definition umka_wait_for_window :: "'k kernel \<Rightarrow> string \<Rightarrow> 'k \<Rightarrow> 'k" where
  "umka_wait_for_window K wnd_title = kos_wait_events K ''umka_wait_for_window_test'' (Str wnd_title)"

definition kos_set_mouse_data :: "'k kernel \<Rightarrow> uint32 \<Rightarrow> uint32 \<Rightarrow> uint32 \<Rightarrow> uint32 \<Rightarrow> uint32 \<Rightarrow> 'k \<Rightarrow> 'k" where
  "kos_set_mouse_data K btn_state xmoving ymoving vscroll hscroll k =
     snd (kos K ''kos_set_mouse_data'' [Num btn_state, Num xmoving, Num ymoving, Num vscroll, Num hscroll] k)"

definition shell_run_cmd_sync :: "'a kst kernel \<Rightarrow> 'a kst shell \<Rightarrow> 'a kst shell" where
  "shell_run_cmd_sync K sh = (case cmd_dat sh of
       UMKA_CMD_WAIT_FOR_IDLE \<Rightarrow> kdo (umka_wait_for_idle K) sh
     | UMKA_CMD_WAIT_FOR_OS_IDLE \<Rightarrow> kdo (umka_wait_for_os_idle K) sh
     | UMKA_CMD_WAIT_FOR_WINDOW t \<Rightarrow> kdo (umka_wait_for_window K t) sh
     | UMKA_CMD_SYS_CSLEEP csec \<Rightarrow> kdo (umka_sys_csleep K csec) sh
     | UMKA_CMD_SET_MOUSE_DATA b x y v h \<Rightarrow> kdo (kos_set_mouse_data K b x y v h) sh
     | UMKA_CMD_SEND_SCANCODE c \<Rightarrow> kdo (umka_set_keyboard_data K c) sh
     | UMKA_CMD_SYS_LFN f arg \<Rightarrow>
         (let (r, sh1) = kcall (umka_sys_lfn K arg f) sh in sh1\<lparr>cmd_lfn_ret := r\<rparr>)
     | Other_cmd n \<Rightarrow> fputs (''[!] unknown command: '' @ fmt_u n @ nl) sh)
     \<lparr>cmd_state := SHELL_CMD_STATUS_DONE\<rparr>"

text \<open>
  With the kernel running, the shell thread sleeps until the command thread has served the slot;
  the kernel's threads run meanwhile. Without a command thread nobody serves it.
\<close>

definition shell_run_cmd :: "'a kst kernel \<Rightarrow> 'a kst shell \<Rightarrow> 'a kst shell res" where
  "shell_run_cmd K sh = (let sh1 = sh\<lparr>cmd_state := SHELL_CMD_STATUS_READY\<rparr> in
     if running sh = UMKA_RUNNING_YES
     then (if cmd_runner sh \<and> shell_run_cmd_wait_test sh1 \<noteq> 0
           then Inr (shell_run_cmd_sync K (kdo (kos_schedule K) sh1)) else Inl Hang)
     else Inr (shell_run_cmd_sync K sh1))"

definition shell_clear_cmd :: "'k shell \<Rightarrow> 'k shell" where
  "shell_clear_cmd sh = sh\<lparr>cmd_state := SHELL_CMD_STATUS_EMPTY\<rparr>"

text \<open>A handler's use of the slot: fill it, run it, clear it.\<close>

definition run_in_slot :: "'a kst kernel \<Rightarrow> cmd_data \<Rightarrow> 'a kst shell \<Rightarrow> 'a kst shell res" where
  "run_in_slot K d sh = rbind (shell_run_cmd K (sh\<lparr>cmd_dat := d\<rparr>)) (\<lambda>sh1. Inr (shell_clear_cmd sh1))"

section \<open>Kernel threads\<close>

text \<open>The slot of the new thread gets its name, eleven bytes of it, and the argument on its stack.\<close>

definition umka_new_sys_threads :: "'a kst kernel \<Rightarrow> uint32 \<Rightarrow> string \<Rightarrow> regval \<Rightarrow> uint32 \<Rightarrow> string
    \<Rightarrow> 'a kst \<Rightarrow> (uint32 \<times> 'a kst) res" where
  "umka_new_sys_threads K flags entry stack_top arg nm k =
     (let (tid, k1) = kos_new_sys_threads K flags (Fun entry) stack_top k in
      rbind (nth_res (kos_slot_base k1) (unat tid)) (\<lambda>t.
        Inr (tid, k1\<lparr>kos_slot_base := (kos_slot_base k1)[unat tid :=
          t\<lparr>app_name := take 11 (map of_char nm @ replicate 11 0) @ drop 11 (app_name t),
            thread_arg := arg\<rparr>]\<rparr>)))"

section \<open>Splitting a line\<close>

definition is_delim :: "char \<Rightarrow> bool" where
  "is_delim c = (c = CHR '' '' \<or> c = CHR 0x09 \<or> c = CHR 0x0A \<or> c = CHR 0x0D)"

abbreviation (input) MAX_COMMAND_ARGS :: nat where "MAX_COMMAND_ARGS \<equiv> 42"

text \<open>The tokens and the null after them are stored from slot 0; the slots behind keep what they held.\<close>

definition split_args :: "string \<Rightarrow> argv \<Rightarrow> (int \<times> argv) res" where
  "split_args s argv = (let ts = tokens is_delim s in
     if length ts + 1 \<le> length argv
     then Inr (int (length ts), map Ptr ts @ [NULL] @ drop (length ts + 1) argv) else Inl Out_of_bounds)"

end
