(* ===== verification/Umkart.thy ===== *)
theory Umkart
  imports ShellCore
begin

unbundle bit_operations_syntax

text \<open>
  \<^verbatim>\<open>umkart.c\<close>: the table of PCI devices written for the kernel's boot (\<^verbatim>\<open>devices.dat\<close>), and the copy
  of the display into 32-bit pixels that screenshots and the SDL window use.
\<close>

section \<open>devices.dat\<close>

text \<open>
  One entry of the table: function in bits 0 to 2 and device in bits 3 to 7 of the first byte, the
  bus, the identifiers and the interrupt, all little-endian.
\<close>

record devices_dat_entry =
  de_fun :: uint8
  de_dev :: uint8
  de_bus :: uint8
  de_vendor_id :: uint16
  de_device_id :: uint16
  de_irq :: uint32

definition entry_of :: "pci_dev \<Rightarrow> uint32 \<Rightarrow> devices_dat_entry" where
  "entry_of node bus = \<lparr>de_fun = ucast (pci_fun node) AND 7, de_dev = ucast (pci_dev_num node) AND 31,
     de_bus = ucast bus, de_vendor_id = ucast (pci_vendor_id node), de_device_id = ucast (pci_device_id node),
     de_irq = pci_gsi node\<rparr>"

definition entry_bytes :: "devices_dat_entry \<Rightarrow> byte list" where
  "entry_bytes e = [de_fun e OR shl (de_dev e) 3, de_bus e, 0, 0] @ bytes_le16 (de_vendor_id e)
     @ bytes_le16 (de_device_id e) @ bytes_le32 (de_irq e) @ [0, 0, 0, 0]"

definition dump_devices_dat_iter :: "pci_dev \<Rightarrow> byte list res" where
  "dump_devices_dat_iter node = (if pci_gsi node \<noteq> 0
     then (case pci_parent_bus node of None \<Rightarrow> Inl Null_deref | Some b \<Rightarrow> Inr (entry_bytes (entry_of node b)))
     else Inr [])"

text \<open>The kernel's walk of the tree visits the devices in the order in which they are listed.\<close>

definition devices_dat :: "pci_dev list \<Rightarrow> byte list res" where
  "devices_dat nodes = rbind (rfor nodes (\<lambda>d acc. rbind (dump_devices_dat_iter d) (\<lambda>b. Inr (acc @ b))) [])
     (\<lambda>bs. Inr (bs @ bytes_le32 0xffffffff))"

definition write_file :: "string \<Rightarrow> byte list \<Rightarrow> 'k shell \<Rightarrow> 'k shell" where
  "write_file fname bs sh = sh\<lparr>host := (host sh)\<lparr>h_files :=
     (h_files (host sh))(fname \<mapsto> take (e_fwrite (env sh) fname (length bs)) bs)\<rparr>\<rparr>"

definition dump_devices_dat :: "string \<Rightarrow> 'a kst shell \<Rightarrow> 'a kst shell res" where
  "dump_devices_dat filename sh = (if \<not> e_creatable (env sh) filename then Inr sh
     else rbind (devices_dat (kos_pci_devs (kst sh))) (\<lambda>bs. Inr (write_file filename bs sh)))"

section \<open>The display as 32-bit pixels\<close>

definition put_res :: "'a list \<Rightarrow> nat \<Rightarrow> 'a \<Rightarrow> 'a list res" where
  "put_res xs i v = (if i < length xs then Inr (xs[i := v]) else Inl Out_of_bounds)"

text \<open>A loop over rows and columns, in the order of the source.\<close>

definition for_pixels :: "display_t \<Rightarrow> (uint32 \<Rightarrow> uint32 \<Rightarrow> 's \<Rightarrow> 's res) \<Rightarrow> 's \<Rightarrow> 's res" where
  "for_pixels d f = rfor [0..<unat (disp_height d)] (\<lambda>y.
     rfor [0..<unat (disp_width d)] (\<lambda>x. f (of_nat y) (of_nat x)))"

definition rgb565 :: "uint16 \<Rightarrow> uint32" where
  "rgb565 v = (let p = ucast v :: uint32 in
     shl (p AND 0xf800) 8 + shl (p AND 0x7e0) 5 + shl (p AND 0x1f) 3)"

definition lfb16 :: "byte list \<Rightarrow> nat \<Rightarrow> uint16 res" where
  "lfb16 lfb i = (if 2 * i + 1 < length lfb then Inr (le16 lfb (2 * i)) else Inl Out_of_bounds)"

definition copy_display_bpp16_to_rgb888 :: "display_t \<Rightarrow> byte list \<Rightarrow> uint32 list \<Rightarrow> uint32 list res" where
  "copy_display_bpp16_to_rgb888 d lfb = for_pixels d (\<lambda>y x to.
     rbind (lfb16 lfb (unat (y * disp_width d + x))) (\<lambda>p.
     put_res to (unat (y * lfb_pitch d div 2 + x)) (rgb565 p)))"

definition copy_display_bpp24_to_rgb888 :: "display_t \<Rightarrow> byte list \<Rightarrow> uint32 list \<Rightarrow> uint32 list res" where
  "copy_display_bpp24_to_rgb888 d lfb = for_pixels d (\<lambda>y x to.
     rbind (nth_res lfb (unat (y * disp_width d * 3 + x * 3 + 0))) (\<lambda>b0.
     rbind (nth_res lfb (unat (y * disp_width d * 3 + x * 3 + 1))) (\<lambda>b1.
     rbind (nth_res lfb (unat (y * disp_width d * 3 + x * 3 + 2))) (\<lambda>b2.
     put_res to (unat (y * disp_width d + x)) (ucast b0 + shl (ucast b1) 8 + shl (ucast b2) 16)))))"

definition copy_display_bpp32_to_rgb888 :: "display_t \<Rightarrow> byte list \<Rightarrow> uint32 list \<Rightarrow> uint32 list res" where
  "copy_display_bpp32_to_rgb888 d lfb to = (let n = unat (disp_width d * disp_height d * 4) in
     if n \<le> length lfb \<and> n \<le> 4 * length to
     then Inr (map (\<lambda>i. le32 lfb (4 * i)) [0..<n div 4] @ drop (n div 4) to) else Inl Out_of_bounds)"

text \<open>Another depth is reported on the standard error stream and copies nothing.\<close>

definition copy_display_to_rgb888 :: "display_t \<Rightarrow> byte list \<Rightarrow> uint32 list \<Rightarrow> uint32 list res" where
  "copy_display_to_rgb888 d lfb to =
     (if bits_per_pixel d = 16 then copy_display_bpp16_to_rgb888 d lfb to
      else if bits_per_pixel d = 24 then copy_display_bpp24_to_rgb888 d lfb to
      else if bits_per_pixel d = 32 then copy_display_bpp32_to_rgb888 d lfb to
      else Inr to)"

end
