(* ===== verification/ShellSys.thy ===== *)
theory ShellSys
  imports ShellCore
begin

unbundle bit_operations_syntax

text \<open>
  Handlers of \<^verbatim>\<open>shell.c\<close> for booting, waiting, disks, kernel variables and tables, and input
  devices. A handler takes the kernel, the argument count and vector and the shell, and gives the
  next shell or the fault that stops the program.
\<close>

section \<open>Variables, booting, waiting\<close>

definition cmd_var :: "'k command" where
  "cmd_var K argc argv sh = (if argc \<noteq> 2 then Inr (fputs usage_var sh)
     else rbind (deref argv 1) (\<lambda>s. let (status, sh1) = shell_var_name sh s in
       Inr (if \<not> status then fputs (''fail'' @ nl) sh1 else sh1)))"

text \<open>The loop over the codes; the first one that is no number ends it.\<close>

fun scancode_loop :: "'a kst kernel \<Rightarrow> nat \<Rightarrow> nat \<Rightarrow> argv \<Rightarrow> 'a kst shell \<Rightarrow> 'a kst shell res" where
  "scancode_loop K 0 i argv sh = Inr sh"
| "scancode_loop K (Suc n) i argv sh = rbind (deref argv i) (\<lambda>s.
     if strtoul_end s 0 = []
     then rbind (run_in_slot K (UMKA_CMD_SEND_SCANCODE (strtoul s 0)) sh) (scancode_loop K n (i + 1) argv)
     else Inr (fputs (''not an integer: '' @ s @ nl @ usage_send_scancode) sh))"

definition cmd_send_scancode :: "'a kst command" where
  "cmd_send_scancode K argc argv sh = (if argc < 2 then Inr (fputs usage_send_scancode sh)
     else scancode_loop K (nat (argc - 1)) 1 argv sh)"

abbreviation (input) UMKA_DEFAULT_THREAD_STACK_SIZE :: nat where
  "UMKA_DEFAULT_THREAD_STACK_SIZE \<equiv> 65536"

text \<open>\<^verbatim>\<open>thread_cmd_runner\<close> serves the command slot from then on; its argument is the shell context.\<close>

definition cmd_umka_boot :: "'a kst command" where
  "cmd_umka_boot K argc argv sh = (if argc \<noteq> 1 then Inr (fputs usage_umka_boot sh)
     else let sh1 = kdo (\<lambda>k. snd (kos K ''umka_boot'' [] k)) (sh\<lparr>booted := True\<rparr>) in
       if running sh1 \<noteq> UMKA_RUNNING_NEVER
       then rbind (umka_new_sys_threads K 0 ''thread_cmd_runner'' (OutBuf UMKA_DEFAULT_THREAD_STACK_SIZE)
              (e_local_addr (env sh1)) ''cmd_runner'' (kst sh1))
         (\<lambda>(tid, k). Inr (sh1\<lparr>kst := k, cmd_runner := True\<rparr>))
       else Inr sh1)"

definition boot_pitch :: "boot_data_t \<Rightarrow> boot_data_t" where
  "boot_pitch b = b\<lparr>pitch := of_nat (unat (x_res b) * unat (bpp b) div 8)\<rparr>"

definition set_boot :: "(boot_data_t \<Rightarrow> boot_data_t) \<Rightarrow> 'a kst shell \<Rightarrow> 'a kst shell" where
  "set_boot f = kdo (\<lambda>k. k\<lparr>kos_boot := f (kos_boot k)\<rparr>)"

text \<open>The option that sets a boot parameter to a number.\<close>

definition boot_option :: "string \<Rightarrow> (uint32 \<Rightarrow> boot_data_t \<Rightarrow> boot_data_t) option" where
  "boot_option o1 =
     (if o1 = ''--x_res'' then Some (\<lambda>v b. boot_pitch (b\<lparr>x_res := ucast v\<rparr>))
      else if o1 = ''--y_res'' then Some (\<lambda>v b. b\<lparr>y_res := ucast v\<rparr>)
      else if o1 = ''--bpp'' then Some (\<lambda>v b. boot_pitch (b\<lparr>bpp := ucast v\<rparr>))
      else if o1 = ''--pitch'' then Some (\<lambda>v b. b\<lparr>pitch := ucast v\<rparr>)
      else None)"

function boot_params_loop :: "int \<Rightarrow> nat \<Rightarrow> argv \<Rightarrow> 'a kst shell \<Rightarrow> 'a kst shell res" where
  "boot_params_loop argc i argv sh =
     (if argc = 0 then Inr sh
      else if length argv \<le> i then Inl (if argv = [] then Null_deref else Out_of_bounds)
      else rbind (deref argv i) (\<lambda>o1.
        case (if argc > 1 then boot_option o1 else None) of
          Some f \<Rightarrow> rbind (deref argv (i + 1)) (\<lambda>v.
            boot_params_loop (argc - 2) (i + 2) argv (set_boot (f (strtoul v 0)) sh))
        | None \<Rightarrow> Inr (fputs (''bad option: '' @ o1 @ nl @ usage_umka_set_boot_params) sh)))"
  by pat_completeness auto
termination by (relation "measure (\<lambda>(argc, i, argv, sh). length argv - i)") auto

declare boot_params_loop.simps [simp del]

definition cmd_umka_set_boot_params :: "'a kst command" where
  "cmd_umka_set_boot_params K argc argv sh = boot_params_loop (argc - 1) 1 argv sh"

definition cmd_csleep :: "'a kst command" where
  "cmd_csleep K argc argv sh = (if argc \<noteq> 2 then Inr (fputs usage_csleep sh)
     else rbind (deref argv 1) (\<lambda>s. run_in_slot K (UMKA_CMD_SYS_CSLEEP (strtoul s 0)) sh))"

definition cmd_wait_for_idle :: "'a kst command" where
  "cmd_wait_for_idle K argc argv sh = (if argc \<noteq> 1 then Inr (fputs usage_wait_for_idle sh)
     else run_in_slot K UMKA_CMD_WAIT_FOR_IDLE sh)"

definition cmd_wait_for_os_idle :: "'a kst command" where
  "cmd_wait_for_os_idle K argc argv sh = (if argc \<noteq> 1 then Inr (fputs usage_wait_for_os_idle sh)
     else run_in_slot K UMKA_CMD_WAIT_FOR_OS_IDLE sh)"

definition cmd_wait_for_window :: "'a kst command" where
  "cmd_wait_for_window K argc argv sh = (if argc \<noteq> 2 then Inr (fputs usage_wait_for_window sh)
     else rbind (deref argv 1) (\<lambda>s. run_in_slot K (UMKA_CMD_WAIT_FOR_WINDOW s) sh))"

text \<open>\<^verbatim>\<open>i40\<close> looks at seven slots of the vector whatever the argument count is.\<close>

definition i40_arg :: "argv \<Rightarrow> nat \<Rightarrow> uint32 res" where
  "i40_arg argv i = rbind (load argv i) (\<lambda>p.
     if p = NULL then Inr 0 else rbind (deref_ptr p) (\<lambda>s. Inr (strtoul s 0)))"

definition show_reg :: "string \<Rightarrow> uint32 \<Rightarrow> string" where
  "show_reg nm w = nm @ '' = '' @ prec 8 (fmt_x w) @ ''  '' @ fmt_u w @ ''  '' @ fmt_d w @ nl"

definition cmd_i40 :: "'k command" where
  "cmd_i40 K argc argv sh = (if argc < 2 \<or> argc > 8 then Inr (fputs usage_i40 sh)
     else rbind (i40_arg argv 1) (\<lambda>a. rbind (i40_arg argv 2) (\<lambda>b. rbind (i40_arg argv 3) (\<lambda>c.
       rbind (i40_arg argv 4) (\<lambda>d. rbind (i40_arg argv 5) (\<lambda>s. rbind (i40_arg argv 6) (\<lambda>e.
       rbind (i40_arg argv 7) (\<lambda>p.
       let ((a', b'), sh1) = kcall (umka_i40 K \<lparr>eax = a, ebx = Some (Num b), ecx = Some (Num c),
             edx = Some (Num d), esi = Some (Num s), edi = Some (Num e), ebp = Some (Num p)\<rparr>) sh in
       Inr (fputs (show_reg ''eax'' a' @ show_reg ''ebx'' b') sh1)))))))))"

section \<open>Disks\<close>

fun kmg_steps :: "string list \<Rightarrow> uint64 \<Rightarrow> string \<Rightarrow> uint64 \<times> string" where
  "kmg_steps [] b u = (b, u)"
| "kmg_steps (v # vs) b u = (let q = tdiv (sint b) 1024 in
     if sint b - q * 1024 \<noteq> 0 then (b, u) else kmg_steps vs (word_of_int q) v)"

definition bytes_to_kmgtpe :: "uint64 \<Rightarrow> uint64 \<times> string" where
  "bytes_to_kmgtpe bytes = (if bytes = 0 then (bytes, ''B'')
     else kmg_steps [''kiB'', ''MiB'', ''GiB'', ''TiB'', ''PiB'', ''EiB''] bytes ''B'')"

definition show_kmg :: "uint64 \<Rightarrow> string" where
  "show_kmg n = (let (c, u) = bytes_to_kmgtpe n in ''('' @ fmt_u c @ '' '' @ u @ '')'')"

fun fsname :: "fs_user_functions \<Rightarrow> string" where
  "fsname Xfs = ''xfs''"
| "fsname Ext = ''ext''"
| "fsname Fat = ''fat''"
| "fsname Exfat = ''exfat''"
| "fsname Ntfs = ''ntfs''"
| "fsname Iso9660 = ''iso9660''"
| "fsname Other_fs = ''???''"

definition show_partition :: "disk_t \<Rightarrow> nat \<Rightarrow> partition_t \<Rightarrow> string" where
  "show_partition d i p = ''/'' @ disk_name d @ ''/'' @ fmt_int (int (i + 1)) @ '': fs='' @ fsname (part_fs p)
     @ '', start='' @ fmt_u (first_sector p) @ '' '' @ show_kmg (ucast (media_sector_size d) * first_sector p)
     @ '', length='' @ fmt_u (part_length p) @ '' '' @ show_kmg (ucast (media_sector_size d) * part_length p) @ nl"

definition show_disk :: "disk_t \<Rightarrow> string" where
  "show_disk d = ''/'' @ disk_name d @ '': sector_size='' @ fmt_u (media_sector_size d)
     @ '', capacity='' @ fmt_u (media_capacity d) @ '' ''
     @ show_kmg (ucast (media_sector_size d) * media_capacity d)
     @ '', num_partitions='' @ fmt_u (of_nat (length (partitions d)) :: uint32) @ nl"

text \<open>The disk is reached through the address the kernel returned.\<close>

definition disk_at :: "uint32 \<Rightarrow> 'a kst \<Rightarrow> disk_t res" where
  "disk_at p k = (if p = 0 then Inl Null_deref
     else case map_of (disk_list k) p of None \<Rightarrow> Inl Out_of_bounds | Some d \<Rightarrow> Inr d)"

definition disk_list_partitions :: "uint32 \<Rightarrow> 'a kst shell \<Rightarrow> 'a kst shell res" where
  "disk_list_partitions p sh = rbind (disk_at p (kst sh)) (\<lambda>d.
     Inr (fputs (show_disk d
       @ concat (map (\<lambda>(i, q). show_partition d i q) (enumerate 0 (partitions d)))) sh))"

abbreviation (input) RAMDISK_MAX_LEN :: nat where "RAMDISK_MAX_LEN \<equiv> 1474560"

definition cant_open :: "string \<Rightarrow> 'k shell \<Rightarrow> 'k shell" where
  "cant_open fname sh = fputs (''[!] can'' @ quote @ ''t open file '' @ quote @ fname @ quote @ '': ''
     @ e_strerror (env sh) fname @ nl) sh"

text \<open>A file that is too big stays open. A read error leaves the ramdisk as it was.\<close>

definition cmd_ramdisk_init :: "'a kst command" where
  "cmd_ramdisk_init K argc argv sh = (if argc \<noteq> 2 then Inr (fputs usage_ramdisk_init sh)
     else rbind (deref argv 1) (\<lambda>fname. let (fd, w) = host_open_rdonly (host sh) fname in
       case (if fd < 0 then None else h_files (host sh) fname) of
         None \<Rightarrow> Inr (cant_open fname sh)
       | Some bs \<Rightarrow>
           if length bs > RAMDISK_MAX_LEN
           then Inr (fputs (''[!] file '' @ quote @ fname @ quote @ '' is too big, max size is ''
                      @ fmt_int (int RAMDISK_MAX_LEN) @ '' bytes'' @ nl) (sh\<lparr>host := w\<rparr>))
           else rbind (blit (kos_ramdisk (kst sh)) (if fname \<in> set (h_badfiles (host sh)) then [] else bs))
             (\<lambda>rd. let (p, sh1) = kcall (kos K ''kos_ramdisk_init'' [])
                                     (kdo (\<lambda>k. k\<lparr>kos_ramdisk := rd\<rparr>) sh) in
               disk_list_partitions p sh1)))"

text \<open>
  \<^verbatim>\<open>-c\<close> sets the size of the disk cache. The kernel gets the disk by its number in the list of
  disks the shell has opened.
\<close>

definition disk_add_opt :: "int \<Rightarrow> cptr \<Rightarrow> (size_t \<times> int) \<times> 'k shell \<Rightarrow> ((size_t \<times> int) \<times> 'k shell) ctl res" where
  "disk_add_opt r p = (\<lambda>((csize, adj), sh).
     if r = int_of_char CHR ''c''
     then rbind (deref_ptr p) (\<lambda>s. Inr (Continue ((strtoul s 0, 1), sh)))
     else Inr (Return ((csize, adj), fputs usage_disk_add sh)))"

definition cmd_disk_add :: "'a kst command" where
  "cmd_disk_add K argc argv sh = (if argc < 3 then Inr (fputs usage_disk_add sh)
     else rbind (optparse_init argv) (\<lambda>o0. rbind (optparse_arg o0) (\<lambda>(fp, o1).
       rbind (optparse_arg o1) (\<lambda>(dp, o2). rbind (opt_while o2 ''c:'' disk_add_opt ((0, 0), sh)) (\<lambda>(c, o3).
       case c of Return (x, sh1) \<Rightarrow> Inr sh1
       | Continue ((csize, adj), sh1) \<Rightarrow>
           rbind (deref_ptr fp) (\<lambda>fname. rbind (deref_ptr dp) (\<lambda>dname.
           rbind (vdisk_init (e_mem (env sh1)) (host sh1) fname adj csize) (\<lambda>(d, w).
           let sh2 = sh1\<lparr>host := w\<rparr>;
               failed = (\<lambda>s. fputs (''umka: can'' @ quote @ ''t add file '' @ quote @ fname @ quote
                           @ '' as disk '' @ quote @ dname @ quote @ nl) s) in
           case d of None \<Rightarrow> Inr (failed sh2)
           | Some dk \<Rightarrow>
               let h = Num (of_nat (length (vdisks sh2)));
                   (p, sh3) = kcall (kos K ''disk_add'' [h, Str dname, h, Num 0])
                                    (sh2\<lparr>vdisks := vdisks sh2 @ [dk]\<rparr>) in
               if p = 0 then Inr (failed sh3)
               else disk_list_partitions p (kdo (\<lambda>k. snd (kos K ''disk_media_changed'' [Num p, Num 1] k)) sh3)))))))))"

definition disk_del_by_name :: "'a kst kernel \<Rightarrow> string \<Rightarrow> 'a kst shell \<Rightarrow> 'a kst shell" where
  "disk_del_by_name K nm sh = (case find (\<lambda>(p, d). disk_name d = nm) (disk_list (kst sh)) of
       Some (p, d) \<Rightarrow> kdo (\<lambda>k. snd (kos K ''disk_del'' [Num p] k)) sh
     | None \<Rightarrow> fputs (''umka: can'' @ quote @ ''t find disk '' @ quote @ nm @ quote @ nl) sh)"

definition cmd_disk_del :: "'a kst command" where
  "cmd_disk_del K argc argv sh = (if argc \<noteq> 2 then Inr (fputs usage_disk_del sh)
     else rbind (deref argv 1) (\<lambda>nm. Inr (disk_del_by_name K nm sh)))"

definition cmd_pwd :: "'k command" where
  "cmd_pwd K argc argv sh = (if argc \<noteq> 1 then Inr (fputs usage_pwd sh)
     else rbind (load_cwd K sh) (\<lambda>sh1. Inr (fputs (cstr (cur_dir sh1) @ nl) sh1)))"

end
