(* ===== verification/ShellInfo.thy ===== *)
theory ShellInfo
  imports ShellCore
begin

unbundle bit_operations_syntax

text \<open>
  Handlers of \<^verbatim>\<open>shell.c\<close> that show and change kernel tables and variables (\<^verbatim>\<open>get_key\<close> to
  \<^verbatim>\<open>check_for_event\<close>), and the mouse.
\<close>

section \<open>Dumps\<close>

definition cmd_get_key :: "'k command" where
  "cmd_get_key K argc argv sh = (if argc > 1 then Inr (fputs usage_get_key sh)
     else let (key, sh1) = kcall (umka_get_key K) sh in
       Inr (fputs (''0x'' @ prec 8 (fmt_x key) @ nl) sh1))"

text \<open>A count given as the first argument, or the default.\<close>

definition opt_count :: "int \<Rightarrow> argv \<Rightarrow> int \<Rightarrow> int res" where
  "opt_count argc argv dflt = (if argc > 1 then rbind (deref argv 1) (\<lambda>s. Inr (strtol_int s 0)) else Inr dflt)"

abbreviation (input) INT_MAX :: int where "INT_MAX \<equiv> 2147483647"

definition cmd_dump_key_buff :: "'a kst command" where
  "cmd_dump_key_buff K argc argv sh = (if argc > 2 then Inr (fputs usage_dump_key_buff sh)
     else rbind (opt_count argc argv INT_MAX) (\<lambda>count.
       rfor [0..<nat (min count (int (unat (kos_key_count (kst sh)))))] (\<lambda>i s.
         rbind (nth_res (kos_key_buff (kst sh)) i) (\<lambda>a.
         rbind (nth_res (kos_key_buff (kst sh)) (120 + 2 + i)) (\<lambda>b.
         Inr (fputs (width 3 (fmt_int (int i)) @ '' 0x'' @ hex2 a @ '' 0x'' @ hex2 b @ nl) s)))) sh))"

definition dump_words :: "uint16 list \<Rightarrow> int \<Rightarrow> 'k shell \<Rightarrow> 'k shell res" where
  "dump_words ws depth = rfor [0..<nat depth] (\<lambda>i s. rbind (nth_res ws i) (\<lambda>w.
     Inr (fputs (width 3 (fmt_int (int i)) @ '': '' @ width 3 (fmt_u w) @ nl) s)))"

definition cmd_dump_win_stack :: "'a kst command" where
  "cmd_dump_win_stack K argc argv sh = (if argc > 2 then Inr (fputs usage_dump_win_stack sh)
     else rbind (opt_count argc argv 5) (\<lambda>depth. dump_words (kos_win_stack (kst sh)) depth sh))"

definition cmd_dump_win_pos :: "'a kst command" where
  "cmd_dump_win_pos K argc argv sh = (if argc < 1 then Inr (fputs usage_dump_win_pos sh)
     else rbind (opt_count argc argv 5) (\<lambda>depth. dump_words (kos_win_pos (kst sh)) depth sh))"

definition cmd_dump_win_map :: "'a kst command" where
  "cmd_dump_win_map K argc argv sh = (if argc < 0 then Inr (fputs usage_dump_win_map sh)
     else let d = kos_display (kst sh) in
       rfor [0..<unat (disp_height d)] (\<lambda>y s.
         rbind (rfor [0..<unat (disp_width d)] (\<lambda>x s'.
           rbind (nth_res (win_map d) (unat (of_nat y * disp_width d + of_nat x :: uint32))) (\<lambda>b.
             Inr (fputs [char_of ((unat b + 48) mod 256 :: nat)] s'))) s)
         (\<lambda>s2. Inr (fputs nl s2))) sh)"

text \<open>An index that may be negative, and the option \<^verbatim>\<open>-p\<close> after it.\<close>

definition table_entry :: "'e list \<Rightarrow> int \<Rightarrow> 'e res" where
  "table_entry t idx = (if idx < 0 then Inl Out_of_bounds else nth_res t (nat idx))"

definition show_pointers :: "int \<Rightarrow> argv \<Rightarrow> bool res" where
  "show_pointers argc argv = (if argc > 2 then rbind (deref argv 2) (\<lambda>s. Inr (s = ''-p'')) else Inr False)"

definition show_box :: "box_t \<Rightarrow> string" where
  "show_box b = fmt_u (b_left b) @ '' '' @ fmt_u (b_top b) @ '' '' @ fmt_u (b_width b) @ '' '' @ fmt_u (b_height b)"

definition show_wdata :: "bool \<Rightarrow> uint32 \<Rightarrow> wdata_t \<Rightarrow> string res" where
  "show_wdata ptrs base w = rbind (fmt_s (caption w)) (\<lambda>cap. Inr
     (''captionEncoding: '' @ fmt_u (caption_encoding w) @ nl @ ''caption: '' @ cap @ nl
      @ ''clientbox (ltwh): '' @ show_box (clientbox w) @ nl
      @ ''draw_bgr_x: '' @ fmt_u (draw_bgr_x w) @ nl @ ''draw_bgr_y: '' @ fmt_u (draw_bgr_y w) @ nl
      @ ''thread: '' @ fmt_u (slot_diff (wd_thread w) base) @ nl
      @ (if ptrs then ''thread: '' @ fmt_p (wd_thread w) @ nl @ ''cursor: '' @ fmt_p (cursor w) @ nl else [])))"

definition cmd_dump_wdata :: "'a kst command" where
  "cmd_dump_wdata K argc argv sh = (if argc < 2 then Inr (fputs usage_dump_wdata sh)
     else rbind (deref argv 1) (\<lambda>s. rbind (show_pointers argc argv) (\<lambda>ptrs.
       rbind (table_entry (kos_window_data (kst sh)) (strtol_int s 0)) (\<lambda>w.
       rbind (show_wdata ptrs (kos_slot_addr (kst sh)) w) (\<lambda>t. Inr (fputs t sh))))))"

definition show_appdata :: "bool \<Rightarrow> uint32 \<Rightarrow> appdata_t \<Rightarrow> string res" where
  "show_appdata ptrs base a = rbind (fmt_s (ad_cur_dir a)) (\<lambda>dir. rbind (fmt_s (exec_params a)) (\<lambda>par.
     let when = (\<lambda>s. if ptrs then s else []) in Inr
     (''app_name: '' @ cstr (app_name a) @ nl
      @ when (''process: '' @ fmt_p (ad_process a) @ nl @ ''fpu_state: '' @ fmt_p (fpu_state a) @ nl
              @ ''exc_handler: '' @ fmt_p (exc_handler a) @ nl)
      @ ''except_mask: '' @ fmt_x (except_mask a) @ nl
      @ when (''pl0_stack: '' @ fmt_p (pl0_stack a) @ nl @ ''fd_ev: '' @ fmt_p (fd_ev a) @ nl
              @ ''bk_ev: '' @ fmt_p (bk_ev a) @ nl @ ''fd_obj: '' @ fmt_p (fd_obj a) @ nl
              @ ''bk_obj: '' @ fmt_p (bk_obj a) @ nl @ ''saved_esp: '' @ fmt_p (saved_esp a) @ nl)
      @ ''dbg_state: '' @ fmt_u (dbg_state a) @ nl @ ''cur_dir: '' @ dir @ nl
      @ ''event_mask: '' @ fmt_x (event_mask a) @ nl @ ''tid: '' @ fmt_d (ad_tid a) @ nl
      @ ''state: 0x'' @ fmt_x (ad_state a) @ nl @ ''wnd_number: '' @ fmt_u (wnd_number a) @ nl
      @ ''terminate_protection: '' @ fmt_u (terminate_protection a) @ nl
      @ ''keyboard_mode: '' @ fmt_u (ad_keyboard_mode a) @ nl @ ''exec_params: '' @ par @ nl
      @ ''priority: '' @ fmt_u (priority a) @ nl
      @ ''in_schedule: prev'' @ when ('' '' @ fmt_p (in_schedule_prev a))
      @ '' ('' @ fmt_u (slot_diff (in_schedule_prev a) base) @ ''), next''
      @ when ('' '' @ fmt_p (in_schedule_next a))
      @ '' ('' @ fmt_u (slot_diff (in_schedule_next a) base) @ '')'' @ nl)))"

definition cmd_dump_appdata :: "'a kst command" where
  "cmd_dump_appdata K argc argv sh = (if argc < 2 then Inr (fputs usage_dump_appdata sh)
     else rbind (deref argv 1) (\<lambda>s. rbind (show_pointers argc argv) (\<lambda>ptrs.
       rbind (table_entry (kos_slot_base (kst sh)) (strtol_int s 0)) (\<lambda>a.
       rbind (show_appdata ptrs (kos_slot_addr (kst sh)) a) (\<lambda>t. Inr (fputs t sh))))))"

section \<open>Variables of the kernel\<close>

definition cmd_switch_to_thread :: "'a kst command" where
  "cmd_switch_to_thread K argc argv sh = (if argc \<noteq> 2 then Inr (fputs usage_switch_to_thread sh)
     else rbind (deref argv 1) (\<lambda>s. let tid = ucast (ucast (strtoul s 0) :: uint8) in
       Inr (kdo (\<lambda>k. k\<lparr>kos_current_slot_idx := tid, kos_current_slot := kos_slot_addr k + 256 * tid\<rparr>) sh)))"

definition cmd_get :: "'a kst command" where
  "cmd_get K argc argv sh = (if argc \<noteq> 2 then Inr (fputs usage_get sh)
     else rbind (deref argv 1) (\<lambda>v. let k = kst sh in Inr (fputs
       (if v = ''redraw_background'' then fmt_u (kos_redraw_background k) @ nl
        else if v = ''key_count'' then fmt_u (kos_key_count k) @ nl
        else if v = ''syslang'' then fmt_d (kos_syslang k) @ nl
        else if v = ''keyboard'' then fmt_d (kos_keyboard k) @ nl
        else if v = ''keyboard_mode'' then fmt_u (kos_keyboard_mode k) @ nl
        else ''no such variable: '' @ v @ nl @ usage_get) sh)))"

definition cmd_set :: "'a kst command" where
  "cmd_set K argc argv sh = (if argc \<noteq> 3 then Inr (fputs usage_set sh)
     else rbind (args argv 2) (\<lambda>a. let v = a ! 1; value = strtol (a ! 2) 0 in
       Inr (if strtol_end (a ! 2) 0 \<noteq> [] then fputs (''integer required: '' @ a ! 2 @ nl) sh
        else if v = ''redraw_background'' then kdo (\<lambda>k. k\<lparr>kos_redraw_background := ucast value\<rparr>) sh
        else if v = ''syslang'' then kdo (\<lambda>k. k\<lparr>kos_syslang := value\<rparr>) sh
        else if v = ''keyboard'' then kdo (\<lambda>k. k\<lparr>kos_keyboard := value\<rparr>) sh
        else if v = ''keyboard_mode'' then kdo (\<lambda>k. k\<lparr>kos_keyboard_mode := ucast value\<rparr>) sh
        else fputs (''bad option: '' @ v @ nl @ usage_set) sh)))"

definition cmd_new_sys_thread :: "'k command" where
  "cmd_new_sys_thread K argc argv sh = (if argc = 0 then Inr (fputs usage_new_sys_thread sh)
     else let (tid, sh1) = kcall (kos_new_sys_threads K 0 (Num 0) (Num 0)) sh in
       Inr (fputs (''tid: '' @ fmt_u tid @ nl) sh1))"

section \<open>The mouse\<close>

record mouse_opts =
  lbheld :: uint32
  mbheld :: uint32
  rbheld :: uint32
  xabs :: uint32
  yabs :: uint32
  xmoving :: uint32
  ymoving :: uint32
  hscroll :: uint32
  vscroll :: uint32

definition mouse_opts_init :: mouse_opts where
  "mouse_opts_init = \<lparr>lbheld = 0, mbheld = 0, rbheld = 0, xabs = 0, yabs = 0, xmoving = 0, ymoving = 0,
     hscroll = 0, vscroll = 0\<rparr>"

text \<open>A coordinate: a sign that says how, then the number. The result says whether it is absolute.\<close>

definition mouse_coord :: "string \<Rightarrow> (bool \<times> uint32) option" where
  "mouse_coord s = (case s of [] \<Rightarrow> None
     | c # t \<Rightarrow> if c = CHR ''='' then Some (True, strtol t 0)
         else if c = CHR ''+'' then Some (False, strtol t 0)
         else if c = CHR ''-'' then Some (False, - strtol t 0) else None)"

definition signed_arg :: "string \<Rightarrow> bool" where
  "signed_arg s = (take 1 s = ''+'' \<or> take 1 s = ''-'')"

definition mouse_move_opt :: "int \<Rightarrow> cptr \<Rightarrow> mouse_opts \<times> 'k shell \<Rightarrow> (mouse_opts \<times> 'k shell) ctl res" where
  "mouse_move_opt r p = (\<lambda>(m, sh). let bad = Inr (Return (m, fputs usage_mouse_move sh)) in
     if r = int_of_char CHR ''l'' then Inr (Continue (m\<lparr>lbheld := 1\<rparr>, sh))
     else if r = int_of_char CHR ''m'' then Inr (Continue (m\<lparr>mbheld := 1\<rparr>, sh))
     else if r = int_of_char CHR ''r'' then Inr (Continue (m\<lparr>rbheld := 1\<rparr>, sh))
     else if r = int_of_char CHR ''x'' then rbind (deref_ptr p) (\<lambda>s. case mouse_coord s of None \<Rightarrow> bad
       | Some (a, v) \<Rightarrow> Inr (Continue (m\<lparr>xmoving := v, xabs := if a then 1 else xabs m\<rparr>, sh)))
     else if r = int_of_char CHR ''y'' then rbind (deref_ptr p) (\<lambda>s. case mouse_coord s of None \<Rightarrow> bad
       | Some (a, v) \<Rightarrow> Inr (Continue (m\<lparr>ymoving := v, yabs := if a then 1 else yabs m\<rparr>, sh)))
     else if r = int_of_char CHR ''h'' then rbind (deref_ptr p) (\<lambda>s.
       if \<not> signed_arg s then bad else Inr (Continue (m\<lparr>hscroll := strtol s 0\<rparr>, sh)))
     else if r = int_of_char CHR ''v'' then rbind (deref_ptr p) (\<lambda>s.
       if \<not> signed_arg s then bad else Inr (Continue (m\<lparr>vscroll := strtol s 0\<rparr>, sh)))
     else bad)"

definition mouse_btn_state :: "mouse_opts \<Rightarrow> uint32" where
  "mouse_btn_state m = lbheld m + shl (rbheld m) 1 + shl (mbheld m) 2 + shl (yabs m) 30 + shl (xabs m) 31"

definition cmd_mouse_move :: "'a kst command" where
  "cmd_mouse_move K argc argv sh = (if argc = 0 then Inr (fputs usage_mouse_move sh)
     else rbind (optparse_init argv) (\<lambda>o0.
       rbind (opt_while o0 ''lmrx:y:h:v:'' mouse_move_opt (mouse_opts_init, sh)) (\<lambda>(c, o1).
       case c of Return (m, sh1) \<Rightarrow> Inr sh1
       | Continue (m, sh1) \<Rightarrow> run_in_slot K (UMKA_CMD_SET_MOUSE_DATA (mouse_btn_state m) (xmoving m)
           (ymoving m) (vscroll m) (hscroll m)) sh1)))"

section \<open>Processes and events\<close>

text \<open>The members of the packed \<^verbatim>\<open>process_information_t\<close>, by offset.\<close>

definition box_at :: "byte list \<Rightarrow> nat \<Rightarrow> box_t" where
  "box_at bs i = \<lparr>b_left = le32 bs i, b_top = le32 bs (i + 4), b_width = le32 bs (i + 8), b_height = le32 bs (i + 12)\<rparr>"

definition show_process_info :: "byte list \<Rightarrow> string" where
  "show_process_info i =
     ''cpu_usage: '' @ fmt_u (le32 i 0) @ nl @ ''window_stack_position: '' @ fmt_u (le16 i 4) @ nl
     @ ''window_stack_value: '' @ fmt_u (le16 i 6) @ nl @ ''process_name: '' @ cstr (drop 10 i) @ nl
     @ ''memory_start: 0x'' @ prec 8 (fmt_x (le32 i 22)) @ nl
     @ ''used_memory: '' @ fmt_u (le32 i 26) @ '' (0x'' @ fmt_x (le32 i 26) @ '')'' @ nl
     @ ''pid: '' @ fmt_u (le32 i 30) @ nl @ ''box: '' @ show_box (box_at i 34) @ nl
     @ ''slot_state: '' @ fmt_u (le16 i 50) @ nl @ ''client_box: '' @ show_box (box_at i 54) @ nl
     @ ''wnd_state: 0x'' @ hex2 (i ! 70) @ nl"

abbreviation (input) sizeof_process_information :: nat where "sizeof_process_information \<equiv> 1024"

definition cmd_process_info :: "'k command" where
  "cmd_process_info K argc argv sh = (if argc \<noteq> 2 then Inr (fputs usage_process_info sh)
     else rbind (deref argv 1) (\<lambda>s. case shell_parse_sint sh s of None \<Rightarrow> Inl Uninitialised
       | Some pid \<Rightarrow>
           let (d, sh1) = kcall (umka_sys_process_info K pid (OutBuf sizeof_process_information)) sh in
           rbind (blit (junk (e_mem (env sh)) sizeof_process_information) d) (\<lambda>info.
             Inr (fputs (show_process_info info) sh1))))"

definition cmd_check_for_event :: "'k command" where
  "cmd_check_for_event K argc argv sh = (if argc \<noteq> 1 then Inr (fputs usage_check_for_event sh)
     else let (event, sh1) = kcall (umka_sys_check_for_event K) sh in
       Inr (fputs (fmt_u event @ nl) sh1))"

end
