(* ===== verification/ShellGui.thy ===== *)
theory ShellGui
  imports ShellCore
begin

unbundle bit_operations_syntax

text \<open>
  Handlers of \<^verbatim>\<open>shell.c\<close> that wrap the drawing, window, skin, font, keyboard, mouse and cursor
  system calls: each parses its arguments, makes one call and prints what it returned.
\<close>

section \<open>Drawing\<close>

definition cmd_set_pixel :: "'k command" where
  "cmd_set_pixel K argc argv sh = (if argc < 4 then Inr (fputs usage_set_pixel sh)
     else rbind (args argv 3) (\<lambda>a. rbind (last_flag argc argv 4 ''-i'') (\<lambda>invert.
       Inr (kdo (umka_sys_set_pixel K (num a 1) (num a 2) (hex a 3) invert) sh))))"

definition cmd_write_text :: "'k command" where
  "cmd_write_text K argc argv sh = (if argc \<noteq> 12 then Inr (fputs usage_write_text sh)
     else rbind (args argv 11) (\<lambda>a.
       Inr (kdo (umka_sys_write_text K (num a 1) (num a 2) (hex a 3) (num a 5) (num a 6) (num a 7)
                  (num a 8) (num a 9) (a ! 4) (num a 10) (num a 11)) sh)))"

definition number_base :: "uint32 \<Rightarrow> uint32" where
  "number_base b = (if b = 10 then 0 else if b = 16 then 1 else if b = 2 then 2 else 0)"

definition cmd_display_number :: "'k command" where
  "cmd_display_number K argc argv sh = (if argc \<noteq> 15 then Inr (fputs usage_display_number sh)
     else rbind (args argv 14) (\<lambda>a.
       Inr (kdo (umka_sys_display_number K (num a 1) (number_base (num a 2)) (num a 3) (num a 4) (num a 5)
                  (num a 6) (num a 7) (num a 8) (hex a 9) (num a 10) (num a 11) (num a 12) (num a 13)
                  (hex a 14)) sh)))"

definition cmd_button :: "'k command" where
  "cmd_button K argc argv sh = (if argc \<noteq> 9 then Inr (fputs usage_button sh)
     else rbind (args argv 8) (\<lambda>a. case shell_parse_uint sh (a ! 1) of None \<Rightarrow> Inl Uninitialised
       | Some x \<Rightarrow> Inr (kdo (umka_sys_button K x (num a 2) (num a 3) (num a 4) (num a 5) (num a 7) (num a 8)
                              (hex a 6)) sh)))"

definition cmd_put_image :: "'k command" where
  "cmd_put_image K argc argv sh = (if argc \<noteq> 6 then Inr (fputs usage_put_image sh)
     else rbind (args argv 5) (\<lambda>a. rbind (read_whole_unchecked sh (a ! 1)) (\<lambda>img.
       Inr (kdo (umka_sys_put_image K (InBuf img) (num a 2) (num a 3) (num a 4) (num a 5)) sh))))"

definition cmd_put_image_palette :: "'k command" where
  "cmd_put_image_palette K argc argv sh = (if argc \<noteq> 8 then Inr (fputs usage_put_image_palette sh)
     else rbind (args argv 7) (\<lambda>a. rbind (read_whole_unchecked sh (a ! 1)) (\<lambda>img.
       Inr (kdo (umka_sys_put_image_palette K (InBuf img) (num a 2) (num a 3) (num a 4) (num a 5) (num a 6)
                  (Num 0) (num a 7)) sh))))"

definition cmd_draw_rect :: "'k command" where
  "cmd_draw_rect K argc argv sh = (if argc < 6 then Inr (fputs usage_draw_rect sh)
     else rbind (args argv 5) (\<lambda>a. rbind (last_flag argc argv 6 ''-g'') (\<lambda>gradient.
       Inr (kdo (umka_sys_draw_rect K (num a 1) (num a 2) (num a 3) (num a 4) (hex a 5) gradient) sh))))"

definition cmd_get_screen_size :: "'k command" where
  "cmd_get_screen_size K argc argv sh = (if argc \<noteq> 1 then Inr (fputs usage_get_screen_size sh)
     else let ((x, y), sh1) = kcall (umka_sys_get_screen_size K) sh in
       Inr (fputs (fmt_u x @ ''x'' @ fmt_u y @ nl) sh1))"

definition cmd_draw_line :: "'k command" where
  "cmd_draw_line K argc argv sh = (if argc < 6 then Inr (fputs usage_draw_line sh)
     else rbind (args argv 5) (\<lambda>a. rbind (last_flag argc argv 6 ''-i'') (\<lambda>invert.
       Inr (kdo (umka_sys_draw_line K (num a 1) (num a 2) (num a 3) (num a 4) (hex a 5) invert) sh))))"

section \<open>Windows\<close>

definition cmd_set_window_caption :: "'k command" where
  "cmd_set_window_caption K argc argv sh = (if argc \<noteq> 3 then Inr (fputs usage_set_window_caption sh)
     else rbind (args argv 2) (\<lambda>a. Inr (kdo (umka_sys_set_window_caption K (a ! 1) (num a 2)) sh)))"

definition cmd_draw_window :: "'k command" where
  "cmd_draw_window K argc argv sh = (if argc \<noteq> 13 then Inr (fputs usage_draw_window sh)
     else rbind (args argv 12) (\<lambda>a.
       Inr (kdo (umka_sys_draw_window K (num a 1) (num a 2) (num a 3) (num a 4) (hex a 5) (num a 6) (num a 7)
                  (num a 8) (num a 9) (num a 10) (num a 11) (a ! 12)) sh)))"

definition cmd_window_redraw :: "'k command" where
  "cmd_window_redraw K argc argv sh = (if argc \<noteq> 2 then Inr (fputs usage_window_redraw sh)
     else rbind (args argv 1) (\<lambda>a. Inr (kdo (umka_sys_window_redraw K (num a 1)) sh)))"

definition cmd_move_window :: "'k command" where
  "cmd_move_window K argc argv sh = (if argc \<noteq> 5 then Inr (fputs usage_move_window sh)
     else rbind (args argv 4) (\<lambda>a.
       Inr (kdo (umka_sys_move_window K (num a 1) (num a 2) (strtol (a ! 3) 0) (strtol (a ! 4) 0)) sh)))"

definition cmd_blit_bitmap :: "'k command" where
  "cmd_blit_bitmap K argc argv sh = (if argc \<noteq> 15 then Inr (fputs usage_blit_bitmap sh)
     else rbind (args argv 14) (\<lambda>a. rbind (read_whole sh (a ! 1)) (\<lambda>f. case f of
         None \<Rightarrow> Inr (fputs (''[!] can'' @ quote @ ''t open file '' @ quote @ a ! 1 @ quote @ '': ''
                        @ e_strerror (env sh) (a ! 1) @ nl) sh)
       | Some img \<Rightarrow>
           Inr (kdo (umka_sys_blit_bitmap K (num a 10) (num a 11) (num a 12) (num a 13)
             (Words (map (\<lambda>i. Num (num a i)) [2, 3, 4, 5, 6, 7, 8, 9] @ [InBuf img, Num (num a 14)]))) sh))))"

section \<open>Colours, skin, fonts\<close>

definition cmd_set_window_colors :: "'k command" where
  "cmd_set_window_colors K argc argv sh = (if argc \<noteq> 11 then Inr (fputs usage_set_window_colors sh)
     else rbind (args argv 10) (\<lambda>a.
       Inr (kdo (umka_sys_set_window_colors K
         (InBuf (concat (map (\<lambda>i. bytes_le32 (hex a i)) [1, 2, 3, 4, 5, 6, 7, 8, 9, 10])))) sh)))"

definition color_names :: "string list" where
  "color_names = [''frame'', ''grab'', ''work_3d_dark'', ''work_3d_light'', ''grab_text'', ''work'',
     ''work_button'', ''work_button_text'', ''work_text'', ''work_graph'']"

definition cmd_get_window_colors :: "'k command" where
  "cmd_get_window_colors K argc argv sh = (if argc \<noteq> 1 then Inr (fputs usage_get_window_colors sh)
     else let (d, sh1) = kcall (umka_sys_get_window_colors K (OutBuf 40)) sh in
       rbind (blit (replicate 40 0xaa) d) (\<lambda>colors.
         Inr (fputs (concat (map (\<lambda>(i, nm). ''0x'' @ prec 8 (fmt_x (le32 colors (4 * i))) @ '' '' @ nm @ nl)
                (enumerate 0 color_names))) sh1)))"

definition cmd_get_skin_height :: "'k command" where
  "cmd_get_skin_height K argc argv sh = (if argc \<noteq> 1 then Inr (fputs usage_get_skin_height sh)
     else let (h, sh1) = kcall (umka_sys_get_skin_height K) sh in Inr (fputs (fmt_u h @ nl) sh1))"

definition show_rect :: "rect_t \<Rightarrow> string" where
  "show_rect r = fmt_u (r_left r) @ '' left'' @ nl @ fmt_u (r_top r) @ '' top'' @ nl
     @ fmt_u (r_right r) @ '' right'' @ nl @ fmt_u (r_bottom r) @ '' bottom'' @ nl"

definition cmd_get_screen_area :: "'k command" where
  "cmd_get_screen_area K argc argv sh = (if argc \<noteq> 1 then Inr (fputs usage_get_screen_area sh)
     else let (wa, sh1) = kcall (umka_sys_get_screen_area K) sh in Inr (fputs (show_rect wa) sh1))"

definition cmd_set_screen_area :: "'k command" where
  "cmd_set_screen_area K argc argv sh = (if argc \<noteq> 5 then Inr (fputs usage_set_screen_area sh)
     else rbind (args argv 4) (\<lambda>a. Inr (kdo (umka_sys_set_screen_area K
       \<lparr>r_left = num a 1, r_top = num a 2, r_right = num a 3, r_bottom = num a 4\<rparr>) sh)))"

definition cmd_get_skin_margins :: "'k command" where
  "cmd_get_skin_margins K argc argv sh = (if argc \<noteq> 1 then Inr (fputs usage_get_skin_margins sh)
     else let (wa, sh1) = kcall (umka_sys_get_skin_margins K) sh in Inr (fputs (show_rect wa) sh1))"

definition cmd_set_button_style :: "'k command" where
  "cmd_set_button_style K argc argv sh = (if argc \<noteq> 2 then Inr (fputs usage_set_button_style sh)
     else rbind (args argv 1) (\<lambda>a. Inr (kdo (umka_sys_set_button_style K (num a 1)) sh)))"

definition cmd_set_skin :: "'k command" where
  "cmd_set_skin K argc argv sh = (if argc \<noteq> 2 then Inr (fputs usage_set_skin sh)
     else rbind (deref argv 1) (\<lambda>path. let (status, sh1) = kcall (umka_sys_set_skin K path) sh in
       Inr (fputs (''status: '' @ fmt_d status @ nl) sh1)))"

definition cmd_get_font_smoothing :: "'k command" where
  "cmd_get_font_smoothing K argc argv sh = (if argc \<noteq> 1 then Inr (fputs usage_get_font_smoothing sh)
     else let (type, sh1) = kcall (umka_sys_get_font_smoothing K) sh in
       rbind (if sint type < 0 then Inl Out_of_bounds
              else nth_res [''off'', ''anti-aliasing'', ''subpixel''] (unat type)) (\<lambda>nm.
         Inr (fputs (''font smoothing: '' @ fmt_d type @ '' - '' @ nm @ nl) sh1)))"

definition cmd_set_font_smoothing :: "'k command" where
  "cmd_set_font_smoothing K argc argv sh = (if argc \<noteq> 2 then Inr (fputs usage_set_font_smoothing sh)
     else rbind (deref argv 1) (\<lambda>s. Inr (kdo (umka_sys_set_font_smoothing K (strtol s 0)) sh)))"

definition cmd_get_font_size :: "'k command" where
  "cmd_get_font_size K argc argv sh = (if argc \<noteq> 1 then Inr (fputs usage_get_font_size sh)
     else let (sz, sh1) = kcall (umka_sys_get_font_size K) sh in Inr (fputs (fmt_u sz @ ''px'' @ nl) sh1))"

definition cmd_set_font_size :: "'k command" where
  "cmd_set_font_size K argc argv sh = (if argc \<noteq> 2 then Inr (fputs usage_set_font_size sh)
     else rbind (args argv 1) (\<lambda>a. Inr (kdo (umka_sys_set_font_size K (num a 1)) sh)))"

end
