(* ===== verification/ShellInput.thy ===== *)
theory ShellInput
  imports ShellCore
begin

unbundle bit_operations_syntax

text \<open>
  Handlers of \<^verbatim>\<open>shell.c\<close> for keyboard layouts and languages, the mouse position and buttons,
  cursors, and the kernel's heap and debug board.
\<close>

section \<open>Keyboard layouts\<close>

text \<open>The argument of \<^verbatim>\<open>-t\<close>: a number or a name.\<close>

definition layout_type :: "string \<Rightarrow> uint32 option" where
  "layout_type s = (if strtol_end s 0 = [] then Some (strtol s 0)
     else if s = ''normal'' then Some 1 else if s = ''shift'' then Some 2 else if s = ''alt'' then Some 3
     else None)"

definition no_layout :: "string \<Rightarrow> string \<Rightarrow> 'k shell \<Rightarrow> 'k shell" where
  "no_layout s usage sh = fputs (''no such layout type: '' @ s @ nl @ usage) sh"

definition show_layout :: "byte list \<Rightarrow> string" where
  "show_layout layout = concat (map (\<lambda>row.
     concat (map (\<lambda>col. '' 0x'' @ hex2 (layout ! (row * 16 + col))) [0..<16]) @ nl) [0..<8])"

definition cmd_get_keyboard_layout :: "'k command" where
  "cmd_get_keyboard_layout K argc argv sh = (if argc < 3 then Inr (fputs usage_get_keyboard_layout sh)
     else rbind (args argv 2) (\<lambda>a.
       case (if a ! 1 = ''-t'' then layout_type (a ! 2) else Some (- 1)) of
         None \<Rightarrow> Inr (no_layout (a ! 2) usage_get_keyboard_layout sh)
       | Some type \<Rightarrow>
           let (d, sh1) = kcall (umka_sys_get_keyboard_layout K type (OutBuf KOS_LAYOUT_SIZE)) sh in
           rbind (blit (junk (e_mem (env sh)) KOS_LAYOUT_SIZE) d) (\<lambda>layout.
           if argc = 3 then Inr (fputs (show_layout layout) sh1)
           else if argc = 5 then rbind (deref argv 3) (\<lambda>f.
             if f \<noteq> ''-f'' then Inr (fputs usage_get_keyboard_layout sh1)
             else rbind (deref argv 4) (\<lambda>fname. if \<not> e_creatable (env sh1) fname
             then Inr (fputs (''can'' @ quote @ ''t open file for writing: '' @ fname @ nl
                        @ usage_get_keyboard_layout) sh1)
             else let n = e_fwrite (env sh1) fname KOS_LAYOUT_SIZE;
                      sh2 = sh1\<lparr>host := (host sh1)\<lparr>h_files := (h_files (host sh1))(fname \<mapsto> take n layout)\<rparr>\<rparr> in
               Inr (if n \<noteq> KOS_LAYOUT_SIZE
                    then fputs (''can'' @ quote @ ''t write '' @ fmt_int (int KOS_LAYOUT_SIZE)
                           @ '' bytes of layout, only '' @ fmt_int (int n) @ nl
                           @ usage_get_keyboard_layout) sh2
                    else sh2)))
           else Inr (fputs usage_get_keyboard_layout sh1))))"

text \<open>The codes of a layout from the vector; the first bad one is returned instead.\<close>

fun layout_codes :: "nat \<Rightarrow> nat \<Rightarrow> argv \<Rightarrow> byte list \<Rightarrow> (string + byte list) res" where
  "layout_codes 0 i argv acc = Inr (Inr acc)"
| "layout_codes (Suc n) i argv acc = rbind (deref argv i) (\<lambda>s.
     if strtol_end s 0 \<noteq> [] \<or> strtol_int s 0 > 0xff then Inr (Inl s)
     else layout_codes n (i + 1) argv (acc @ [ucast (strtol s 0)]))"

text \<open>\<^verbatim>\<open>type\<close> is set only by \<^verbatim>\<open>-t\<close>. The codes are taken from the fifth slot of the vector on.\<close>

definition cmd_set_keyboard_layout :: "'k command" where
  "cmd_set_keyboard_layout K argc argv sh =
     (if argc \<noteq> 5 \<and> argc \<noteq> 131 then Inr (fputs usage_set_keyboard_layout sh)
      else rbind (args argv 3) (\<lambda>a.
        case (if a ! 1 = ''-t'' then map_option Some (layout_type (a ! 2)) else Some None) of
          None \<Rightarrow> Inr (no_layout (a ! 2) usage_set_keyboard_layout sh)
        | Some type \<Rightarrow>
            let bad = (\<lambda>t. Inr (fputs (t @ nl @ usage_set_keyboard_layout) sh));
                finish = (\<lambda>layout. case type of None \<Rightarrow> Inl Uninitialised
                  | Some ty \<Rightarrow> let (status, sh1) = kcall (umka_sys_set_keyboard_layout K ty (InBuf layout)) sh in
                      Inr (fputs (''status: '' @ fmt_d status @ nl) sh1)) in
            if a ! 3 = ''-f'' \<and> argc = 5 then rbind (deref argv 4) (\<lambda>fname.
              if h_files (host sh) fname = None \<or> alloc_fd (host sh) = None
              then bad (''can'' @ quote @ ''t open file: '' @ fname)
              else let d = (if fname \<in> set (h_badfiles (host sh)) then []
                            else take KOS_LAYOUT_SIZE (the (h_files (host sh) fname))) in
                if length d \<noteq> KOS_LAYOUT_SIZE
                then bad (''can'' @ quote @ ''t read '' @ fmt_int (int KOS_LAYOUT_SIZE)
                       @ '' bytes of layout, only '' @ fmt_int (int (length d)))
                else finish d)
            else rbind (layout_codes KOS_LAYOUT_SIZE 4 argv []) (\<lambda>r. case r of
                Inl s \<Rightarrow> bad (''bad number: '' @ s) | Inr layout \<Rightarrow> finish layout)))"

section \<open>Languages and modes\<close>

definition lang_id_map :: "string list" where
  "lang_id_map = [''en'', ''fi'', ''ge'', ''ru'', ''fr'', ''et'', ''ua'', ''it'', ''be'', ''sp'', ''ca'']"

abbreviation (input) KOS_LANG_FIRST :: nat where "KOS_LANG_FIRST \<equiv> 1"
abbreviation (input) KOS_LANG_LAST :: nat where "KOS_LANG_LAST \<equiv> 11"

definition show_lang :: "uint32 \<Rightarrow> string" where
  "show_lang lang = (if int KOS_LANG_FIRST \<le> sint lang \<and> sint lang \<le> int KOS_LANG_LAST
     then fmt_d lang @ '' - '' @ lang_id_map ! (unat lang - KOS_LANG_FIRST) @ nl
     else ''invalid lang: '' @ fmt_d lang @ nl)"

definition cmd_get_keyboard_lang :: "'k command" where
  "cmd_get_keyboard_lang K argc argv sh = (if argc \<noteq> 1 then Inr (fputs usage_get_keyboard_lang sh)
     else let (lang, sh1) = kcall (umka_sys_get_keyboard_lang K) sh in
       shell_var_add_sint lang (fputs (show_lang lang) sh1))"

definition cmd_get_system_lang :: "'k command" where
  "cmd_get_system_lang K argc argv sh = (if argc \<noteq> 1 then Inr (fputs usage_get_system_lang sh)
     else let (lang, sh1) = kcall (umka_sys_get_system_lang K) sh in
       shell_var_add_uint lang (fputs (show_lang lang) sh1))"

text \<open>A language as a number or as its two letters; the position in the map is counted from one.\<close>

fun lang_index :: "string \<Rightarrow> nat \<Rightarrow> string list \<Rightarrow> nat" where
  "lang_index s i [] = i"
| "lang_index s i (l # ls) = (if s = l then i else lang_index s (i + 1) ls)"

definition parse_lang :: "string \<Rightarrow> uint32 option" where
  "parse_lang s = (if strtol_end s 0 = [] then Some (strtol s 0)
     else let lang = lang_index s 0 lang_id_map in
       if lang = KOS_LANG_LAST then None else Some (of_nat (lang + KOS_LANG_FIRST)))"

definition cmd_set_keyboard_lang :: "'k command" where
  "cmd_set_keyboard_lang K argc argv sh = (if argc \<noteq> 2 then Inr (fputs usage_set_keyboard_lang sh)
     else rbind (deref argv 1) (\<lambda>s. case parse_lang s of
         None \<Rightarrow> Inr (fputs (''no such lang: '' @ s @ nl @ usage_set_keyboard_lang) sh)
       | Some lang \<Rightarrow> Inr (snd (kcall (umka_sys_set_keyboard_lang K lang) sh))))"

definition cmd_set_system_lang :: "'k command" where
  "cmd_set_system_lang K argc argv sh = (if argc \<noteq> 2 then Inr (fputs usage_set_system_lang sh)
     else rbind (deref argv 1) (\<lambda>s. case parse_lang s of
         None \<Rightarrow> Inr (fputs (''no such lang: '' @ s @ nl @ usage_set_system_lang) sh)
       | Some lang \<Rightarrow> Inr (snd (kcall (umka_sys_set_system_lang K lang) sh))))"

definition cmd_get_keyboard_mode :: "'k command" where
  "cmd_get_keyboard_mode K argc argv sh = (if argc \<noteq> 1 then Inr (fputs usage_get_keyboard_mode sh)
     else let (type, sh1) = kcall (umka_sys_get_keyboard_mode K) sh in
       rbind (if sint type < 2 then (if sint type < 0 then Inl Out_of_bounds
                else Inr ([''ASCII'', ''scancodes''] ! unat type)) else Inr ''invalid!'') (\<lambda>nm.
         Inr (fputs (''keyboard_mode: '' @ fmt_d type @ '' - '' @ nm @ nl) sh1)))"

definition cmd_set_keyboard_mode :: "'k command" where
  "cmd_set_keyboard_mode K argc argv sh = (if argc \<noteq> 2 then Inr (fputs usage_set_keyboard_mode sh)
     else rbind (deref argv 1) (\<lambda>s. Inr (kdo (umka_sys_set_keyboard_mode K (strtol s 0)) sh)))"

section \<open>Mouse\<close>

definition cmd_set_mouse_pos_screen :: "'k command" where
  "cmd_set_mouse_pos_screen K argc argv sh = (if argc \<noteq> 3 then Inr (fputs usage_set_mouse_pos_screen sh)
     else rbind (args argv 2) (\<lambda>a. Inr (kdo (umka_sys_set_mouse_pos_screen K
       \<lparr>pt_y = ucast (strtol (a ! 2) 0), pt_x = ucast (strtol (a ! 1) 0)\<rparr>) sh)))"

definition show_point :: "point16s \<Rightarrow> string" where
  "show_point p = ''x y: '' @ fmt_d (pt_x p) @ '' '' @ fmt_d (pt_y p) @ nl"

definition cmd_get_mouse_pos_screen :: "'k command" where
  "cmd_get_mouse_pos_screen K argc argv sh = (if argc \<noteq> 1 then Inr (fputs usage_get_mouse_pos_screen sh)
     else let (pos, sh1) = kcall (umka_sys_get_mouse_pos_screen K) sh in Inr (fputs (show_point pos) sh1))"

text \<open>The kernel returns the two halves as one number, so a negative lower half borrows from the upper.\<close>

definition cmd_get_mouse_pos_window :: "'k command" where
  "cmd_get_mouse_pos_window K argc argv sh = (if argc \<noteq> 1 then Inr (fputs usage_get_mouse_pos_window sh)
     else let (pos, sh1) = kcall (umka_sys_get_mouse_pos_window K) sh;
              pos' = (if sint (pt_y pos) < 0 then pos\<lparr>pt_x := pt_x pos + 1\<rparr> else pos) in
       Inr (fputs (show_point pos') sh1))"

definition show_bit :: "bool \<Rightarrow> string" where
  "show_bit b = (if b then ''1'' else ''0'')"

definition show_bits :: "bool list \<Rightarrow> string" where
  "show_bits bs = concat (map (\<lambda>b. CHR '' '' # show_bit b) bs)"

definition show_held :: "mouse_state \<Rightarrow> string" where
  "show_held m = ''buttons held (left right middle 4th 5th):''
     @ show_bits [bl_held m, br_held m, bm_held m, b4_held m, b5_held m] @ nl"

definition cmd_get_mouse_buttons_state :: "'k command" where
  "cmd_get_mouse_buttons_state K argc argv sh =
     (if argc \<noteq> 1 then Inr (fputs usage_get_mouse_buttons_state sh)
      else let (m, sh1) = kcall (umka_sys_get_mouse_buttons_state K) sh in Inr (fputs (show_held m) sh1))"

definition cmd_get_mouse_buttons_state_events :: "'k command" where
  "cmd_get_mouse_buttons_state_events K argc argv sh =
     (if argc \<noteq> 1 then Inr (fputs usage_get_mouse_buttons_state_events sh)
      else let ((st, ev), sh1) = kcall (umka_sys_get_mouse_buttons_state_events K) sh in
        Inr (fputs (show_held st
          @ ''buttons pressed (left right middle):'' @ show_bits [bl_pressed ev, br_pressed ev, bm_pressed ev] @ nl
          @ ''buttons released (left right middle):'' @ show_bits [bl_released ev, br_released ev, bm_released ev] @ nl
          @ ''left button double click:'' @ show_bits [bl_dbclick ev] @ nl
          @ ''scrolls used (vertical horizontal):'' @ show_bits [vscroll_used ev, hscroll_used ev] @ nl) sh1))"

section \<open>Heap, files in kernel memory, cursors\<close>

definition zero_or_not :: "uint32 \<Rightarrow> string" where
  "zero_or_not p = (if p \<noteq> 0 then ''non-zero'' else ''0'')"

definition cmd_kos_sys_misc_init_heap :: "'k command" where
  "cmd_kos_sys_misc_init_heap K argc argv sh = (if argc \<noteq> 1 then Inr (fputs usage_kos_sys_misc_init_heap sh)
     else let (n, sh1) = kcall (kos_sys_misc_init_heap K) sh in
       Inr (fputs (''heap size = '' @ fmt_u n @ nl) sh1))"

definition load_file_opt :: "int \<Rightarrow> cptr \<Rightarrow> (bool \<times> bool) \<times> 'k shell \<Rightarrow> ((bool \<times> bool) \<times> 'k shell) ctl res" where
  "load_file_opt r p = (\<lambda>((h, ptrs), sh).
     if r = int_of_char CHR ''h'' then Inr (Continue ((True, ptrs), sh))
     else if r = int_of_char CHR ''p'' then Inr (Continue ((h, True), sh))
     else Inr (Return ((h, ptrs), fputs usage_kos_sys_misc_load_file sh)))"

text \<open>The options are parsed from the file name on, as if it were the program name.\<close>

definition cmd_kos_sys_misc_load_file :: "'k command" where
  "cmd_kos_sys_misc_load_file K argc argv sh = (if argc < 2 then Inr (fputs usage_kos_sys_misc_load_file sh)
     else rbind (deref argv 1) (\<lambda>fname. rbind (optparse_init (tl argv)) (\<lambda>o0.
       rbind (opt_while o0 ''hp'' load_file_opt ((False, False), sh)) (\<lambda>(c, o1).
       case c of Return (x, sh1) \<Rightarrow> Inr sh1
       | Continue ((h, ptrs), sh1) \<Rightarrow>
           let (ret, sh2) = kcall (kos_sys_misc_load_file K fname) sh1;
               sh3 = fputs (''file data = '' @ (if ptrs then fmt_p (fdata ret) else zero_or_not (fdata ret)) @ nl) sh2 in
           rbind (if h then print_hash (fbytes ret) (fsize ret) sh3 else Inr sh3) (\<lambda>sh4.
             shell_var_add_ptr (fdata ret) (fputs (''file size = '' @ fmt_u (fsize ret) @ nl) sh4))))))"

definition cmd_load_cursor_from_file :: "'k command" where
  "cmd_load_cursor_from_file K argc argv sh = (if argc \<noteq> 2 then Inr (fputs usage_load_cursor_from_file sh)
     else rbind (deref argv 1) (\<lambda>fname. let (handle, sh1) = kcall (umka_sys_load_cursor_from_file K fname) sh in
       shell_var_add_ptr handle (fputs (''handle = '' @ zero_or_not handle @ nl) sh1)))"

definition cmd_load_cursor_from_mem :: "'k command" where
  "cmd_load_cursor_from_mem K argc argv sh = (if argc \<noteq> 2 then Inr (fputs usage_load_cursor_from_mem sh)
     else rbind (deref argv 1) (\<lambda>fname. rbind (host_load_file sh fname) (\<lambda>f. case f of
         None \<Rightarrow> Inr (fputs (''[umka] Can'' @ quote @ ''t load file: '' @ fname @ nl) sh)
       | Some d \<Rightarrow> let (handle, sh1) = kcall (umka_sys_load_cursor_from_mem K (InBuf d)) sh in
           shell_var_add_ptr handle (fputs (''handle = '' @ zero_or_not handle @ nl) sh1))))"

definition cmd_set_cursor :: "'k command" where
  "cmd_set_cursor K argc argv sh = (if argc \<noteq> 2 then Inr (fputs usage_set_cursor sh)
     else rbind (deref argv 1) (\<lambda>s. case shell_parse_ptr sh s of None \<Rightarrow> Inl Uninitialised
       | Some h \<Rightarrow> let (prev, sh1) = kcall (umka_sys_set_cursor K h) sh in
           shell_var_add_ptr prev (fputs (''prev handle = '' @ zero_or_not prev @ nl) sh1)))"

end
