(* ===== verification/ShellFs.thy ===== *)
theory ShellFs
  imports ShellCore Umkart
begin

unbundle bit_operations_syntax

text \<open>
  Handlers of \<^verbatim>\<open>shell.c\<close> that use the file system calls: directories, \<^verbatim>\<open>ls\<close>, \<^verbatim>\<open>stat\<close>, \<^verbatim>\<open>read\<close>, \<^verbatim>\<open>exec\<close>,
  and the two that write host files, \<^verbatim>\<open>scrot\<close> and \<^verbatim>\<open>write_devices_dat\<close>.
\<close>

section \<open>Host files\<close>

definition cmd_write_devices_dat :: "'a kst command" where
  "cmd_write_devices_dat K argc argv sh = (if argc \<noteq> 2 then Inr (fputs usage_write_devices_dat sh)
     else rbind (deref argv 1) (\<lambda>fname. dump_devices_dat fname sh))"

text \<open>A pixel for the encoder: its bytes in the order red, green, blue, and full opacity.\<close>

definition scrot_pixel :: "uint32 \<Rightarrow> uint32" where
  "scrot_pixel p = shl (p AND 0xff) 16 + shl (shr p 8 AND 0xff) 8 + (shr p 16 AND 0xff) + 0xff000000"

definition words_of :: "byte list \<Rightarrow> uint32 list" where
  "words_of bs = map (\<lambda>i. le32 bs (4 * i)) [0..<length bs div 4]"

definition cmd_scrot :: "'a kst command" where
  "cmd_scrot K argc argv sh = (if argc \<noteq> 2 then Inr (fputs usage_scrot sh)
     else let d = kos_display (kst sh); n = unat (4 * disp_width d * disp_height d) in
       if n \<noteq> 0 \<and> \<not> malloc_ok (e_mem (env sh)) n then Inl Null_deref
       else rbind (copy_display_to_rgb888 d (kos_lfb_base (kst sh)) (words_of (junk (e_mem (env sh)) n))) (\<lambda>lfb32.
         rbind (for_pixels d (\<lambda>y x to. let i = unat (y * disp_width d + x) in
             rbind (nth_res to i) (\<lambda>p. put_res to i (scrot_pixel p))) lfb32) (\<lambda>px.
         rbind (deref argv 1) (\<lambda>fname.
           let (error, text, png) = e_lodepng (env sh) (concat (map bytes_le32 px)) (disp_width d) (disp_height d) in
           Inr (if error \<noteq> 0 then fputs (''error '' @ fmt_u error @ '': '' @ text @ nl) sh
                else write_file fname png sh)))))"

section \<open>Directories\<close>

definition cmd_cd :: "'k command" where
  "cmd_cd K argc argv sh = (if argc \<noteq> 2 then Inr (fputs usage_cd sh)
     else rbind (deref argv 1) (\<lambda>dir. Inr ((kdo (umka_sys_set_cwd K dir) sh)\<lparr>cur_dir_changed := True\<rparr>)))"

text \<open>A zero-terminated string inside a buffer.\<close>

definition cstr_at :: "byte list \<Rightarrow> nat \<Rightarrow> string res" where
  "cstr_at buf off = (if 0 \<in> set (drop off buf) then Inr (cstr (drop off buf)) else Inl Out_of_bounds)"

definition word_at :: "byte list \<Rightarrow> nat \<Rightarrow> uint32 res" where
  "word_at buf off = (if off + 4 \<le> length buf then Inr (le32 buf off) else Inl Out_of_bounds)"

abbreviation (input) CP866 :: uint32 where "CP866 \<equiv> 1"
abbreviation (input) UTF8 :: uint32 where "UTF8 \<equiv> 3"
abbreviation (input) MAX_DIRENTS_TO_READ :: uint32 where "MAX_DIRENTS_TO_READ \<equiv> 100"
abbreviation (input) sizeof_f7080s1info :: nat where "sizeof_f7080s1info \<equiv> 32"
abbreviation (input) BDFE_NAME :: nat where "BDFE_NAME \<equiv> 40"

definition parse_encoding :: "string \<Rightarrow> uint32" where
  "parse_encoding s = (if s = ''default'' then 0 else if s = ''cp866'' then 1 else if s = ''utf16'' then 2
     else if s = ''utf8'' then 3 else 4)"

text \<open>The size of a directory entry, as the loops that walk the buffer take it.\<close>

definition bdfe_len :: "uint32 \<Rightarrow> nat" where
  "bdfe_len encoding = (if encoding = CP866 then 304 else 560)"

text \<open>As the buffer is allocated.\<close>

definition bdfe_len_alloc :: "uint32 \<Rightarrow> nat" where
  "bdfe_len_alloc encoding = (if encoding \<le> CP866 then 304 else 560)"

text \<open>The entries of a directory block: attributes and name of each.\<close>

fun show_entries :: "nat \<Rightarrow> nat \<Rightarrow> nat \<Rightarrow> byte list \<Rightarrow> string res" where
  "show_entries len 0 off buf = Inr []"
| "show_entries len (Suc n) off buf =
     rbind (word_at buf off) (\<lambda>attr. rbind (cstr_at buf (off + BDFE_NAME)) (\<lambda>nm.
     rbind (show_entries len n (off + len) buf) (\<lambda>t.
       Inr (convert_f70_file_attr attr @ '' '' @ nm @ nl @ t))))"

text \<open>What both loops check of an answer: the counts agree, and it is complete or ends the directory.\<close>

definition ls_ok :: "f7080ret_t \<Rightarrow> uint32 \<Rightarrow> uint32 \<Rightarrow> bool" where
  "ls_ok r cnt sz \<longleftrightarrow> lfn_count r \<le> sz \<and> cnt = lfn_count r
     \<and> (lfn_status r = ERR_SUCCESS \<and> lfn_count r = sz \<or> lfn_status r = ERR_END_OF_FILE \<and> lfn_count r < sz)"

lemma range_decreases: "r \<noteq> 0 \<Longrightarrow> min sz r \<noteq> 0 \<Longrightarrow> unat (r - min sz r) < unat (r :: uint32)"
proof -
  assume "r \<noteq> 0" "min sz r \<noteq> 0"
  then have "min sz r \<le> r" "0 < unat (min sz r)" by (simp_all add: unat_gt_0)
  then show ?thesis by (simp add: unat_sub word_le_nat_alt)
qed

text \<open>
  \<^verbatim>\<open>ls_range\<close>: blocks of at most a hundred entries until the requested number is read. The block
  size is positive when something is requested and stays so; a block size of zero, which
  \<^verbatim>\<open>ls_range\<close> never starts with, would make no progress.
\<close>

function ls_range_loop :: "'k kernel \<Rightarrow> f70or80_t \<Rightarrow> uint32 \<Rightarrow> lfn_path \<Rightarrow> uint32 \<Rightarrow> uint32 \<Rightarrow> uint32
    \<Rightarrow> byte list \<Rightarrow> 'k shell \<Rightarrow> 'k shell res" where
  "ls_range_loop K f enc path requested offset sz buf sh =
     (if requested = 0 then Inr sh
      else let sz' = min sz requested in
       if sz' = 0 then Inl Hang
       else let (r, sh1) = kcall (umka_sys_lfn K (F7080s1 offset enc sz' (length buf) path) f) sh;
                sh2 = print_f70_status r True sh1 in
         rbind (blit buf (lfn_data r)) (\<lambda>buf1. rbind (word_at buf1 4) (\<lambda>cnt.
         if \<not> ls_ok r cnt sz' then Inr sh2
         else rbind (show_entries (bdfe_len enc) (unat cnt) sizeof_f7080s1info buf1) (\<lambda>t.
           let sh3 = fputs t sh2 in
           if lfn_status r = ERR_END_OF_FILE then Inr sh3
           else ls_range_loop K f enc path (requested - sz') (offset + sz') sz' buf1 sh3))))"
  by pat_completeness auto

termination
  by (relation "measure (\<lambda>(K, f, enc, path, requested, offset, sz, buf, sh). unat requested)")
     (auto simp del: min_def intro!: range_decreases)

declare ls_range_loop.simps [simp del]

definition ls_range :: "'k kernel \<Rightarrow> f70or80_t \<Rightarrow> uint32 \<Rightarrow> lfn_path \<Rightarrow> uint32 \<Rightarrow> uint32 \<Rightarrow> byte list
    \<Rightarrow> 'k shell \<Rightarrow> 'k shell res" where
  "ls_range K f enc path requested offset buf sh =
     ls_range_loop K f enc path requested offset (min requested MAX_DIRENTS_TO_READ) buf sh"

text \<open>
  One round of \<^verbatim>\<open>ls_all\<close>: a block of a hundred entries read through the command slot. The result
  says whether another round follows, with the buffer and the offset it starts from.
\<close>

definition ls_all_round :: "'a kst kernel \<Rightarrow> f70or80_t \<Rightarrow> uint32 \<Rightarrow> lfn_path \<Rightarrow> uint32 \<Rightarrow> uint32
    \<Rightarrow> byte list \<Rightarrow> 'a kst shell \<Rightarrow> (bool \<times> uint32 \<times> byte list \<times> 'a kst shell) res" where
  "ls_all_round K f enc path sz offset buf sh =
     rbind (run_in_slot K (UMKA_CMD_SYS_LFN f (F7080s1 offset enc sz (length buf) path)) sh) (\<lambda>sh1.
     let r = cmd_lfn_ret sh1; sh2 = print_f70_status r True sh1 in
     rbind (blit buf (lfn_data r)) (\<lambda>buf1. rbind (word_at buf1 4) (\<lambda>cnt.
     if \<not> ls_ok r cnt sz then Inr (False, offset + cnt, buf1, sh2)
     else rbind (word_at buf1 8) (\<lambda>total.
       rbind (show_entries (bdfe_len enc) (unat cnt) sizeof_f7080s1info buf1) (\<lambda>t.
         Inr (lfn_status r \<noteq> ERR_END_OF_FILE, offset + cnt, buf1,
              fputs (''total = '' @ fmt_d total @ nl @ t) sh2))))))"

text \<open>The loop ends when the file system says so; a listing that never ends is the value \<^const>\<open>None\<close>.\<close>

partial_function (option) ls_all_loop :: "'a kst kernel \<Rightarrow> f70or80_t \<Rightarrow> uint32 \<Rightarrow> lfn_path \<Rightarrow> uint32 \<Rightarrow> uint32
    \<Rightarrow> byte list \<Rightarrow> 'a kst shell \<Rightarrow> 'a kst shell res option" where
  [code]: "ls_all_loop K f enc path sz offset buf sh =
     (case ls_all_round K f enc path sz offset buf sh of Inl e \<Rightarrow> Some (Inl e)
      | Inr (again, offset', buf', sh') \<Rightarrow>
          if again then ls_all_loop K f enc path sz offset' buf' sh' else Some (Inr sh'))"

definition ls_all :: "'a kst kernel \<Rightarrow> f70or80_t \<Rightarrow> uint32 \<Rightarrow> lfn_path \<Rightarrow> uint32 \<Rightarrow> uint32
    \<Rightarrow> byte list \<Rightarrow> 'a kst shell \<Rightarrow> 'a kst shell res" where
  "ls_all K f enc path sz offset buf sh =
     (case ls_all_loop K f enc path sz offset buf sh of None \<Rightarrow> Inl Hang | Some r \<Rightarrow> r)"

section \<open>Running a program\<close>

definition cmd_exec :: "'k command" where
  "cmd_exec K argc argv sh = (if argc = 0 then Inr (fputs usage_exec sh)
     else rbind (load argv 1) (\<lambda>path.
       let (r, sh1) = kcall (umka_sys_lfn K (F7080s7 0 ''test'' (F70_path 0 path)) F70) sh in
       if sint (lfn_status r) < 0
       then Inr (print_f70_status (r\<lparr>lfn_status := - lfn_status r\<rparr>) True sh1)
       else Inr (print_f70_status (r\<lparr>lfn_status := 0\<rparr>) True
                   (fputs (''pid: '' @ fmt_u (lfn_status r) @ nl) sh1))))"

section \<open>Listing a directory\<close>

record ls_opts =
  lo_enc :: uint32
  lo_path_enc :: uint32
  lo_from :: uint32
  lo_count :: uint32

definition ls_opt :: "string \<Rightarrow> int \<Rightarrow> cptr \<Rightarrow> ls_opts \<times> 'k shell \<Rightarrow> (ls_opts \<times> 'k shell) ctl res" where
  "ls_opt usage opt arg = (\<lambda>(opts, sh).
     if opt = int_of_char CHR ''f'' then
       rbind (deref_ptr arg) (\<lambda>s. Inr (Continue (opts\<lparr>lo_from := strtoul s 0\<rparr>, sh)))
     else if opt = int_of_char CHR ''c'' then
       rbind (deref_ptr arg) (\<lambda>s. Inr (Continue (opts\<lparr>lo_count := strtoul s 0\<rparr>, sh)))
     else if opt = int_of_char CHR ''e'' then
       rbind (deref_ptr arg) (\<lambda>s. Inr (Continue (opts\<lparr>lo_enc := parse_encoding s\<rparr>, sh)))
     else if opt = int_of_char CHR ''p'' then
       rbind (deref_ptr arg) (\<lambda>s. Inr (Continue (opts\<lparr>lo_path_enc := parse_encoding s\<rparr>, sh)))
     else Inr (Return (opts, fputs usage sh)))"

text \<open>The listing itself, once the options are known. Without a block there is nowhere to read to.\<close>

definition ls_run :: "'a kst kernel \<Rightarrow> f70or80_t \<Rightarrow> cptr \<Rightarrow> ls_opts \<Rightarrow> 'a kst shell \<Rightarrow> 'a kst shell res" where
  "ls_run K f path opts sh =
     (let n = sizeof_f7080s1info + bdfe_len_alloc (lo_enc opts) * 100;
          buf = junk (e_mem (env sh)) n;
          u = (if f = F70 then F70_path 0 path else F80_path (lo_path_enc opts) path) in
      if \<not> malloc_ok (e_mem (env sh)) n then (if lo_count opts = 0 then Inr sh else Inl Null_deref)
      else if lo_count opts \<noteq> MAX_DIRENTS_TO_READ then ls_range K f (lo_enc opts) u (lo_count opts) (lo_from opts) buf sh
      else ls_all K f (lo_enc opts) u (lo_count opts) (lo_from opts) buf sh)"

definition cmd_ls :: "string \<Rightarrow> f70or80_t \<Rightarrow> 'a kst command" where
  "cmd_ls usage f K argc argv sh = (if argc = 0 then Inr (fputs usage sh)
     else rbind (optparse_init argv) (\<lambda>o0.
       rbind (if argc > 1
              then rbind (deref argv 1) (\<lambda>s. if take 1 s \<noteq> ''-'' then optparse_arg o0 else Inr (Ptr ''.'', o0))
              else Inr (Ptr ''.'', o0)) (\<lambda>(path, o1).
       rbind (opt_while o1 (if f = F70 then ''f:c:e:'' else ''f:c:e:p:'') (ls_opt usage)
                (\<lparr>lo_enc = UTF8, lo_path_enc = UTF8, lo_from = 0, lo_count = MAX_DIRENTS_TO_READ\<rparr>, sh)) (\<lambda>(c, o2).
       case c of Return (x, sh1) \<Rightarrow> Inr sh1
       | Continue (x, sh1) \<Rightarrow> ls_run K f path x sh1))))"

definition cmd_ls70 :: "'a kst command" where
  "cmd_ls70 = cmd_ls usage_ls70 F70"

definition cmd_ls80 :: "'a kst command" where
  "cmd_ls80 = cmd_ls usage_ls80 F80"

section \<open>File information\<close>

abbreviation (input) KF_FOLDER :: uint32 where "KF_FOLDER \<equiv> 0x10"
abbreviation (input) sizeof_bdfe_t :: nat where "sizeof_bdfe_t \<equiv> 1952"

record stat_opts =
  force_ctime :: bool
  force_mtime :: bool
  force_atime :: bool

definition stat_opt :: "int \<Rightarrow> cptr \<Rightarrow> stat_opts \<times> 'k shell \<Rightarrow> (stat_opts \<times> 'k shell) ctl res" where
  "stat_opt opt arg = (\<lambda>(opts, sh).
     if opt = int_of_char CHR ''c'' then Inr (Continue (opts\<lparr>force_ctime := True\<rparr>, sh))
     else if opt = int_of_char CHR ''m'' then Inr (Continue (opts\<lparr>force_mtime := True\<rparr>, sh))
     else if opt = int_of_char CHR ''a'' then Inr (Continue (opts\<lparr>force_atime := True\<rparr>, sh))
     else Inr (Return (opts, fputs usage_stat sh)))"

text \<open>The time and the date word of a time stamp lie next to each other, the time first.\<close>

definition show_time :: "env \<Rightarrow> string \<Rightarrow> byte list \<Rightarrow> nat \<Rightarrow> string" where
  "show_time e label file off =
     (let t = e_localtime e (e_time_to_epoch e (le32 file off) (le32 file (off + 4)));
          p2 = (\<lambda>i. prec 2 (fmt_int i)) in
      label @ '': '' @ prec 4 (fmt_int (tm_year t + 1900)) @ ''.'' @ p2 (tm_mon t + 1) @ ''.'' @ p2 (tm_mday t)
        @ '' '' @ p2 (tm_hour t) @ '':'' @ p2 (tm_min t) @ '':'' @ p2 (tm_sec t) @ nl)"

definition show_times :: "stat_opts \<Rightarrow> byte list \<Rightarrow> 'k shell \<Rightarrow> 'k shell" where
  "show_times opts file sh = fputs
     ((if \<not> reproducible sh \<or> force_atime opts then show_time (env sh) ''atime'' file 16 else [])
      @ (if \<not> reproducible sh \<or> force_mtime opts then show_time (env sh) ''mtime'' file 24 else [])
      @ (if \<not> reproducible sh \<or> force_ctime opts then show_time (env sh) ''ctime'' file 8 else [])) sh"

definition cmd_stat :: "f70or80_t \<Rightarrow> 'k command" where
  "cmd_stat f K argc argv sh = (if argc < 2 then Inr (fputs usage_stat sh)
     else rbind (rbind (optparse_init argv) optparse_arg) (\<lambda>(path, o1).
       let u = (if f = F70 then F70_path 0 path else F80_path UTF8 path);
           (r, sh1) = kcall (umka_sys_lfn K (F7080s5 0 sizeof_bdfe_t u) f) sh;
           sh2 = print_f70_status r False sh1 in
       rbind (blit (junk (e_mem (env sh)) sizeof_bdfe_t) (lfn_data r)) (\<lambda>file.
       if lfn_status r \<noteq> ERR_SUCCESS then Inr sh2
       else let attr = le32 file 0;
                sh3 = fputs (''attr: '' @ convert_f70_file_attr attr @ nl
                  @ (if attr AND KF_FOLDER = 0 then ''size: '' @ fmt_u (le64 file 32) @ nl else [])) sh2 in
       rbind (opt_while o1 ''cma'' stat_opt
                (\<lparr>force_ctime = False, force_mtime = False, force_atime = False\<rparr>, sh3)) (\<lambda>(c, o2).
       case c of Return (x, sh4) \<Rightarrow> Inr sh4
       | Continue (x, sh4) \<Rightarrow> Inr (show_times x file sh4)))))"

definition cmd_stat70 :: "'k command" where
  "cmd_stat70 = cmd_stat F70"

definition cmd_stat80 :: "'k command" where
  "cmd_stat80 = cmd_stat F80"

section \<open>Reading a file\<close>

text \<open>
  The options after the numbers: whether to print the bytes and their hash, or the message with
  which the handler gives up.
\<close>

fun read_opts :: "f70or80_t \<Rightarrow> argv \<Rightarrow> nat list \<Rightarrow> bool \<times> bool \<Rightarrow> (string + bool \<times> bool) res" where
  "read_opts f argv [] opts = Inr (Inr opts)"
| "read_opts f argv (i # is) (b, h) = rbind (deref argv i) (\<lambda>s.
     if s = ''-b'' then read_opts f argv is (True, h)
     else if s = ''-h'' then read_opts f argv is (b, True)
     else if s = ''-e'' then
       (if f = F70 then Inr (Inl (''f70 doesn'' @ quote @ ''t accept encoding parameter, use f80'' @ nl))
        else read_opts f argv is (b, h))
     else Inr (Inl (''invalid option: '' @ quote @ s @ quote @ nl)))"

text \<open>The call and what is printed of its answer. A count of zero needs no block.\<close>

definition read_run :: "'k kernel \<Rightarrow> f70or80_t \<Rightarrow> cptr \<Rightarrow> uint64 \<Rightarrow> uint32 \<Rightarrow> bool \<Rightarrow> bool \<Rightarrow> 'k shell \<Rightarrow> 'k shell res" where
  "read_run K f path offset cnt dump_bytes dump_hash sh =
     (let n = unat cnt; u = (if f = F70 then F70_path 0 path else F80_path UTF8 path) in
      if n \<noteq> 0 \<and> \<not> malloc_ok (e_mem (env sh)) n then Inl Null_deref
      else let (r, sh1) = kcall (umka_sys_lfn K (F7080s0 offset cnt n u) f) sh;
               sh2 = print_f70_status r True sh1 in
        rbind (blit (junk (e_mem (env sh)) n) (lfn_data r)) (\<lambda>buf.
        if lfn_status r = ERR_SUCCESS \<or> lfn_status r = ERR_END_OF_FILE then
          rbind (if dump_bytes then print_bytes buf (lfn_count r) sh2 else Inr sh2) (\<lambda>sh3.
          if dump_hash then print_hash buf (lfn_count r) sh3 else Inr sh3)
        else Inr sh2))"

definition cmd_read :: "f70or80_t \<Rightarrow> string \<Rightarrow> 'k command" where
  "cmd_read f usage K argc argv sh = (if argc < 3 then Inr (fputs usage sh)
     else rbind (load argv 1) (\<lambda>path. rbind (deref argv 2) (\<lambda>a2.
       let (offset, sh1) = parse_uint64 a2 sh in
       if offset = None then Inr sh1
       else if argc \<le> 3 then Inr sh1
       else rbind (deref argv 3) (\<lambda>a3.
         let (num, sh2) = parse_uint32 a3 sh1 in
         if num = None then Inr sh2
         else rbind (read_opts f argv [4..<nat argc] (False, False)) (\<lambda>opts.
           case opts of Inl msg \<Rightarrow> Inr (fputs msg sh2)
           | Inr (b, h) \<Rightarrow> read_run K f path (the offset) (the num) b h sh2)))))"

definition cmd_read70 :: "'k command" where
  "cmd_read70 = cmd_read F70 usage_read70"

definition cmd_read80 :: "'k command" where
  "cmd_read80 = cmd_read F80 usage_read80"

end
