(* ===== verification/ShellNet.thy ===== *)
theory ShellNet
  imports ShellCore
begin

unbundle bit_operations_syntax

text \<open>
  The network handlers of \<^verbatim>\<open>shell.c\<close>, \<^verbatim>\<open>cmd_net_add_device\<close> to \<^verbatim>\<open>cmd_net_arp_del_entry\<close>: adding a card,
  querying the devices, sockets, and the address and ARP tables of the kernel's stack.
\<close>

section \<open>Adding a card\<close>

text \<open>
  Cards are passed to the kernel by the number of the card, counted from 1; 0 is the null pointer
  that \<^verbatim>\<open>vnet_init\<close> returns when a back end cannot be set up, and which is passed on unchecked.
\<close>

definition devtype_of :: "string \<Rightarrow> vnet_type option" where
  "devtype_of s = (if s = ''null'' then Some VNET_DEVTYPE_NULL else if s = ''file'' then Some VNET_DEVTYPE_FILE
     else if s = ''tap'' then Some VNET_DEVTYPE_TAP else None)"

definition add_device :: "'k kernel \<Rightarrow> vnet_type \<Rightarrow> 'k shell \<Rightarrow> 'k shell res" where
  "add_device K devtype sh =
     (let addr = of_nat (length (vnets sh) + 1) in
      rbind (vnet_init K (e_mem (env sh)) (e_tap (env sh)) addr (running sh) (host sh) (kst sh) devtype) (\<lambda>(v, w, k).
      let sh1 = sh\<lparr>host := w, kst := k, vnets := vnets sh @ (case v of None \<Rightarrow> [] | Some d \<Rightarrow> [d])\<rparr>;
          (dev_num, sh2) = kcall (kos_net_add_device K (Num (if v = None then 0 else addr))) sh1 in
      Inr (fputs (''device number: '' @ fmt_d dev_num @ nl) sh2)))"

definition cmd_net_add_device :: "'k command" where
  "cmd_net_add_device K argc argv sh = (if argc > 2 then Inr (fputs usage_net_add_device sh)
     else rbind (load argv 1) (\<lambda>p.
       if p = NULL then add_device K VNET_DEVTYPE_NULL sh
       else rbind (deref_ptr p) (\<lambda>s. case devtype_of s of
           None \<Rightarrow> Inr (fputs (''bad device type: '' @ s @ nl) sh)
         | Some t \<Rightarrow> add_device K t sh)))"

section \<open>Devices\<close>

definition ok_or_fail :: "uint32 \<Rightarrow> string" where
  "ok_or_fail r = ''status: '' @ (if r = UINT32_MAX then ''fail'' else ''ok'') @ nl"

text \<open>The device number of function 74 is a byte.\<close>

definition dev8 :: "string list \<Rightarrow> uint8" where
  "dev8 a = ucast (num a 1)"

definition cmd_net_get_dev_count :: "'k command" where
  "cmd_net_get_dev_count K argc argv sh = (if argc \<noteq> 1 then Inr (fputs usage_net_get_dev_count sh)
     else let (n, sh1) = kcall (umka_sys_net_get_dev_count K) sh in
       Inr (fputs (''active network devices: '' @ fmt_u n @ nl) sh1))"

text \<open>
  The shape most of these handlers share: one device number, one call, the status, and a line
  with the result when the call did not fail.
\<close>

definition query_dev :: "string \<Rightarrow> (uint8 \<Rightarrow> 'k \<Rightarrow> uint32 \<times> 'k) \<Rightarrow> (uint8 \<Rightarrow> uint32 \<Rightarrow> string)
    \<Rightarrow> int \<Rightarrow> argv \<Rightarrow> 'k shell \<Rightarrow> 'k shell res" where
  "query_dev usage f line argc argv sh = (if argc \<noteq> 2 then Inr (fputs usage sh)
     else rbind (args argv 1) (\<lambda>a.
       let d = dev8 a; (r, sh1) = kcall (f d) sh in
       Inr (fputs (ok_or_fail r @ (if r \<noteq> UINT32_MAX then line d r else [])) sh1)))"

definition cmd_net_get_dev_type :: "'k command" where
  "cmd_net_get_dev_type K = query_dev usage_net_get_dev_type (umka_sys_net_get_dev_type K)
     (\<lambda>d r. ''type of network device #'' @ fmt_u d @ '': '' @ fmt_d r @ nl)"

definition cmd_net_get_dev_name :: "'k command" where
  "cmd_net_get_dev_name K argc argv sh = (if argc \<noteq> 2 then Inr (fputs usage_net_get_dev_name sh)
     else rbind (args argv 1) (\<lambda>a.
       let d = dev8 a; ((r, bs), sh1) = kcall (umka_sys_net_get_dev_name K d (OutBuf 64)) sh;
           sh2 = fputs (ok_or_fail r) sh1 in
       rbind (blit (junk (e_mem (env sh)) 64) bs) (\<lambda>dev_name.
       if r = UINT32_MAX then Inr sh2
       else if 0 \<in> set dev_name
       then Inr (fputs (''name of network device #'' @ fmt_u d @ '': '' @ cstr dev_name @ nl) sh2)
       else Inl Out_of_bounds)))"

definition cmd_net_dev_reset :: "'k command" where
  "cmd_net_dev_reset K = query_dev usage_net_dev_reset (umka_sys_net_dev_reset K) (\<lambda>d r. [])"

definition cmd_net_dev_stop :: "'k command" where
  "cmd_net_dev_stop K = query_dev usage_net_dev_stop (umka_sys_net_dev_stop K) (\<lambda>d r. [])"

definition cmd_net_get_dev :: "'k command" where
  "cmd_net_get_dev K argc argv sh = query_dev usage_net_get_dev (umka_sys_net_get_dev K)
     (\<lambda>d r. if reproducible sh then [] else ''address of net dev #'' @ fmt_u d @ '': 0x'' @ fmt_x r @ nl) argc argv sh"

definition cmd_net_get_packet_tx_count :: "'k command" where
  "cmd_net_get_packet_tx_count K = query_dev usage_net_get_packet_tx_count (umka_sys_net_get_packet_tx_count K)
     (\<lambda>d r. ''packet tx count of net dev #'' @ fmt_u d @ '': '' @ fmt_u r @ nl)"

definition cmd_net_get_packet_rx_count :: "'k command" where
  "cmd_net_get_packet_rx_count K = query_dev usage_net_get_packet_rx_count (umka_sys_net_get_packet_rx_count K)
     (\<lambda>d r. ''packet rx count of net dev #'' @ fmt_u d @ '': '' @ fmt_u r @ nl)"

definition cmd_net_get_byte_tx_count :: "'k command" where
  "cmd_net_get_byte_tx_count K = query_dev usage_net_get_byte_tx_count (umka_sys_net_get_byte_tx_count K)
     (\<lambda>d r. ''byte tx count of net dev #'' @ fmt_u d @ '': '' @ fmt_u r @ nl)"

definition cmd_net_get_byte_rx_count :: "'k command" where
  "cmd_net_get_byte_rx_count K = query_dev usage_net_get_byte_rx_count (umka_sys_net_get_byte_rx_count K)
     (\<lambda>d r. ''byte rx count of net dev #'' @ fmt_u d @ '': '' @ fmt_u r @ nl)"

definition print_link_status_names :: "uint32 \<Rightarrow> string" where
  "print_link_status_names status =
     (let lo = status AND 3; hi = status AND NOT 3 in
      (if lo = ETH_LINK_DOWN then ''ETH_LINK_DOWN'' else if lo = ETH_LINK_UNKNOWN then ''ETH_LINK_UNKNOWN''
       else if lo = ETH_LINK_FD then ''ETH_LINK_FD'' else ''ERROR'')
      @ (if hi = ETH_LINK_1G then '' + ETH_LINK_1G'' else if hi = ETH_LINK_100M then '' + ETH_LINK_100M''
         else if hi = ETH_LINK_10M then '' + ETH_LINK_10M'' else '' + UNKNOWN''))"

definition cmd_net_get_link_status :: "'k command" where
  "cmd_net_get_link_status K = query_dev usage_net_get_link_status (umka_sys_net_get_link_status K)
     (\<lambda>d r. ''link status of net dev #'' @ fmt_u d @ '': '' @ fmt_u r @ '' '' @ print_link_status_names r @ nl)"

section \<open>Sockets\<close>

definition show_f75 :: "uint32 \<times> uint32 \<Rightarrow> string" where
  "show_f75 r = ''value: 0x'' @ fmt_x (fst r) @ nl @ ''errorcode: 0x'' @ fmt_x (snd r) @ nl"

definition cmd_net_open_socket :: "'k command" where
  "cmd_net_open_socket K argc argv sh = (if argc \<noteq> 4 then Inr (fputs usage_net_open_socket sh)
     else rbind (args argv 3) (\<lambda>a.
       let (r, sh1) = kcall (umka_sys_net_open_socket K (num a 1) (num a 2) (num a 3)) sh in
       Inr (fputs (show_f75 r) sh1)))"

definition cmd_net_close_socket :: "'k command" where
  "cmd_net_close_socket K argc argv sh = (if argc \<noteq> 2 then Inr (fputs usage_net_close_socket sh)
     else rbind (args argv 1) (\<lambda>a.
       let (r, sh1) = kcall (umka_sys_net_close_socket K (num a 1)) sh in Inr (fputs (show_f75 r) sh1)))"

text \<open>The address structure: family, port in network order, address, and zeros, 16 bytes in all.\<close>

abbreviation (input) AF_INET4 :: uint16 where "AF_INET4 \<equiv> 2"

definition sockaddr_in :: "uint16 \<Rightarrow> uint32 \<Rightarrow> byte list" where
  "sockaddr_in port addr = bytes_le16 AF_INET4 @ bytes_le16 (htons port) @ bytes_le32 addr @ replicate 8 0"

text \<open>\<^verbatim>\<open>bind\<close>, \<^verbatim>\<open>connect\<close> and \<^verbatim>\<open>accept\<close> differ in the call alone.\<close>

definition socket_call :: "string \<Rightarrow> (uint32 \<Rightarrow> regval \<Rightarrow> uint32 \<Rightarrow> 'k \<Rightarrow> (uint32 \<times> uint32) \<times> 'k)
    \<Rightarrow> int \<Rightarrow> argv \<Rightarrow> 'k shell \<Rightarrow> 'k shell res" where
  "socket_call usage f argc argv sh = (if argc \<noteq> 4 then Inr (fputs usage sh)
     else rbind (args argv 3) (\<lambda>a.
       let sa = sockaddr_in (ucast (num a 2)) (inet_addr (a ! 3));
           sh1 = fputs (''sockaddr at '' @ fmt_p (e_local_addr (env sh)) @ nl) sh;
           (r, sh2) = kcall (f (num a 1) (InBuf sa) 16) sh1 in
       Inr (fputs (show_f75 r) sh2)))"

definition cmd_net_bind :: "'k command" where
  "cmd_net_bind K = socket_call usage_net_bind (umka_sys_net_bind K)"

definition cmd_net_listen :: "'k command" where
  "cmd_net_listen K argc argv sh = (if argc \<noteq> 3 then Inr (fputs usage_net_listen sh)
     else rbind (args argv 2) (\<lambda>a.
       let (r, sh1) = kcall (umka_sys_net_listen K (num a 1) (num a 2)) sh in Inr (fputs (show_f75 r) sh1)))"

definition cmd_net_connect :: "'k command" where
  "cmd_net_connect K = socket_call usage_net_connect (umka_sys_net_connect K)"

definition cmd_net_accept :: "'k command" where
  "cmd_net_accept K = socket_call usage_net_accept (umka_sys_net_accept K)"

section \<open>Addresses\<close>

text \<open>A call of function 76 with one device: failure, or a line with the result.\<close>

definition query76 :: "string \<Rightarrow> (uint32 \<Rightarrow> 'k \<Rightarrow> (uint32 \<times> uint32) \<times> 'k) \<Rightarrow> (uint32 \<times> uint32 \<Rightarrow> string)
    \<Rightarrow> int \<Rightarrow> argv \<Rightarrow> 'k shell \<Rightarrow> 'k shell res" where
  "query76 usage f line argc argv sh = (if argc \<noteq> 2 then Inr (fputs usage sh)
     else rbind (args argv 1) (\<lambda>a. let (r, sh1) = kcall (f (num a 1)) sh in
       Inr (fputs (if fst r = UINT32_MAX then ''status: fail'' @ nl else line r @ nl) sh1)))"

definition byte_of :: "uint32 \<Rightarrow> nat \<Rightarrow> uint8" where
  "byte_of w n = ucast (shr w n)"

definition show_mac :: "uint32 \<times> uint32 \<Rightarrow> string" where
  "show_mac r = hex2 (byte_of (snd r) 0) @ '':'' @ hex2 (byte_of (snd r) 8) @ '':'' @ hex2 (byte_of (fst r) 0)
     @ '':'' @ hex2 (byte_of (fst r) 8) @ '':'' @ hex2 (byte_of (fst r) 16) @ '':'' @ hex2 (byte_of (fst r) 24)"

definition show_ip :: "uint32 \<Rightarrow> string" where
  "show_ip w = fmt_u (byte_of w 0) @ ''.'' @ fmt_u (byte_of w 8) @ ''.'' @ fmt_u (byte_of w 16) @ ''.''
     @ fmt_u (byte_of w 24)"

definition cmd_net_eth_read_mac :: "'k command" where
  "cmd_net_eth_read_mac K = query76 usage_net_eth_read_mac (umka_sys_net_eth_read_mac K) show_mac"

definition cmd_net_ipv4_get_addr :: "'k command" where
  "cmd_net_ipv4_get_addr K = query76 usage_net_ipv4_get_addr (umka_sys_net_ipv4_get_addr K) (\<lambda>r. show_ip (fst r))"

text \<open>Setting an address: the second argument is one in dotted notation.\<close>

definition set76 :: "string \<Rightarrow> (uint32 \<Rightarrow> uint32 \<Rightarrow> 'k \<Rightarrow> (uint32 \<times> uint32) \<times> 'k)
    \<Rightarrow> int \<Rightarrow> argv \<Rightarrow> 'k shell \<Rightarrow> 'k shell res" where
  "set76 usage f argc argv sh = (if argc \<noteq> 3 then Inr (fputs usage sh)
     else rbind (args argv 2) (\<lambda>a. let (r, sh1) = kcall (f (num a 1) (inet_addr (a ! 2))) sh in
       Inr (fputs (ok_or_fail (fst r)) sh1)))"

definition cmd_net_ipv4_set_addr :: "'k command" where
  "cmd_net_ipv4_set_addr K = set76 usage_net_ipv4_set_addr (umka_sys_net_ipv4_set_addr K)"

definition cmd_net_ipv4_get_dns :: "'k command" where
  "cmd_net_ipv4_get_dns K = query76 usage_net_ipv4_get_dns (umka_sys_net_ipv4_get_dns K) (\<lambda>r. show_ip (fst r))"

definition cmd_net_ipv4_set_dns :: "'k command" where
  "cmd_net_ipv4_set_dns K = set76 usage_net_ipv4_set_dns (umka_sys_net_ipv4_set_dns K)"

definition cmd_net_ipv4_get_subnet :: "'k command" where
  "cmd_net_ipv4_get_subnet K =
     query76 usage_net_ipv4_get_subnet (umka_sys_net_ipv4_get_subnet K) (\<lambda>r. show_ip (fst r))"

definition cmd_net_ipv4_set_subnet :: "'k command" where
  "cmd_net_ipv4_set_subnet K = set76 usage_net_ipv4_set_subnet (umka_sys_net_ipv4_set_subnet K)"

definition cmd_net_ipv4_get_gw :: "'k command" where
  "cmd_net_ipv4_get_gw K = query76 usage_net_ipv4_get_gw (umka_sys_net_ipv4_get_gw K) (\<lambda>r. show_ip (fst r))"

definition cmd_net_ipv4_set_gw :: "'k command" where
  "cmd_net_ipv4_set_gw K = set76 usage_net_ipv4_set_gw (umka_sys_net_ipv4_set_gw K)"

section \<open>ARP\<close>

abbreviation (input) sizeof_arp_entry_t :: nat where "sizeof_arp_entry_t \<equiv> 16"

definition cmd_net_arp_get_count :: "'k command" where
  "cmd_net_arp_get_count K = query76 usage_net_arp_get_count (umka_sys_net_arp_get_count K) (\<lambda>r. fmt_d (fst r))"

text \<open>An entry: address at offset 0, hardware address at 4, status at 10, time to live at 12.\<close>

definition dec2 :: "uint8 \<Rightarrow> string" where
  "dec2 b = prec 2 (fmt_u b)"

definition show_arp :: "uint32 \<Rightarrow> byte list \<Rightarrow> string" where
  "show_arp n arp = ''arp #'' @ fmt_u n @ '': IP '' @ show_ip (le32 arp 0)
     @ '', mac '' @ dec2 (arp ! 4) @ '':'' @ dec2 (arp ! 5) @ '':'' @ dec2 (arp ! 6)
     @ '':'' @ dec2 (arp ! 7) @ '':'' @ dec2 (arp ! 8) @ '':'' @ dec2 (arp ! 9)
     @ '', status '' @ fmt_u (le16 arp 10) @ '', ttl '' @ fmt_u (le16 arp 12) @ nl"

definition cmd_net_arp_get_entry :: "'k command" where
  "cmd_net_arp_get_entry K argc argv sh = (if argc \<noteq> 3 then Inr (fputs usage_net_arp_get_entry sh)
     else rbind (args argv 2) (\<lambda>a.
       let ((r, bs), sh1) = kcall (umka_sys_net_arp_get_entry K (num a 1) (num a 2) (OutBuf sizeof_arp_entry_t)) sh in
       rbind (blit (junk (e_mem (env sh)) sizeof_arp_entry_t) bs) (\<lambda>arp.
       Inr (fputs (if r = UINT32_MAX then ''status: fail'' @ nl else show_arp (num a 2) arp) sh1))))"

text \<open>
  \<^verbatim>\<open>sscanf\<close> with up to \<^verbatim>\<open>n\<close> conversions \<^verbatim>\<open>%hhu\<close> separated by colons: the numbers stored before the
  first conversion or colon that does not match.
\<close>

fun scan_u8s :: "nat \<Rightarrow> string \<Rightarrow> uint8 list" where
  "scan_u8s 0 s = []"
| "scan_u8s (Suc n) s = (if strto 10 s = None then []
     else ucast (strtoul s 10) # (case strtoul_end s 10 of [] \<Rightarrow> []
       | c # t \<Rightarrow> if c = CHR '':'' then scan_u8s n t else []))"

definition cmd_net_arp_add_entry :: "'k command" where
  "cmd_net_arp_add_entry K argc argv sh = (if argc \<noteq> 6 then Inr (fputs usage_net_arp_add_entry sh)
     else rbind (args argv 5) (\<lambda>a.
       let j = junk (e_mem (env sh)) sizeof_arp_entry_t; m = scan_u8s 6 (a ! 3);
           arp = bytes_le32 (inet_addr (a ! 2)) @ m @ take (6 - length m) (drop (4 + length m) j)
             @ bytes_le16 (ucast (num a 4)) @ bytes_le16 (ucast (num a 5)) @ drop 14 j;
           (r, sh1) = kcall (umka_sys_net_arp_add_entry K (num a 1) (InBuf arp)) sh in
       Inr (if fst r = UINT32_MAX then fputs (''status: fail'' @ nl) sh1 else sh1)))"

definition cmd_net_arp_del_entry :: "'k command" where
  "cmd_net_arp_del_entry K argc argv sh = (if argc \<noteq> 3 then Inr (fputs usage_net_arp_del_entry sh)
     else rbind (args argv 2) (\<lambda>a.
       let (r, sh1) = kcall (umka_sys_net_arp_del_entry K (num a 1) (num a 2)) sh in
       Inr (if fst r = UINT32_MAX then fputs (''status: fail'' @ nl) sh1 else sh1)))"

end
