(* ===== verification/ShellMisc.thy ===== *)
theory ShellMisc
  imports ShellCore Umkart
begin

text \<open>
  The remaining handlers of \<^verbatim>\<open>shell.c\<close>: ACPI, the PCI path, dynamic libraries, the network stack's
  start, the idle loop, the background image and the debug board.
\<close>

section \<open>ACPI\<close>

text \<open>The next free place of the kernel's table array takes the file; \<^verbatim>\<open>fread\<close> is not checked.\<close>

definition cmd_acpi_preload_table :: "'a kst command" where
  "cmd_acpi_preload_table K argc argv sh = (if argc \<noteq> 2 then Inr (fputs usage_acpi_preload_table sh)
     else rbind (deref argv 1) (\<lambda>fname. rbind (read_whole sh fname) (\<lambda>f.
       case f of None \<Rightarrow> Inr (fputs (''[umka] can'' @ quote @ ''t open file: '' @ fname @ nl) sh)
       | Some bs \<Rightarrow>
           let k = kst sh; n = kos_acpi_ssdt_cnt k in
           rbind (put_res (kos_acpi_ssdt k) (unat n) (bs, of_nat (length bs))) (\<lambda>t.
             Inr ((fputs (''table #'' @ fmt_u n @ nl) sh)
                  \<lparr>kst := k\<lparr>kos_acpi_ssdt := t, kos_acpi_ssdt_cnt := n + 1\<rparr>\<rparr>)))))"

definition cmd_acpi_enable :: "'k command" where
  "cmd_acpi_enable K argc argv sh = Inr (if argc \<noteq> 1 then fputs usage_acpi_enable sh
     else kdo (kos_enable_acpi K) sh)"

definition kos_acpi_count_nodes :: "'k kernel \<Rightarrow> uint32 \<Rightarrow> 'k \<Rightarrow> uint32 \<times> 'k" where
  "kos_acpi_count_nodes K ctx k = kos K ''kos_acpi_count_nodes'' [Num ctx] k"

definition cmd_acpi_get_node_cnt :: "'a kst command" where
  "cmd_acpi_get_node_cnt K argc argv sh = Inr (if argc \<noteq> 1 then fputs usage_acpi_get_node_cnt sh
     else let (n, sh1) = kcall (kos_acpi_count_nodes K (acpi_ctx (kst sh))) sh in
       fputs (''nodes in namespace: '' @ fmt_u n @ nl) sh1)"

definition cmd_acpi_get_node_alloc_cnt :: "'a kst command" where
  "cmd_acpi_get_node_alloc_cnt K argc argv sh = Inr (if argc \<noteq> 1 then fputs usage_acpi_get_node_alloc_cnt sh
     else fputs (''nodes allocated: '' @ fmt_u (kos_acpi_node_alloc_cnt (kst sh)) @ nl) sh)"

definition cmd_acpi_get_node_free_cnt :: "'a kst command" where
  "cmd_acpi_get_node_free_cnt K argc argv sh = Inr (if argc \<noteq> 1 then fputs usage_acpi_get_node_free_cnt sh
     else fputs (''nodes freed: '' @ fmt_u (kos_acpi_node_free_cnt (kst sh)) @ nl) sh)"

definition cmd_acpi_set_usage :: "'a kst command" where
  "cmd_acpi_set_usage K argc argv sh = (if argc \<noteq> 2 then Inr (fputs usage_acpi_set_usage sh)
     else rbind (args argv 1) (\<lambda>a. Inr (kdo (\<lambda>k. k\<lparr>kos_acpi_usage := num a 1\<rparr>) sh)))"

definition cmd_acpi_get_usage :: "'a kst command" where
  "cmd_acpi_get_usage K argc argv sh = Inr (if argc \<noteq> 1 then fputs usage_acpi_get_usage sh
     else fputs (''ACPI usage: '' @ fmt_u (kos_acpi_usage (kst sh)) @ nl) sh)"

definition cmd_acpi_call :: "'a kst command" where
  "cmd_acpi_call K argc argv sh =
     (if argc > 2 then Inr (fputs (''arguments are not supported / not implemented!'' @ nl @ usage_acpi_call) sh)
      else if argc < 2 then Inr (fputs usage_acpi_call sh)
      else rbind (deref argv 1) (\<lambda>m.
        let sh1 = fputs (''calling acpi method: '' @ quote @ m @ quote @ nl) sh in
        Inr (fputs (''acpi method returned'' @ nl)
               (kdo (kos_acpi_call_name K (Num (acpi_ctx (kst sh))) m) sh1))))"

section \<open>The PCI path\<close>

text \<open>The path and its terminating zero must fit the array \<^verbatim>\<open>strcpy\<close> fills.\<close>

definition cmd_pci_set_path :: "'k command" where
  "cmd_pci_set_path K argc argv sh = (if argc \<noteq> 2 then Inr (fputs usage_pci_set_path sh)
     else rbind (deref argv 1) (\<lambda>s.
       if length s < PATH_MAX then Inr (sh\<lparr>pci_path := s\<rparr>) else Inl Out_of_bounds))"

definition cmd_pci_get_path :: "'k command" where
  "cmd_pci_get_path K argc argv sh = Inr (if argc \<noteq> 1 then fputs usage_pci_get_path sh
     else fputs (''pci path: '' @ pci_path sh @ nl) sh)"

section \<open>Libraries, the network stack, the idle loop\<close>

definition cmd_load_dll :: "'k command" where
  "cmd_load_dll K argc argv sh = (if argc \<noteq> 2 then Inr (fputs usage_load_dll sh)
     else rbind (deref argv 1) (\<lambda>fname. let (p, sh1) = kcall (umka_sys_load_dll K fname) sh in
       Inr (fputs (''### export: '' @ fmt_p p @ nl) sh1)))"

definition cmd_stack_init :: "'k command" where
  "cmd_stack_init K argc argv sh = Inr (if argc \<noteq> 1 then fputs usage_stack_init sh
     else kdo (umka_stack_init K) sh)"

definition cmd_osloop :: "'k command" where
  "cmd_osloop K argc argv sh = Inr (if argc \<noteq> 1 then fputs usage_osloop sh else kdo (umka_osloop K) sh)"

section \<open>The background\<close>

definition cmd_bg_set_size :: "'k command" where
  "cmd_bg_set_size K argc argv sh = (if argc \<noteq> 3 then Inr (fputs usage_bg_set_size sh)
     else rbind (args argv 2) (\<lambda>a. Inr (kdo (umka_sys_bg_set_size K (num a 1) (num a 2)) sh)))"

definition cmd_bg_put_pixel :: "'k command" where
  "cmd_bg_put_pixel K argc argv sh = (if argc \<noteq> 3 then Inr (fputs usage_bg_put_pixel sh)
     else rbind (args argv 2) (\<lambda>a. Inr (kdo (umka_sys_bg_put_pixel K (num a 1) (num a 2)) sh)))"

definition cmd_bg_redraw :: "'k command" where
  "cmd_bg_redraw K argc argv sh = Inr (if argc \<noteq> 1 then fputs usage_bg_redraw sh
     else kdo (umka_sys_bg_redraw K) sh)"

definition cmd_bg_set_mode :: "'k command" where
  "cmd_bg_set_mode K argc argv sh = (if argc \<noteq> 3 then Inr (fputs usage_bg_set_mode sh)
     else rbind (args argv 1) (\<lambda>a. Inr (kdo (umka_sys_bg_set_mode K (num a 1)) sh)))"

definition cmd_bg_put_img :: "'k command" where
  "cmd_bg_put_img K argc argv sh = (if argc \<noteq> 4 then Inr (fputs usage_bg_put_img sh)
     else rbind (deref argv 1) (\<lambda>fname. rbind (read_whole_unchecked sh fname) (\<lambda>img.
       rbind (deref argv 2) (\<lambda>a2.
       Inr (kdo (umka_sys_bg_put_img K (InBuf img) (strtoul a2 0) (of_nat (length img))) sh)))))"

definition cmd_bg_map :: "'k command" where
  "cmd_bg_map K argc argv sh = Inr (if argc \<noteq> 1 then fputs usage_bg_map sh
     else let (p, sh1) = kcall (umka_sys_bg_map K) sh in fputs (fmt_p p @ nl) sh1)"

definition cmd_bg_unmap :: "'k command" where
  "cmd_bg_unmap K argc argv sh = (if argc \<noteq> 2 then Inr (fputs usage_bg_unmap sh)
     else rbind (args argv 1) (\<lambda>a. let (status, sh1) = kcall (umka_sys_bg_unmap K (num a 1)) sh in
       Inr (fputs (''status = '' @ fmt_d status @ nl) sh1)))"

section \<open>The debug board\<close>

record board_opts =
  bo_flush :: bool
  bo_line :: bool
  bo_newline :: bool

definition board_opt :: "int \<Rightarrow> cptr \<Rightarrow> board_opts \<times> 'k shell \<Rightarrow> (board_opts \<times> 'k shell) ctl res" where
  "board_opt opt arg = (\<lambda>(opts, sh).
     if opt = int_of_char CHR ''f'' then Inr (Continue (opts\<lparr>bo_flush := True, bo_line := True\<rparr>, sh))
     else if opt = int_of_char CHR ''l'' then Inr (Continue (opts\<lparr>bo_line := True\<rparr>, sh))
     else if opt = int_of_char CHR ''n'' then Inr (Continue (opts\<lparr>bo_newline := True\<rparr>, sh))
     else Inr (Return (opts, fputs usage_board_get sh)))"

text \<open>What \<^verbatim>\<open>fputc\<close> and \<^verbatim>\<open>%c\<close> write: the low byte.\<close>

definition board_char :: "board_get_ret \<Rightarrow> char" where
  "board_char c = char_of (unat (ucast (board_value c) :: uint8))"

text \<open>
  A line, or with \<^verbatim>\<open>flush\<close> everything the board holds; carriage returns are dropped. A board that is
  never empty makes the loop endless, which is the value \<^const>\<open>None\<close>.
\<close>

partial_function (option) board_loop :: "'k kernel \<Rightarrow> bool \<Rightarrow> 'k shell \<Rightarrow> 'k shell option" where
  [code]: "board_loop K flush sh =
     (let (c, sh1) = kcall (umka_sys_board_get K) sh;
          sh2 = (if board_status c \<noteq> 0 \<and> board_value c \<noteq> 13 then fputs [board_char c] sh1 else sh1) in
      if board_status c \<noteq> 0 \<and> (board_value c \<noteq> 10 \<or> flush) then board_loop K flush sh2 else Some sh2)"

definition cmd_board_get :: "'k command" where
  "cmd_board_get K argc argv sh = (if argc > 2 then Inr (fputs usage_board_get sh)
     else rbind (optparse_init argv) (\<lambda>o1.
       rbind (opt_while o1 ''fln'' board_opt (\<lparr>bo_flush = False, bo_line = False, bo_newline = False\<rparr>, sh)) (\<lambda>(c, o2).
       case c of Return (x, sh1) \<Rightarrow> Inr sh1
       | Continue (x, sh1) \<Rightarrow>
           if \<not> bo_line x then
             (let (b, sh2) = kcall (umka_sys_board_get K) sh1 in
              Inr (fputs (if board_status b = 0 then ''(empty)'' @ nl else board_char b # nl) sh2))
           else (case board_loop K (bo_flush x) sh1 of None \<Rightarrow> Inl Hang
             | Some sh2 \<Rightarrow> Inr (if bo_newline x then fputs nl sh2 else sh2)))))"

text \<open>The character of the first argument, with three escapes.\<close>

definition cmd_board_put :: "'k command" where
  "cmd_board_put K argc argv sh = (if argc \<noteq> 2 then Inr (fputs usage_board_put sh)
     else rbind (deref argv 1) (\<lambda>s. rbind (char_at s 0) (\<lambda>c.
       if c \<noteq> CHR 0x5C then Inr (kdo (umka_sys_board_put K c) sh)
       else rbind (char_at s 1) (\<lambda>e.
         if e = CHR ''n'' then Inr (kdo (umka_sys_board_put K (CHR 0x0A)) sh)
         else if e = CHR ''r'' then Inr (kdo (umka_sys_board_put K (CHR 0x0D)) sh)
         else if e = CHR ''t'' then Inr (kdo (umka_sys_board_put K (CHR 0x09)) sh)
         else Inr (kdo (umka_sys_board_put K CHR ''?'')
                     (fputs (''unknown escape symbol: '' @ quote @ [e] @ quote @ nl) sh))))))"

end
