(* ===== verification/ShellLoop.thy ===== *)
theory ShellLoop
  imports ShellSys ShellInfo ShellGui ShellInput ShellFs ShellNet ShellMisc
begin

text \<open>
  The command table of \<^verbatim>\<open>shell.c\<close>, the \<^verbatim>\<open>help\<close> command, the loop that reads and runs the lines of a test
  (\<^verbatim>\<open>run_test\<close>), and the life cycle of the shell (\<^verbatim>\<open>shell_init\<close>, \<^verbatim>\<open>shell_close\<close>).
\<close>

section \<open>The table\<close>

text \<open>
  \<^verbatim>\<open>help\<close> is in the table it searches. It enters a command with no arguments and a null \<^verbatim>\<open>argv\<close>, for
  which it prints its own usage, so one level of unfolding is enough: \<open>cmd_help_table\<close> below is the
  equation the source has.
\<close>

definition help_in :: "(string \<times> 'k command) list \<Rightarrow> 'k command" where
  "help_in table K argc argv sh =
     (if argc = 1 then Inr (fputs (usage_help @ nl @ ''available commands:'' @ nl @ nl
          @ concat (map (\<lambda>e. ''  '' @ fst e @ nl) table)) sh)
      else if argc = 2 then rbind (deref argv 1) (\<lambda>cmd_name. case map_of table cmd_name of
           Some f \<Rightarrow> f K 0 [] sh
         | None \<Rightarrow> Inr (fputs (''no such command: '' @ cmd_name @ nl) sh))
      else Inr (fputs usage_help sh))"

definition cmds_with :: "'a kst command \<Rightarrow> (string \<times> 'a kst command) list" where
  "cmds_with help =
     [(''send_scancode'', cmd_send_scancode),
      (''umka_boot'', cmd_umka_boot),
      (''umka_set_boot_params'', cmd_umka_set_boot_params),
      (''acpi_call'', cmd_acpi_call),
      (''acpi_enable'', cmd_acpi_enable),
      (''acpi_get_usage'', cmd_acpi_get_usage),
      (''acpi_preload_table'', cmd_acpi_preload_table),
      (''acpi_set_usage'', cmd_acpi_set_usage),
      (''acpi_get_node_alloc_cnt'', cmd_acpi_get_node_alloc_cnt),
      (''acpi_get_node_free_cnt'', cmd_acpi_get_node_free_cnt),
      (''acpi_get_node_cnt'', cmd_acpi_get_node_cnt),
      (''board_get'', cmd_board_get),
      (''board_put'', cmd_board_put),
      (''bg_map'', cmd_bg_map),
      (''bg_put_img'', cmd_bg_put_img),
      (''bg_put_pixel'', cmd_bg_put_pixel),
      (''bg_redraw'', cmd_bg_redraw),
      (''bg_set_mode'', cmd_bg_set_mode),
      (''bg_set_size'', cmd_bg_set_size),
      (''bg_unmap'', cmd_bg_unmap),
      (''blit_bitmap'', cmd_blit_bitmap),
      (''button'', cmd_button),
      (''cd'', cmd_cd),
      (''set'', cmd_set),
      (''get'', cmd_get),
      (''get_key'', cmd_get_key),
      (''disk_add'', cmd_disk_add),
      (''disk_del'', cmd_disk_del),
      (''display_number'', cmd_display_number),
      (''draw_line'', cmd_draw_line),
      (''draw_rect'', cmd_draw_rect),
      (''draw_window'', cmd_draw_window),
      (''dump_appdata'', cmd_dump_appdata),
      (''dump_key_buff'', cmd_dump_key_buff),
      (''dump_wdata'', cmd_dump_wdata),
      (''dump_win_pos'', cmd_dump_win_pos),
      (''dump_win_stack'', cmd_dump_win_stack),
      (''dump_win_map'', cmd_dump_win_map),
      (''exec'', cmd_exec),
      (''get_font_size'', cmd_get_font_size),
      (''get_font_smoothing'', cmd_get_font_smoothing),
      (''get_keyboard_lang'', cmd_get_keyboard_lang),
      (''get_keyboard_layout'', cmd_get_keyboard_layout),
      (''get_keyboard_mode'', cmd_get_keyboard_mode),
      (''get_mouse_buttons_state'', cmd_get_mouse_buttons_state),
      (''get_mouse_buttons_state_events'', cmd_get_mouse_buttons_state_events),
      (''get_mouse_pos_screen'', cmd_get_mouse_pos_screen),
      (''get_mouse_pos_window'', cmd_get_mouse_pos_window),
      (''get_screen_area'', cmd_get_screen_area),
      (''get_screen_size'', cmd_get_screen_size),
      (''get_skin_height'', cmd_get_skin_height),
      (''get_skin_margins'', cmd_get_skin_margins),
      (''get_system_lang'', cmd_get_system_lang),
      (''get_window_colors'', cmd_get_window_colors),
      (''help'', help),
      (''i40'', cmd_i40),
      (''kos_sys_misc_init_heap'', cmd_kos_sys_misc_init_heap),
      (''kos_sys_misc_load_file'', cmd_kos_sys_misc_load_file),
      (''load_cursor_from_file'', cmd_load_cursor_from_file),
      (''load_cursor_from_mem'', cmd_load_cursor_from_mem),
      (''load_dll'', cmd_load_dll),
      (''ls70'', cmd_ls70),
      (''ls80'', cmd_ls80),
      (''move_window'', cmd_move_window),
      (''mouse_move'', cmd_mouse_move),
      (''stack_init'', cmd_stack_init),
      (''net_accept'', cmd_net_accept),
      (''net_add_device'', cmd_net_add_device),
      (''net_arp_add_entry'', cmd_net_arp_add_entry),
      (''net_arp_del_entry'', cmd_net_arp_del_entry),
      (''net_arp_get_count'', cmd_net_arp_get_count),
      (''net_arp_get_entry'', cmd_net_arp_get_entry),
      (''net_bind'', cmd_net_bind),
      (''net_close_socket'', cmd_net_close_socket),
      (''net_connect'', cmd_net_connect),
      (''net_dev_reset'', cmd_net_dev_reset),
      (''net_dev_stop'', cmd_net_dev_stop),
      (''net_eth_read_mac'', cmd_net_eth_read_mac),
      (''net_get_byte_rx_count'', cmd_net_get_byte_rx_count),
      (''net_get_byte_tx_count'', cmd_net_get_byte_tx_count),
      (''net_get_dev'', cmd_net_get_dev),
      (''net_get_dev_count'', cmd_net_get_dev_count),
      (''net_get_dev_name'', cmd_net_get_dev_name),
      (''net_get_dev_type'', cmd_net_get_dev_type),
      (''net_get_link_status'', cmd_net_get_link_status),
      (''net_get_packet_rx_count'', cmd_net_get_packet_rx_count),
      (''net_get_packet_tx_count'', cmd_net_get_packet_tx_count),
      (''net_ipv4_get_addr'', cmd_net_ipv4_get_addr),
      (''net_ipv4_get_dns'', cmd_net_ipv4_get_dns),
      (''net_ipv4_get_gw'', cmd_net_ipv4_get_gw),
      (''net_ipv4_get_subnet'', cmd_net_ipv4_get_subnet),
      (''net_ipv4_set_addr'', cmd_net_ipv4_set_addr),
      (''net_ipv4_set_dns'', cmd_net_ipv4_set_dns),
      (''net_ipv4_set_gw'', cmd_net_ipv4_set_gw),
      (''net_ipv4_set_subnet'', cmd_net_ipv4_set_subnet),
      (''net_listen'', cmd_net_listen),
      (''net_open_socket'', cmd_net_open_socket),
      (''osloop'', cmd_osloop),
      (''pci_get_path'', cmd_pci_get_path),
      (''pci_set_path'', cmd_pci_set_path),
      (''process_info'', cmd_process_info),
      (''put_image'', cmd_put_image),
      (''put_image_palette'', cmd_put_image_palette),
      (''pwd'', cmd_pwd),
      (''ramdisk_init'', cmd_ramdisk_init),
      (''read70'', cmd_read70),
      (''read80'', cmd_read80),
      (''scrot'', cmd_scrot),
      (''write_devices_dat'', cmd_write_devices_dat),
      (''set_button_style'', cmd_set_button_style),
      (''set_cursor'', cmd_set_cursor),
      (''set_cwd'', cmd_cd),
      (''set_font_size'', cmd_set_font_size),
      (''set_font_smoothing'', cmd_set_font_smoothing),
      (''set_keyboard_lang'', cmd_set_keyboard_lang),
      (''set_keyboard_layout'', cmd_set_keyboard_layout),
      (''set_keyboard_mode'', cmd_set_keyboard_mode),
      (''set_mouse_pos_screen'', cmd_set_mouse_pos_screen),
      (''set_pixel'', cmd_set_pixel),
      (''set_screen_area'', cmd_set_screen_area),
      (''set_skin'', cmd_set_skin),
      (''set_system_lang'', cmd_set_system_lang),
      (''set_window_caption'', cmd_set_window_caption),
      (''set_window_colors'', cmd_set_window_colors),
      (''csleep'', cmd_csleep),
      (''stat70'', cmd_stat70),
      (''stat80'', cmd_stat80),
      (''var'', cmd_var),
      (''check_for_event'', cmd_check_for_event),
      (''wait_for_idle'', cmd_wait_for_idle),
      (''wait_for_os_idle'', cmd_wait_for_os_idle),
      (''wait_for_window'', cmd_wait_for_window),
      (''window_redraw'', cmd_window_redraw),
      (''write_text'', cmd_write_text),
      (''switch_to_thread'', cmd_switch_to_thread),
      (''new_sys_thread'', cmd_new_sys_thread)]"

definition cmd_help :: "'a kst command" where
  "cmd_help = help_in (cmds_with (help_in []))"

definition cmd_cmds :: "(string \<times> 'a kst command) list" where
  "cmd_cmds = cmds_with cmd_help"

section \<open>The loop\<close>

text \<open>
  Freeing the line leaves the argument slots that point into it dangling; null slots stay null.
\<close>

fun free_ptr :: "cptr \<Rightarrow> cptr" where
  "free_ptr (Ptr s) = Freed"
| "free_ptr p = p"

definition free_line :: "argv \<Rightarrow> argv" where
  "free_line argv = map free_ptr argv"

text \<open>One line: split it, look the command up by its first token, run it, free the line.\<close>

definition run_line :: "'a kst kernel \<Rightarrow> string \<Rightarrow> argv \<Rightarrow> 'a kst shell \<Rightarrow> (argv \<times> 'a kst shell) res" where
  "run_line K line argv sh =
     rbind (split_args line argv) (\<lambda>(argc, argv1). rbind (deref argv1 0) (\<lambda>nm.
     rbind (case map_of cmd_cmds nm of
              Some f \<Rightarrow> f K argc argv1 sh
            | None \<Rightarrow> Inr (fputs (''unknown command: '' @ nm @ nl) sh))
       (\<lambda>sh1. Inr (free_line argv1, sh1))))"

text \<open>
  The results of the line editor, in order: a line, or null without an end of file. The end of
  the list is the end of file. The loop gives up at an empty line and at \<^verbatim>\<open>X\<close> or \<^verbatim>\<open>q\<close>; comments and
  lines that begin with a line end are skipped. The prompt and the line are echoed unless the
  input is a terminal.
\<close>

definition echo :: "'k kernel \<Rightarrow> bool \<Rightarrow> string option \<Rightarrow> 'k shell \<Rightarrow> 'k shell res" where
  "echo K is_tty line sh = (if is_tty then Inr sh
     else rbind (prompt K sh) (\<lambda>sh1. Inr (fputs ((case line of None \<Rightarrow> [] | Some l \<Rightarrow> l) @ nl) sh1)))"

definition skips :: "string \<Rightarrow> bool" where
  "skips line \<longleftrightarrow> take 1 line \<in> {''#'', [CHR 0x0A], [CHR 0x0D]}"

fun run_lines :: "'a kst kernel \<Rightarrow> bool \<Rightarrow> string option list \<Rightarrow> argv \<Rightarrow> 'a kst shell \<Rightarrow> 'a kst shell res" where
  "run_lines K is_tty [] argv sh = Inr sh"
| "run_lines K is_tty (line # input) argv sh = rbind (echo K is_tty line sh) (\<lambda>sh1.
     case line of None \<Rightarrow> run_lines K is_tty input argv sh1
     | Some l \<Rightarrow>
         if l = [] then Inr sh1
         else if l = ''X'' \<or> l = ''q'' then Inr sh1
         else if skips l then run_lines K is_tty input argv sh1
         else rbind (run_line K l argv sh1) (\<lambda>(argv1, sh2). run_lines K is_tty input argv1 sh2))"

definition run_test :: "'a kst kernel \<Rightarrow> bool \<Rightarrow> string option list \<Rightarrow> 'a kst shell \<Rightarrow> 'a kst shell res" where
  "run_test K is_tty input sh = run_lines K is_tty input (replicate (MAX_COMMAND_ARGS + 1) NULL) sh"

section \<open>Life cycle\<close>

text \<open>
  A new shell over an environment, the host and a kernel state, with the static variables of
  \<^verbatim>\<open>shell.c\<close> as they are initialised. The command slot is zeroed storage, whose tag is
  \<^verbatim>\<open>UMKA_CMD_NONE\<close>.
\<close>

definition shell_init :: "bool \<Rightarrow> int \<Rightarrow> env \<Rightarrow> world \<Rightarrow> 'k \<Rightarrow> 'k shell" where
  "shell_init reprod run e w k =
     \<lparr>env = e, booted = False, running = run, cmd_runner = False, reproducible = reprod, var = [],
      fout = [], cur_dir = [of_char (CHR ''/'')] @ replicate (PATH_MAX - 1) 0, last_dir = 0,
      cur_dir_changed = True, pci_path = ''.'', host = w, vdisks = [], vnets = [],
      cmd_state = SHELL_CMD_STATUS_EMPTY, cmd_dat = Other_cmd 0,
      cmd_lfn_ret = \<lparr>lfn_status = 0, lfn_count = 0, lfn_data = []\<rparr>, kst = k\<rparr>"

text \<open>The variables are freed; nothing uses the shell afterwards.\<close>

definition shell_close :: "'k shell \<Rightarrow> 'k shell" where
  "shell_close sh = sh\<lparr>var := []\<rparr>"

end
