(* ===== verification/ShellInv.thy ===== *)
theory ShellInv
  imports ShellLoop "HOL-Library.Sublist"
begin

text \<open>
  What every command of the shell keeps. The contract is a relation between the shell before and
  after a command that is reflexive, transitive and closed under the updates the handlers make;
  that all handlers, \<^verbatim>\<open>help\<close> and the loop of \<^verbatim>\<open>run_test\<close> respect such a relation is proved once, and
  the relations of interest are its instances.
\<close>

section \<open>Partial correctness of fallible code\<close>

definition post :: "'a res \<Rightarrow> ('a \<Rightarrow> bool) \<Rightarrow> bool" where
  "post r Q = (case r of Inl e \<Rightarrow> True | Inr x \<Rightarrow> Q x)"

lemma post_simps [simp]:
  "post (Inl e) Q" "post (Inr x) Q = Q x" "post (rbind m f) Q = post m (\<lambda>x. post (f x) Q)"
  by (simp_all add: post_def rbind_def split: sum.splits)

lemma post_mono: "post r P \<Longrightarrow> (\<And>x. P x \<Longrightarrow> Q x) \<Longrightarrow> post r Q"
  by (simp add: post_def split: sum.splits)

lemma post_any: "(\<And>x. Q x) \<Longrightarrow> post r Q"
  by (simp add: post_def split: sum.splits)

lemma postD: "post r Q \<Longrightarrow> r = Inr x \<Longrightarrow> Q x"
  by simp

lemma post_if [intro!]: "(b \<Longrightarrow> post r Q) \<Longrightarrow> (\<not> b \<Longrightarrow> post r' Q) \<Longrightarrow> post (if b then r else r') Q"
  by simp

text \<open>Reading arguments, files and arrays does not change the shell.\<close>

lemmas post_pure =
  post_any [where r = "deref a i" for a i] post_any [where r = "load a i" for a i]
  post_any [where r = "deref_ptr p" for p] post_any [where r = "args a n" for a n]
  post_any [where r = "last_flag argc a n f" for argc a n f] post_any [where r = "blit x y" for x y]
  post_any [where r = "nth_res x i" for x i] post_any [where r = "slice x i n" for x i n]
  post_any [where r = "put_res x i v" for x i v] post_any [where r = "fmt_s p" for p]
  post_any [where r = "read_whole s f" for s f] post_any [where r = "read_whole_unchecked s f" for s f]
  post_any [where r = "host_load_file s f" for s f] post_any [where r = "optparse_init a" for a]
  post_any [where r = "optparse_arg a" for a] post_any [where r = "char_at s i" for s i]
  post_any [where r = "opt_count c a d" for c a d] post_any [where r = "table_entry t i" for t i]
  post_any [where r = "show_pointers c a" for c a] post_any [where r = "show_wdata p b w" for p b w]
  post_any [where r = "show_appdata p b w" for p b w] post_any [where r = "i40_arg a i" for a i]
  post_any [where r = "disk_at p k" for p k] post_any [where r = "layout_codes n i a c" for n i a c]
  post_any [where r = "vdisk_init m w f j c" for m w f j c]
  post_any [where r = "umka_new_sys_threads K f e s a n k" for K f e s a n k]
  post_any [where r = "vnet_init K m t a r w k y" for K m t a r w k y]
  post_any [where r = "cstr_at b i" for b i] post_any [where r = "word_at b i" for b i]
  post_any [where r = "show_entries l n i b" for l n i b] post_any [where r = "read_opts f a l b" for f a l b]
  post_any [where r = "copy_display_to_rgb888 d l t" for d l t] post_any [where r = "devices_dat l" for l]
  post_any [where r = "for_pixels d g p" for d g p]

lemma post_rbind_pure: "(\<And>x. post (f x) Q) \<Longrightarrow> post (rbind (blit u v) f) Q"
  by (simp add: post_any)

lemma post_InrI: "Q x \<Longrightarrow> post (Inr x) Q"
  by simp

lemma post_rfor:
  assumes "Q s" "\<And>i s. Q s \<Longrightarrow> post (f i s) Q"
  shows "post (rfor is f s) Q"
  using assms(1) by (induction "is" arbitrary: s) (auto intro: post_mono [OF assms(2)])

fun ctl_val :: "'a ctl \<Rightarrow> 'a" where
  "ctl_val (Continue a) = a"
| "ctl_val (Return a) = a"

lemma post_opt_while:
  assumes "Q a" "\<And>r p a. Q a \<Longrightarrow> post (body r p a) (\<lambda>c. Q (ctl_val c))"
  shows "post (opt_while opts s body a) (\<lambda>(c, o'). Q (ctl_val c))"
  using assms
proof (induction opts s body a rule: opt_while.induct)
  case (1 opts s body a)
  show ?case
  proof (cases "optparse opts s")
    case (Inl e)
    then show ?thesis by (simp add: opt_while.simps [of opts s body a])
  next
    case (Inr p)
    obtain r o1 where p: "p = (r, o1)" by force
    have q: "post (body r (optarg o1) a) (\<lambda>c. Q (ctl_val c))" using 1(2,3) by blast
    show ?thesis
    proof (cases "r = - 1")
      case True
      then show ?thesis using Inr p 1(2) by (simp add: opt_while.simps [of opts s body a])
    next
      case False
      have "post (opt_while o1 s body b) (\<lambda>(c, o'). Q (ctl_val c))"
        if "body r (optarg o1) a = Inr (Continue b)" for b
        using 1(1) [OF Inr p [symmetric] False that refl] postD [OF q that] 1(3) by simp
      then show ?thesis using Inr p False postD [OF q]
        by (auto simp: opt_while.simps [of opts s body a] split: sum.splits ctl.splits)
    qed
  qed
qed

text \<open>The definitions of the handlers, by theory, and of those with loops.\<close>

lemmas gui_defs =
  cmd_set_pixel_def cmd_write_text_def cmd_display_number_def cmd_button_def cmd_put_image_def
  cmd_put_image_palette_def cmd_draw_rect_def cmd_get_screen_size_def cmd_draw_line_def
  cmd_set_window_caption_def cmd_draw_window_def cmd_window_redraw_def cmd_move_window_def
  cmd_blit_bitmap_def cmd_set_window_colors_def cmd_get_window_colors_def cmd_get_skin_height_def
  cmd_get_screen_area_def cmd_set_screen_area_def cmd_get_skin_margins_def cmd_set_button_style_def
  cmd_set_skin_def cmd_get_font_smoothing_def cmd_set_font_smoothing_def cmd_get_font_size_def
  cmd_set_font_size_def

lemmas input_defs =
  cmd_get_keyboard_layout_def cmd_set_keyboard_layout_def cmd_get_keyboard_lang_def cmd_get_system_lang_def
  cmd_set_keyboard_lang_def cmd_set_system_lang_def cmd_get_keyboard_mode_def cmd_set_keyboard_mode_def
  cmd_set_mouse_pos_screen_def cmd_get_mouse_pos_screen_def cmd_get_mouse_pos_window_def
  cmd_get_mouse_buttons_state_def cmd_get_mouse_buttons_state_events_def cmd_kos_sys_misc_init_heap_def
  cmd_load_cursor_from_file_def cmd_load_cursor_from_mem_def cmd_set_cursor_def

lemmas info_defs =
  cmd_get_key_def cmd_dump_key_buff_def cmd_dump_win_stack_def cmd_dump_win_pos_def cmd_dump_win_map_def
  cmd_dump_wdata_def cmd_dump_appdata_def cmd_switch_to_thread_def cmd_get_def cmd_set_def
  cmd_new_sys_thread_def cmd_process_info_def cmd_check_for_event_def

lemmas net_defs =
  cmd_net_add_device_def cmd_net_get_dev_count_def cmd_net_get_dev_type_def cmd_net_get_dev_name_def
  cmd_net_dev_reset_def cmd_net_dev_stop_def cmd_net_get_dev_def cmd_net_get_packet_tx_count_def
  cmd_net_get_packet_rx_count_def cmd_net_get_byte_tx_count_def cmd_net_get_byte_rx_count_def
  cmd_net_get_link_status_def cmd_net_open_socket_def cmd_net_close_socket_def cmd_net_bind_def
  cmd_net_listen_def cmd_net_connect_def cmd_net_accept_def cmd_net_eth_read_mac_def
  cmd_net_ipv4_get_addr_def cmd_net_ipv4_set_addr_def cmd_net_ipv4_get_dns_def cmd_net_ipv4_set_dns_def
  cmd_net_ipv4_get_subnet_def cmd_net_ipv4_set_subnet_def cmd_net_ipv4_get_gw_def cmd_net_ipv4_set_gw_def
  cmd_net_arp_get_count_def cmd_net_arp_get_entry_def cmd_net_arp_add_entry_def cmd_net_arp_del_entry_def

lemmas misc_defs =
  cmd_acpi_preload_table_def cmd_acpi_enable_def cmd_acpi_get_node_cnt_def cmd_acpi_get_node_alloc_cnt_def
  cmd_acpi_get_node_free_cnt_def cmd_acpi_set_usage_def cmd_acpi_get_usage_def cmd_acpi_call_def
  cmd_pci_set_path_def cmd_pci_get_path_def cmd_load_dll_def cmd_stack_init_def cmd_osloop_def
  cmd_bg_set_size_def cmd_bg_put_pixel_def cmd_bg_redraw_def cmd_bg_set_mode_def cmd_bg_put_img_def
  cmd_bg_map_def cmd_bg_unmap_def cmd_board_put_def

lemmas sys_defs =
  cmd_var_def cmd_umka_boot_def cmd_csleep_def cmd_wait_for_idle_def cmd_wait_for_os_idle_def
  cmd_wait_for_window_def cmd_i40_def cmd_disk_del_def

lemmas fs_defs =
  cmd_write_devices_dat_def cmd_scrot_def cmd_cd_def cmd_exec_def

lemmas loop_defs = cmd_send_scancode_def cmd_umka_set_boot_params_def cmd_disk_add_def cmd_pwd_def
  cmd_ramdisk_init_def cmd_ls_def cmd_stat_def cmd_read_def cmd_board_get_def cmd_kos_sys_misc_load_file_def
  cmd_mouse_move_def

section \<open>The contract\<close>

locale shell_relation =
  fixes R :: "'a kst shell \<Rightarrow> 'a kst shell \<Rightarrow> bool"
  assumes R_refl: "R s s"
    and R_trans: "R s t \<Longrightarrow> R t u \<Longrightarrow> R s u"
    and R_fout: "R s (s\<lparr>fout := fout s @ x\<rparr>)"
    and R_kst: "R s (s\<lparr>kst := k\<rparr>)"
    and R_host: "R s (s\<lparr>host := w\<rparr>)"
    and R_vdisks: "R s (s\<lparr>vdisks := ds\<rparr>)"
    and R_vnets: "R s (s\<lparr>vnets := vs\<rparr>)"
    and R_booted: "R s (s\<lparr>booted := b\<rparr>)"
    and R_cmd_runner: "R s (s\<lparr>cmd_runner := b\<rparr>)"
    and R_cur_dir_changed: "R s (s\<lparr>cur_dir_changed := b\<rparr>)"
    and R_last_dir: "R s (s\<lparr>last_dir := n\<rparr>)"
    and R_cur_dir: "length d = length (cur_dir s) \<Longrightarrow> R s (s\<lparr>cur_dir := d\<rparr>)"
    and R_pci_path: "length p < PATH_MAX \<Longrightarrow> R s (s\<lparr>pci_path := p\<rparr>)"
    and R_slot: "R s (s\<lparr>cmd_dat := c, cmd_lfn_ret := r, cmd_state := SHELL_CMD_STATUS_EMPTY\<rparr>)"
    and R_var_add: "shell_var_add ty v s = Inr t \<Longrightarrow> R s t"
    and R_var_name: "shell_var_name s nm = (b, t) \<Longrightarrow> R s t"
begin

lemma fputs_ok: "R s t \<Longrightarrow> R s (fputs x t)"
  unfolding fputs_def using R_trans R_fout by blast

lemma kdo_ok: "R s t \<Longrightarrow> R s (kdo f t)"
  unfolding kdo_def using R_trans R_kst by blast

lemma kcall_ok: "kcall f t = (r, u) \<Longrightarrow> R s t \<Longrightarrow> R s u"
  using R_trans R_kst by (auto simp: kcall_def split: prod.splits)

lemma kcall_snd: "R s t \<Longrightarrow> R s (snd (kcall f t))"
  using kcall_ok [of f t] by (cases "kcall f t") auto

lemma update_ok:
  "R s t \<Longrightarrow> R s (t\<lparr>kst := k\<rparr>)" "R s t \<Longrightarrow> R s (t\<lparr>host := w\<rparr>)" "R s t \<Longrightarrow> R s (t\<lparr>vdisks := ds\<rparr>)"
  "R s t \<Longrightarrow> R s (t\<lparr>vnets := vs\<rparr>)" "R s t \<Longrightarrow> R s (t\<lparr>booted := b\<rparr>)" "R s t \<Longrightarrow> R s (t\<lparr>cmd_runner := b\<rparr>)"
  "R s t \<Longrightarrow> R s (t\<lparr>cur_dir_changed := b\<rparr>)" "R s t \<Longrightarrow> R s (t\<lparr>last_dir := n\<rparr>)"
  "length p < PATH_MAX \<Longrightarrow> R s t \<Longrightarrow> R s (t\<lparr>pci_path := p\<rparr>)"
  by (erule R_trans,
      (rule R_kst R_host R_vdisks R_vnets R_booted R_cmd_runner R_cur_dir_changed R_last_dir | erule R_pci_path))+

lemma var_add_ok: "R s t \<Longrightarrow> post (shell_var_add ty v t) (R s)"
  using R_trans R_var_add by (auto simp: post_def split: sum.splits)

lemma var_name_ok: "shell_var_name t nm = (b, u) \<Longrightarrow> R s t \<Longrightarrow> R s u"
  using R_trans R_var_name by blast

lemmas R_ok = fputs_ok kdo_ok kcall_snd update_ok R_refl

lemma sync_fields:
  assumes "u = shell_run_cmd_sync K t"
  shows "u = t\<lparr>fout := fout u, kst := kst u, cmd_lfn_ret := cmd_lfn_ret u, cmd_state := SHELL_CMD_STATUS_DONE\<rparr>"
    and "\<exists>x. fout u = fout t @ x"
  unfolding assms shell_run_cmd_sync_def kdo_def kcall_def fputs_def Let_def
  by (cases "cmd_dat t"; simp split: prod.split)+

lemma slot_fields:
  assumes "run_in_slot K d t = Inr u"
  shows "u = t\<lparr>fout := fout u, kst := kst u, cmd_dat := cmd_dat u, cmd_lfn_ret := cmd_lfn_ret u,
           cmd_state := SHELL_CMD_STATUS_EMPTY\<rparr>"
    and "\<exists>x. fout u = fout t @ x"
proof -
  obtain v where v: "u = shell_clear_cmd (shell_run_cmd_sync K v)" "fout v = fout t"
    "v = t\<lparr>kst := kst v, cmd_dat := d, cmd_state := SHELL_CMD_STATUS_READY\<rparr>"
    using assms by (auto simp: run_in_slot_def shell_run_cmd_def kdo_def Let_def split: if_splits)
  define w where "w = shell_run_cmd_sync K v"
  have w: "w = v\<lparr>fout := fout w, kst := kst w, cmd_lfn_ret := cmd_lfn_ret w, cmd_state := SHELL_CMD_STATUS_DONE\<rparr>"
    by (rule sync_fields(1) [OF w_def])
  have d: "cmd_dat w = d" by (subst w, subst v(3)) simp
  have u: "u = w\<lparr>cmd_state := SHELL_CMD_STATUS_EMPTY\<rparr>" using v(1) by (simp add: w_def shell_clear_cmd_def)
  show "u = t\<lparr>fout := fout u, kst := kst u, cmd_dat := cmd_dat u, cmd_lfn_ret := cmd_lfn_ret u,
           cmd_state := SHELL_CMD_STATUS_EMPTY\<rparr>"
    by (subst u, subst w, subst v(3)) (simp add: u d)
  show "\<exists>x. fout u = fout t @ x" using sync_fields(2) [OF w_def] v(2) by (simp add: u)
qed

lemma run_in_slot_ok:
  assumes "R s t"
  shows "post (run_in_slot K d t) (R s)"
proof -
  have "R s u" if u: "run_in_slot K d t = Inr u" for u
  proof -
    obtain x where x: "fout u = fout t @ x" using slot_fields(2) [OF u] ..
    have "R t ((t\<lparr>fout := fout t @ x, kst := kst u\<rparr>)\<lparr>cmd_dat := cmd_dat u, cmd_lfn_ret := cmd_lfn_ret u,
             cmd_state := SHELL_CMD_STATUS_EMPTY\<rparr>)"
      using R_trans [OF R_trans [OF R_fout [of t x] R_kst] R_slot] by simp
    then show ?thesis using slot_fields(1) [OF u] x R_trans [OF assms] by simp
  qed
  then show ?thesis by (simp add: post_def split: sum.splits)
qed


lemma print_bytes_ok: "R s t \<Longrightarrow> post (print_bytes x n t) (R s)"
  by (auto simp: print_bytes_def intro!: R_ok post_pure)

lemma print_hash_ok: "R s t \<Longrightarrow> post (print_hash x n t) (R s)"
  by (auto simp: print_hash_def intro!: R_ok post_pure)

lemma disk_list_partitions_ok: "R s t \<Longrightarrow> post (disk_list_partitions p t) (R s)"
  by (auto simp: disk_list_partitions_def intro!: R_ok post_pure)

lemma rfor_ok:
  assumes "R s t" "\<And>i u. R s u \<Longrightarrow> post (f i u) (R s)" "\<And>u. R s u \<Longrightarrow> Q u"
  shows "post (rfor is f t) Q"
  using post_mono [OF post_rfor [of "R s", OF assms(1,2)] assms(3)] .

lemmas cmd_intros = rfor_ok run_in_slot_ok var_add_ok print_bytes_ok print_hash_ok disk_list_partitions_ok

lemmas cmd_simps = Let_def shell_var_add_sint_def shell_var_add_uint_def shell_var_add_ptr_def kcall_def
  query_dev_def query76_def set76_def socket_call_def add_device_def no_layout_def dump_words_def cant_open_def
  disk_del_by_name_def write_file_def dump_devices_dat_def print_f70_status_def

lemma gui_ok:
  "post (cmd_set_pixel K argc argv s) (R s)" "post (cmd_write_text K argc argv s) (R s)"
  "post (cmd_display_number K argc argv s) (R s)" "post (cmd_button K argc argv s) (R s)"
  "post (cmd_put_image K argc argv s) (R s)" "post (cmd_put_image_palette K argc argv s) (R s)"
  "post (cmd_draw_rect K argc argv s) (R s)" "post (cmd_get_screen_size K argc argv s) (R s)"
  "post (cmd_draw_line K argc argv s) (R s)" "post (cmd_set_window_caption K argc argv s) (R s)"
  "post (cmd_draw_window K argc argv s) (R s)" "post (cmd_window_redraw K argc argv s) (R s)"
  "post (cmd_move_window K argc argv s) (R s)" "post (cmd_blit_bitmap K argc argv s) (R s)"
  "post (cmd_set_window_colors K argc argv s) (R s)" "post (cmd_get_window_colors K argc argv s) (R s)"
  "post (cmd_get_skin_height K argc argv s) (R s)" "post (cmd_get_screen_area K argc argv s) (R s)"
  "post (cmd_set_screen_area K argc argv s) (R s)" "post (cmd_get_skin_margins K argc argv s) (R s)"
  "post (cmd_set_button_style K argc argv s) (R s)" "post (cmd_set_skin K argc argv s) (R s)"
  "post (cmd_get_font_smoothing K argc argv s) (R s)" "post (cmd_set_font_smoothing K argc argv s) (R s)"
  "post (cmd_get_font_size K argc argv s) (R s)" "post (cmd_set_font_size K argc argv s) (R s)"
  unfolding gui_defs
  by (auto simp: cmd_simps split: prod.splits option.splits sum.splits
      intro!: R_ok post_pure cmd_intros intro: R_var_name)

lemma input_ok:
  "post (cmd_get_keyboard_layout K argc argv s) (R s)" "post (cmd_set_keyboard_layout K argc argv s) (R s)"
  "post (cmd_get_keyboard_lang K argc argv s) (R s)" "post (cmd_get_system_lang K argc argv s) (R s)"
  "post (cmd_set_keyboard_lang K argc argv s) (R s)" "post (cmd_set_system_lang K argc argv s) (R s)"
  "post (cmd_get_keyboard_mode K argc argv s) (R s)" "post (cmd_set_keyboard_mode K argc argv s) (R s)"
  "post (cmd_set_mouse_pos_screen K argc argv s) (R s)"
  "post (cmd_get_mouse_pos_screen K argc argv s) (R s)"
  "post (cmd_get_mouse_pos_window K argc argv s) (R s)"
  "post (cmd_get_mouse_buttons_state K argc argv s) (R s)"
  "post (cmd_get_mouse_buttons_state_events K argc argv s) (R s)"
  "post (cmd_kos_sys_misc_init_heap K argc argv s) (R s)"
  "post (cmd_load_cursor_from_file K argc argv s) (R s)"
  "post (cmd_load_cursor_from_mem K argc argv s) (R s)" "post (cmd_set_cursor K argc argv s) (R s)"
  unfolding input_defs
  by (auto simp: cmd_simps split: prod.splits option.splits sum.splits
      intro!: R_ok post_pure cmd_intros intro: R_var_name)

lemma info_ok:
  "post (cmd_get_key K argc argv s) (R s)" "post (cmd_dump_key_buff K argc argv s) (R s)"
  "post (cmd_dump_win_stack K argc argv s) (R s)" "post (cmd_dump_win_pos K argc argv s) (R s)"
  "post (cmd_dump_win_map K argc argv s) (R s)" "post (cmd_dump_wdata K argc argv s) (R s)"
  "post (cmd_dump_appdata K argc argv s) (R s)" "post (cmd_switch_to_thread K argc argv s) (R s)"
  "post (cmd_get K argc argv s) (R s)" "post (cmd_set K argc argv s) (R s)"
  "post (cmd_new_sys_thread K argc argv s) (R s)" "post (cmd_process_info K argc argv s) (R s)"
  "post (cmd_check_for_event K argc argv s) (R s)"
  unfolding info_defs
  by (auto simp: cmd_simps split: prod.splits option.splits sum.splits
      intro!: R_ok post_pure cmd_intros intro: R_var_name)

lemma net_ok:
  "post (cmd_net_add_device K argc argv s) (R s)" "post (cmd_net_get_dev_count K argc argv s) (R s)"
  "post (cmd_net_get_dev_type K argc argv s) (R s)" "post (cmd_net_get_dev_name K argc argv s) (R s)"
  "post (cmd_net_dev_reset K argc argv s) (R s)" "post (cmd_net_dev_stop K argc argv s) (R s)"
  "post (cmd_net_get_dev K argc argv s) (R s)" "post (cmd_net_get_packet_tx_count K argc argv s) (R s)"
  "post (cmd_net_get_packet_rx_count K argc argv s) (R s)"
  "post (cmd_net_get_byte_tx_count K argc argv s) (R s)"
  "post (cmd_net_get_byte_rx_count K argc argv s) (R s)"
  "post (cmd_net_get_link_status K argc argv s) (R s)" "post (cmd_net_open_socket K argc argv s) (R s)"
  "post (cmd_net_close_socket K argc argv s) (R s)" "post (cmd_net_bind K argc argv s) (R s)"
  "post (cmd_net_listen K argc argv s) (R s)" "post (cmd_net_connect K argc argv s) (R s)"
  "post (cmd_net_accept K argc argv s) (R s)" "post (cmd_net_eth_read_mac K argc argv s) (R s)"
  "post (cmd_net_ipv4_get_addr K argc argv s) (R s)" "post (cmd_net_ipv4_set_addr K argc argv s) (R s)"
  "post (cmd_net_ipv4_get_dns K argc argv s) (R s)" "post (cmd_net_ipv4_set_dns K argc argv s) (R s)"
  "post (cmd_net_ipv4_get_subnet K argc argv s) (R s)" "post (cmd_net_ipv4_set_subnet K argc argv s) (R s)"
  "post (cmd_net_ipv4_get_gw K argc argv s) (R s)" "post (cmd_net_ipv4_set_gw K argc argv s) (R s)"
  "post (cmd_net_arp_get_count K argc argv s) (R s)" "post (cmd_net_arp_get_entry K argc argv s) (R s)"
  "post (cmd_net_arp_add_entry K argc argv s) (R s)" "post (cmd_net_arp_del_entry K argc argv s) (R s)"
  unfolding net_defs
  by (auto simp: cmd_simps split: prod.splits option.splits sum.splits
      intro!: R_ok post_pure cmd_intros intro: R_var_name)

lemma misc_ok:
  "post (cmd_acpi_preload_table K argc argv s) (R s)" "post (cmd_acpi_enable K argc argv s) (R s)"
  "post (cmd_acpi_get_node_cnt K argc argv s) (R s)"
  "post (cmd_acpi_get_node_alloc_cnt K argc argv s) (R s)"
  "post (cmd_acpi_get_node_free_cnt K argc argv s) (R s)" "post (cmd_acpi_set_usage K argc argv s) (R s)"
  "post (cmd_acpi_get_usage K argc argv s) (R s)" "post (cmd_acpi_call K argc argv s) (R s)"
  "post (cmd_pci_set_path K argc argv s) (R s)" "post (cmd_pci_get_path K argc argv s) (R s)"
  "post (cmd_load_dll K argc argv s) (R s)" "post (cmd_stack_init K argc argv s) (R s)"
  "post (cmd_osloop K argc argv s) (R s)" "post (cmd_bg_set_size K argc argv s) (R s)"
  "post (cmd_bg_put_pixel K argc argv s) (R s)" "post (cmd_bg_redraw K argc argv s) (R s)"
  "post (cmd_bg_set_mode K argc argv s) (R s)" "post (cmd_bg_put_img K argc argv s) (R s)"
  "post (cmd_bg_map K argc argv s) (R s)" "post (cmd_bg_unmap K argc argv s) (R s)"
  "post (cmd_board_put K argc argv s) (R s)"
  unfolding misc_defs
  by (auto simp: cmd_simps split: prod.splits option.splits sum.splits
      intro!: R_ok post_pure cmd_intros intro: R_var_name)

lemma sys_ok:
  "post (cmd_var K argc argv s) (R s)" "post (cmd_umka_boot K argc argv s) (R s)"
  "post (cmd_csleep K argc argv s) (R s)" "post (cmd_wait_for_idle K argc argv s) (R s)"
  "post (cmd_wait_for_os_idle K argc argv s) (R s)" "post (cmd_wait_for_window K argc argv s) (R s)"
  "post (cmd_i40 K argc argv s) (R s)" "post (cmd_disk_del K argc argv s) (R s)"
  unfolding sys_defs
  by (auto simp: cmd_simps split: prod.splits option.splits sum.splits
      intro!: R_ok post_pure cmd_intros intro: R_var_name)

lemma fs_ok:
  "post (cmd_write_devices_dat K argc argv s) (R s)" "post (cmd_scrot K argc argv s) (R s)"
  "post (cmd_cd K argc argv s) (R s)" "post (cmd_exec K argc argv s) (R s)"
  unfolding fs_defs
  by (auto simp: cmd_simps split: prod.splits option.splits sum.splits
      intro!: R_ok post_pure cmd_intros intro: R_var_name)
subsection \<open>Handlers with loops\<close>

lemma opt_while_ok:
  assumes "R s t" "\<And>r p a u. R s u \<Longrightarrow> post (body r p (a, u)) (\<lambda>c. R s (snd (ctl_val c)))"
    and "\<And>c o'. R s (snd (ctl_val c)) \<Longrightarrow> Q (c, o')"
  shows "post (opt_while opts str body (a, t)) Q"
proof -
  have "post (opt_while opts str body (a, t)) (\<lambda>(c, o'). R s (snd (ctl_val c)))"
    using assms(1,2) by (intro post_opt_while [where Q = "\<lambda>p. R s (snd p)"]) auto
  then show ?thesis using assms(3) by (auto elim: post_mono)
qed

lemmas opt_defs = mouse_move_opt_def disk_add_opt_def load_file_opt_def ls_opt_def stat_opt_def board_opt_def

lemma opt_body_ok:
  "R s u \<Longrightarrow> post (mouse_move_opt r p (a, u)) (\<lambda>c. R s (snd (ctl_val c)))"
  "R s u \<Longrightarrow> post (disk_add_opt r p (a', u)) (\<lambda>c. R s (snd (ctl_val c)))"
  "R s u \<Longrightarrow> post (load_file_opt r p (b, u)) (\<lambda>c. R s (snd (ctl_val c)))"
  "R s u \<Longrightarrow> post (ls_opt use r p (c, u)) (\<lambda>c. R s (snd (ctl_val c)))"
  "R s u \<Longrightarrow> post (stat_opt r p (d, u)) (\<lambda>c. R s (snd (ctl_val c)))"
  "R s u \<Longrightarrow> post (board_opt r p (e, u)) (\<lambda>c. R s (snd (ctl_val c)))"
  by (auto simp: opt_defs Let_def split: prod.splits option.splits intro!: R_ok post_pure)

lemma scancode_loop_ok: "R s t \<Longrightarrow> post (scancode_loop K n i argv t) (R s)"
  by (induction n arbitrary: i t) (auto intro!: R_ok post_pure post_mono [OF run_in_slot_ok [of s]])

lemma boot_params_loop_ok: "R s t \<Longrightarrow> post (boot_params_loop argc i argv t) (R s)"
proof (induction argc i argv t rule: boot_params_loop.induct)
  case (1 argc i argv t)
  then show ?case
    by (subst boot_params_loop.simps)
      (auto simp: set_boot_def kdo_ok split: option.splits intro!: R_ok post_pure)
qed

lemma load_cwd_ok: "R s t \<Longrightarrow> post (load_cwd K t) (R s)"
proof -
  assume t: "R s t"
  have "R s (t\<lparr>kst := k, cur_dir := d\<rparr>)" if "blit (cur_dir t) bs = Inr d" for k bs d
    using R_trans [OF t] R_trans [OF R_kst [of t k] R_cur_dir [of d "t\<lparr>kst := k\<rparr>"]]
      blit_length [OF that] by auto
  then show ?thesis by (auto simp: load_cwd_def kcall_def post_def rbind_Inr_iff split: prod.splits sum.splits)
qed

lemma board_loop_ok:
  assumes "board_loop K flush t = Some u" "R s t"
  shows "R s u"
proof -
  have "R s t \<longrightarrow> R s u"
    by (rule board_loop.raw_induct [OF _ assms(1), where P = "\<lambda>K flush t u. R s t \<longrightarrow> R s u"])
      (auto simp: Let_def kcall_def split: prod.splits if_splits intro!: R_ok)
  then show ?thesis using assms(2) by blast
qed

lemma ls_range_loop_ok: "R s t \<Longrightarrow> post (ls_range_loop K f enc path n off sz buf t) (R s)"
proof (induction K f enc path n off sz buf t rule: ls_range_loop.induct)
  case (1 K f enc path n off sz buf t)
  then show ?case
    by (subst ls_range_loop.simps)
      (auto simp: Let_def kcall_def print_f70_status_def fputs_ok update_ok split: prod.splits
        intro!: R_ok post_pure)
qed

lemma ls_all_round_ok:
  "R s t \<Longrightarrow> post (ls_all_round K f enc path sz off buf t) (\<lambda>(again, o', b', u). R s u)"
  by (auto simp: ls_all_round_def Let_def print_f70_status_def intro!: R_ok post_pure
      post_mono [OF run_in_slot_ok [of s]])

lemma ls_all_loop_ok:
  assumes "ls_all_loop K f enc path sz off buf t = Some r" "R s t"
  shows "post r (R s)"
proof -
  have "R s t \<longrightarrow> post r (R s)"
  proof (rule ls_all_loop.raw_induct [OF _ assms(1),
        where P = "\<lambda>K f enc path sz off buf t r. R s t \<longrightarrow> post r (R s)"], rule impI)
    fix loop K f enc path sz off buf t r
    assume ih: "\<And>K f enc path sz off buf t r. loop K f enc path sz off buf t = Some r \<Longrightarrow> R s t \<longrightarrow> post r (R s)"
      and eq: "(case ls_all_round K f enc path sz off buf t of Inl e \<Rightarrow> Some (Inl e)
        | Inr (again, o', b', t') \<Rightarrow> if again then loop K f enc path sz o' b' t' else Some (Inr t')) = Some r"
      and t: "R s t"
    show "post r (R s)" using ls_all_round_ok [OF t, of K f enc path sz off buf] eq ih
      by (auto split: sum.splits prod.splits if_splits)
  qed
  then show ?thesis using assms(2) by blast
qed

lemma ls_run_ok: "R s t \<Longrightarrow> post (ls_run K f path opts t) (R s)"
  by (auto simp: ls_run_def ls_range_def ls_all_def Let_def intro!: ls_range_loop_ok ls_all_loop_ok
      split: option.splits)

lemma show_read_ok:
  assumes "R s t"
  shows "post (rbind (if b then print_bytes buf n t else Inr t) (\<lambda>u. if h then print_hash buf n u else Inr u)) (R s)"
proof -
  have 1: "post (if b then print_bytes buf n t else Inr t) (R s)" using assms by (simp add: print_bytes_ok)
  show ?thesis unfolding post_simps by (rule post_mono [OF 1]) (simp add: print_hash_ok)
qed

lemma read_run_ok: "R s t \<Longrightarrow> post (read_run K f path off n b h t) (R s)"
  unfolding read_run_def Let_def case_prod_beta print_f70_status_def
  by (intro post_if post_simps(1) post_InrI post_rbind_pure show_read_ok R_ok)

lemma show_times_ok: "R s t \<Longrightarrow> R s (show_times opts file t)"
  by (simp add: show_times_def fputs_ok)

lemma loop_ok:
  "post (cmd_send_scancode K argc argv s) (R s)" "post (cmd_umka_set_boot_params K argc argv s) (R s)"
  "post (cmd_disk_add K argc argv s) (R s)" "post (cmd_pwd K argc argv s) (R s)"
  "post (cmd_ramdisk_init K argc argv s) (R s)" "post (cmd_ls use f K argc argv s) (R s)"
  "post (cmd_stat f K argc argv s) (R s)" "post (cmd_read f use K argc argv s) (R s)"
  "post (cmd_board_get K argc argv s) (R s)" "post (cmd_kos_sys_misc_load_file K argc argv s) (R s)"
  "post (cmd_mouse_move K argc argv s) (R s)"
  unfolding loop_defs
  by (auto simp: cmd_simps parse_uint32_def parse_uint64_def
      split: prod.splits option.splits sum.splits ctl.splits
      intro!: R_ok show_times_ok post_pure cmd_intros opt_while_ok opt_body_ok scancode_loop_ok
        boot_params_loop_ok ls_run_ok read_run_ok post_mono [OF load_cwd_ok [of s]]
        post_mono [OF print_hash_ok [of s]]
      intro: board_loop_ok)

subsection \<open>The table and the loop\<close>

lemmas handlers_ok = gui_ok input_ok info_ok net_ok misc_ok sys_ok fs_ok loop_ok
  loop_ok(6) [of usage_ls70 F70, folded cmd_ls70_def] loop_ok(6) [of usage_ls80 F80, folded cmd_ls80_def]
  loop_ok(7) [of F70, folded cmd_stat70_def] loop_ok(7) [of F80, folded cmd_stat80_def]
  loop_ok(8) [of F70 usage_read70, folded cmd_read70_def] loop_ok(8) [of F80 usage_read80, folded cmd_read80_def]

lemma cmds_with_ok:
  assumes "\<And>argc argv. post (h K argc argv s) (R s)"
  shows "list_all (\<lambda>e. post (snd e K argc argv s) (R s)) (cmds_with h)"
  by (simp add: cmds_with_def assms handlers_ok)

lemma help_in_ok:
  assumes "\<And>argc argv. list_all (\<lambda>e. post (snd e K argc argv s) (R s)) table"
  shows "post (help_in table K argc argv s) (R s)"
proof -
  have "post (f K 0 [] s) (R s)" if "map_of table nm = Some f" for nm f
    using assms [of 0 "[]"] map_of_SomeD [OF that] by (auto simp: list_all_iff)
  then show ?thesis by (auto simp: help_in_def split: option.splits intro!: R_ok post_pure)
qed

lemma cmd_cmds_ok: "map_of cmd_cmds nm = Some f \<Longrightarrow> post (f K argc argv s) (R s)"
proof -
  assume f: "map_of cmd_cmds nm = Some f"
  have h: "post (cmd_help K argc argv s) (R s)" for argc argv
    unfolding cmd_help_def by (intro help_in_ok cmds_with_ok) simp
  show ?thesis using cmds_with_ok [of cmd_help K s argc argv, OF h] map_of_SomeD [OF f]
    by (auto simp: list_all_iff cmd_cmds_def)
qed

lemma prompt_ok: "R s t \<Longrightarrow> post (prompt K t) (R s)"
  by (auto simp: prompt_def intro!: R_ok post_mono [OF load_cwd_ok [of s]])

lemma echo_ok: "R s t \<Longrightarrow> post (echo K is_tty line t) (R s)"
  by (auto simp: echo_def intro!: R_ok post_mono [OF prompt_ok [of s]])

lemma run_line_ok:
  assumes "R s t"
  shows "post (run_line K line argv t) (\<lambda>(a, u). R s u)"
proof -
  have "post (case map_of cmd_cmds nm of Some f \<Rightarrow> f K argc a t
      | None \<Rightarrow> Inr (fputs (''unknown command: '' @ nm @ nl) t)) (R s)" for argc a nm
    using post_mono [OF cmd_cmds_ok R_trans [OF assms]] assms by (auto split: option.splits intro: R_ok)
  then show ?thesis by (auto simp: run_line_def intro!: post_pure post_any [where r = "split_args line argv"])
qed

lemma run_lines_ok: "R s t \<Longrightarrow> post (run_lines K is_tty input argv t) (R s)"
proof (induction input arbitrary: argv t)
  case Nil
  then show ?case by simp
next
  case (Cons line input)
  have "post (run_lines K is_tty (line # input) argv t) (R s)"
    unfolding run_lines.simps post_simps(3)
    by (rule post_mono [OF echo_ok [OF Cons.prems]])
      (auto split: option.splits intro!: Cons.IH post_mono [OF run_line_ok [of s]])
  then show ?case .
qed

end

section \<open>Well-formed shells\<close>

text \<open>The variables with a name: all but a value just produced, which is at the head.\<close>

fun named_vars :: "shell_var list \<Rightarrow> shell_var list" where
  "named_vars [] = []"
| "named_vars (v # vs) = (if var_name v = [] then vs else v # vs)"

definition var_ok :: "shell_var \<Rightarrow> bool" where
  "var_ok v \<longleftrightarrow> take 1 (var_name v) = ''$'' \<and> length (var_name v) < SHELL_VAR_NAME_LEN"

text \<open>
  Between commands the command slot is free, the two path buffers have their size, and every
  variable but the head has a name that starts with a dollar sign and fits its array.
\<close>

definition shell_ok :: "'k shell \<Rightarrow> bool" where
  "shell_ok sh \<longleftrightarrow> cmd_state sh = SHELL_CMD_STATUS_EMPTY \<and> length (cur_dir sh) = PATH_MAX
     \<and> length (pci_path sh) < PATH_MAX \<and> list_all var_ok (named_vars (var sh))"

text \<open>The log and the named variables only grow, and the configuration of the shell is fixed.\<close>

definition extends :: "'k shell \<Rightarrow> 'k shell \<Rightarrow> bool" where
  "extends sh sh' \<longleftrightarrow> prefix (fout sh) (fout sh') \<and> suffix (named_vars (var sh)) (named_vars (var sh'))
     \<and> env sh' = env sh \<and> reproducible sh' = reproducible sh \<and> running sh' = running sh"

lemma var_add_fields:
  assumes "shell_var_add ty v s = Inr t"
  shows "t = s\<lparr>var := var t\<rparr>" "named_vars (var t) = named_vars (var s)"
    "\<exists>vs. var t = \<lparr>var_type = ty, var_name = [], var_value = v\<rparr> # vs"
  using assms
  by (auto simp: shell_var_add_def shell_var_new_def split: list.splits if_splits intro: shell_var.equality)

lemma var_name_fields:
  assumes "shell_var_name s nm = (b, t)"
  shows "t = s\<lparr>var := var t\<rparr>"
    "named_vars (var t) = (if b then (hd (var s))\<lparr>var_name := nm\<rparr> # named_vars (var s) else named_vars (var s))"
    "b \<Longrightarrow> take 1 nm = ''$'' \<and> length nm < SHELL_VAR_NAME_LEN"
  using assms by (auto simp: shell_var_name_def split: list.splits if_splits)

lemma suffix_named: "suffix xs ys \<Longrightarrow> suffix xs (y # ys)"
  by (simp add: suffix_ConsI)

lemma extends_var:
  "t = s\<lparr>var := var t\<rparr> \<Longrightarrow> suffix (named_vars (var s)) (named_vars (var t)) \<Longrightarrow> extends s t"
  by (cases s, cases t) (simp add: extends_def)

lemma shell_ok_var:
  "t = s\<lparr>var := var t\<rparr> \<Longrightarrow> (list_all var_ok (named_vars (var s)) \<Longrightarrow> list_all var_ok (named_vars (var t)))
   \<Longrightarrow> shell_ok s \<longrightarrow> shell_ok t"
  by (cases s, cases t) (simp add: shell_ok_def)

interpretation wf: shell_relation "\<lambda>s t. shell_ok s \<longrightarrow> shell_ok t"
proof unfold_locales
  show "shell_ok s \<longrightarrow> shell_ok t" if "shell_var_add ty v s = Inr t" for ty v s and t :: "'a kst shell"
    using var_add_fields [OF that] by (intro shell_ok_var) simp_all
  show "shell_ok s \<longrightarrow> shell_ok t" if "shell_var_name s nm = (b, t)" for s nm b and t :: "'a kst shell"
    using var_name_fields [OF that] by (intro shell_ok_var) (auto simp: var_ok_def)
qed (auto simp: shell_ok_def)

interpretation ext: shell_relation extends
proof unfold_locales
  show "extends s t" if "shell_var_add ty v s = Inr t" for ty v s and t :: "'a kst shell"
    using var_add_fields [OF that] by (intro extends_var) simp_all
  show "extends s t" if "shell_var_name s nm = (b, t)" for s nm b and t :: "'a kst shell"
    using var_name_fields [OF that] by (intro extends_var) (auto intro: suffix_named)
qed (auto simp: extends_def intro: prefix_order.trans suffix_order.trans)

end
