(* ===== verification/ShellProps.thy ===== *)
theory ShellProps
  imports ShellInv
begin

text \<open>
  Properties of the shell as a whole: what a run of a test keeps, how lines are split and dispatched,
  what \<^verbatim>\<open>help\<close> prints, and the value of shell variables.
\<close>

section \<open>The table\<close>

lemma cmds_with_names: "map fst (cmds_with h) = map fst (cmds_with h')"
  by (simp add: cmds_with_def)

lemma cmds_with_replace: "map (\<lambda>(n, f). (n, if n = ''help'' then h' else f)) (cmds_with h) = cmds_with h'"
  by (simp add: cmds_with_def)

lemma map_of_mapk: "map_of (map (\<lambda>(k, v). (k, g k v)) t) x = map_option (g x) (map_of t x)"
  by (induction t) auto

lemma cmds_with_lookup:
  "map_of (cmds_with h') nm = map_option (\<lambda>f. if nm = ''help'' then h' else f) (map_of (cmds_with h) nm)"
  unfolding cmds_with_replace [of h' h, symmetric] by (rule map_of_mapk)

lemma help_zero: "help_in table K 0 argv sh = Inr (fputs usage_help sh)"
  by (simp add: help_in_def)

text \<open>The equation the source has: \<^verbatim>\<open>help\<close> searches the table it is in.\<close>

lemma help_in_same:
  assumes "map fst t1 = map fst t2" "\<And>nm. map_of t1 nm = map_of t2 nm
     \<or> (\<exists>f g. map_of t1 nm = Some f \<and> map_of t2 nm = Some g \<and> (\<forall>K sh. f K 0 [] sh = g K 0 [] sh))"
  shows "help_in t1 = help_in t2"
proof (intro ext)
  fix K argc argv sh
  have n: "concat (map (\<lambda>e. ''  '' @ fst e @ nl) t1) = concat (map (\<lambda>e. ''  '' @ fst e @ nl) t2)"
    using arg_cong [OF assms(1), of "\<lambda>ns. concat (map (\<lambda>n. ''  '' @ n @ nl) ns)"] by (simp add: comp_def)
  have l: "(case map_of t1 nm of Some f \<Rightarrow> f K 0 [] sh | None \<Rightarrow> Inr (fputs (''no such command: '' @ nm @ nl) sh))
      = (case map_of t2 nm of Some f \<Rightarrow> f K 0 [] sh | None \<Rightarrow> Inr (fputs (''no such command: '' @ nm @ nl) sh))" for nm
    using assms(2) [of nm] by auto
  show "help_in t1 K argc argv sh = help_in t2 K argc argv sh"
    unfolding help_in_def n l ..
qed

lemma cmds_with_help: "map_of (cmds_with h) ''help'' = Some h"
proof -
  have "''help'' \<in> set (map fst (cmds_with h))" by (simp add: cmds_with_def)
  then obtain f where "map_of (cmds_with h) ''help'' = Some f" by (metis domD dom_map_of_conv_image_fst set_map)
  then show ?thesis using cmds_with_lookup [of h "''help''" h] by simp
qed

lemma cmd_help_table: "cmd_help = (help_in cmd_cmds :: 'a kst command)"
  unfolding cmd_cmds_def cmd_help_def
proof (rule help_in_same [OF cmds_with_names])
  fix nm
  let ?h = "help_in [] :: 'a kst command"
  let ?g = "help_in (cmds_with ?h)"
  show "map_of (cmds_with ?h) nm = map_of (cmds_with ?g) nm
    \<or> (\<exists>f g. map_of (cmds_with ?h) nm = Some f \<and> map_of (cmds_with ?g) nm = Some g
        \<and> (\<forall>K sh. f K 0 [] sh = g K 0 [] sh))"
  proof (cases "nm = ''help''")
    case True
    then show ?thesis by (simp add: cmds_with_help help_zero)
  next
    case False
    then show ?thesis using cmds_with_lookup [of ?g nm ?h] by (simp add: option.map_ident)
  qed
qed

definition cmd_names :: "string list" where
  "cmd_names =
     [''send_scancode'', ''umka_boot'', ''umka_set_boot_params'', ''acpi_call'', ''acpi_enable'',
      ''acpi_get_usage'', ''acpi_preload_table'', ''acpi_set_usage'', ''acpi_get_node_alloc_cnt'',
      ''acpi_get_node_free_cnt'', ''acpi_get_node_cnt'', ''board_get'', ''board_put'', ''bg_map'',
      ''bg_put_img'', ''bg_put_pixel'', ''bg_redraw'', ''bg_set_mode'', ''bg_set_size'', ''bg_unmap'',
      ''blit_bitmap'', ''button'', ''cd'', ''set'', ''get'', ''get_key'', ''disk_add'', ''disk_del'',
      ''display_number'', ''draw_line'', ''draw_rect'', ''draw_window'', ''dump_appdata'', ''dump_key_buff'',
      ''dump_wdata'', ''dump_win_pos'', ''dump_win_stack'', ''dump_win_map'', ''exec'', ''get_font_size'',
      ''get_font_smoothing'', ''get_keyboard_lang'', ''get_keyboard_layout'', ''get_keyboard_mode'',
      ''get_mouse_buttons_state'', ''get_mouse_buttons_state_events'', ''get_mouse_pos_screen'',
      ''get_mouse_pos_window'', ''get_screen_area'', ''get_screen_size'', ''get_skin_height'',
      ''get_skin_margins'', ''get_system_lang'', ''get_window_colors'', ''help'', ''i40'',
      ''kos_sys_misc_init_heap'', ''kos_sys_misc_load_file'', ''load_cursor_from_file'',
      ''load_cursor_from_mem'', ''load_dll'', ''ls70'', ''ls80'', ''move_window'', ''mouse_move'',
      ''stack_init'', ''net_accept'', ''net_add_device'', ''net_arp_add_entry'', ''net_arp_del_entry'',
      ''net_arp_get_count'', ''net_arp_get_entry'', ''net_bind'', ''net_close_socket'', ''net_connect'',
      ''net_dev_reset'', ''net_dev_stop'', ''net_eth_read_mac'', ''net_get_byte_rx_count'',
      ''net_get_byte_tx_count'', ''net_get_dev'', ''net_get_dev_count'', ''net_get_dev_name'',
      ''net_get_dev_type'', ''net_get_link_status'', ''net_get_packet_rx_count'', ''net_get_packet_tx_count'',
      ''net_ipv4_get_addr'', ''net_ipv4_get_dns'', ''net_ipv4_get_gw'', ''net_ipv4_get_subnet'',
      ''net_ipv4_set_addr'', ''net_ipv4_set_dns'', ''net_ipv4_set_gw'', ''net_ipv4_set_subnet'', ''net_listen'',
      ''net_open_socket'', ''osloop'', ''pci_get_path'', ''pci_set_path'', ''process_info'', ''put_image'',
      ''put_image_palette'', ''pwd'', ''ramdisk_init'', ''read70'', ''read80'', ''scrot'',
      ''write_devices_dat'', ''set_button_style'', ''set_cursor'', ''set_cwd'', ''set_font_size'',
      ''set_font_smoothing'', ''set_keyboard_lang'', ''set_keyboard_layout'', ''set_keyboard_mode'',
      ''set_mouse_pos_screen'', ''set_pixel'', ''set_screen_area'', ''set_skin'', ''set_system_lang'',
      ''set_window_caption'', ''set_window_colors'', ''csleep'', ''stat70'', ''stat80'', ''var'',
      ''check_for_event'', ''wait_for_idle'', ''wait_for_os_idle'', ''wait_for_window'', ''window_redraw'',
      ''write_text'', ''switch_to_thread'', ''new_sys_thread'']"

lemma cmd_cmds_names: "map fst cmd_cmds = cmd_names"
  unfolding cmd_cmds_def cmds_with_def cmd_names_def list.map fst_conv ..

lemma cmd_names_distinct: "distinct cmd_names"
  unfolding cmd_names_def by simp

section \<open>Help\<close>

definition usage_only :: "'k shell \<Rightarrow> 'k shell res \<Rightarrow> bool" where
  "usage_only sh r \<longleftrightarrow> (\<exists>u. prefix ''usage: '' u \<and> r = Inr (fputs u sh))"

lemma usage_onlyI: "prefix ''usage: '' u \<Longrightarrow> usage_only sh (Inr (fputs u sh))"
  by (auto simp: usage_only_def)

lemmas usage_defs =
  usage_var_def usage_send_scancode_def usage_umka_boot_def usage_umka_set_boot_params_def usage_csleep_def
  usage_wait_for_idle_def usage_wait_for_os_idle_def usage_wait_for_window_def usage_i40_def
  usage_ramdisk_init_def usage_disk_add_def usage_disk_del_def usage_pwd_def usage_set_pixel_def
  usage_write_text_def usage_get_key_def usage_dump_key_buff_def usage_dump_win_stack_def
  usage_dump_win_pos_def usage_dump_win_map_def usage_dump_wdata_def usage_dump_appdata_def
  usage_switch_to_thread_def usage_get_def usage_set_def usage_new_sys_thread_def usage_mouse_move_def
  usage_process_info_def usage_check_for_event_def usage_display_number_def usage_set_window_colors_def
  usage_get_window_colors_def usage_get_skin_height_def usage_get_screen_area_def usage_set_screen_area_def
  usage_get_skin_margins_def usage_set_button_style_def usage_set_skin_def usage_get_keyboard_layout_def
  usage_set_keyboard_layout_def usage_get_keyboard_lang_def usage_get_system_lang_def
  usage_set_keyboard_lang_def usage_set_system_lang_def usage_get_keyboard_mode_def
  usage_set_keyboard_mode_def usage_get_font_smoothing_def usage_set_font_smoothing_def
  usage_get_font_size_def usage_set_font_size_def usage_set_mouse_pos_screen_def
  usage_get_mouse_pos_screen_def usage_get_mouse_pos_window_def usage_get_mouse_buttons_state_def
  usage_get_mouse_buttons_state_events_def usage_button_def usage_kos_sys_misc_init_heap_def
  usage_kos_sys_misc_load_file_def usage_load_cursor_from_file_def usage_load_cursor_from_mem_def
  usage_set_cursor_def usage_put_image_def usage_put_image_palette_def usage_draw_rect_def
  usage_get_screen_size_def usage_draw_line_def usage_set_window_caption_def usage_draw_window_def
  usage_window_redraw_def usage_move_window_def usage_blit_bitmap_def usage_write_devices_dat_def
  usage_scrot_def usage_cd_def usage_exec_def usage_ls70_def usage_ls80_def usage_stat_def usage_read70_def
  usage_read80_def usage_acpi_preload_table_def usage_acpi_enable_def usage_acpi_get_node_cnt_def
  usage_acpi_get_node_alloc_cnt_def usage_acpi_get_node_free_cnt_def usage_acpi_set_usage_def
  usage_acpi_get_usage_def usage_acpi_call_def usage_pci_set_path_def usage_pci_get_path_def
  usage_load_dll_def usage_stack_init_def usage_net_add_device_def usage_net_get_dev_count_def
  usage_net_get_dev_type_def usage_net_get_dev_name_def usage_net_dev_reset_def usage_net_dev_stop_def
  usage_net_get_dev_def usage_net_get_packet_tx_count_def usage_net_get_packet_rx_count_def
  usage_net_get_byte_tx_count_def usage_net_get_byte_rx_count_def usage_net_get_link_status_def
  usage_net_open_socket_def usage_net_close_socket_def usage_net_bind_def usage_net_listen_def
  usage_net_connect_def usage_net_accept_def usage_net_eth_read_mac_def usage_net_ipv4_get_addr_def
  usage_net_ipv4_set_addr_def usage_net_ipv4_get_dns_def usage_net_ipv4_set_dns_def
  usage_net_ipv4_get_subnet_def usage_net_ipv4_set_subnet_def usage_net_ipv4_get_gw_def
  usage_net_ipv4_set_gw_def usage_net_arp_get_count_def usage_net_arp_get_entry_def
  usage_net_arp_add_entry_def usage_net_arp_del_entry_def usage_osloop_def usage_bg_set_size_def
  usage_bg_put_pixel_def usage_bg_redraw_def usage_bg_set_mode_def usage_bg_put_img_def usage_board_get_def
  usage_board_put_def usage_bg_map_def usage_bg_unmap_def usage_help_def

lemma usage_prefix:
  "prefix ''usage: '' usage_var" "prefix ''usage: '' usage_send_scancode"
  "prefix ''usage: '' usage_umka_boot" "prefix ''usage: '' usage_umka_set_boot_params"
  "prefix ''usage: '' usage_csleep" "prefix ''usage: '' usage_wait_for_idle"
  "prefix ''usage: '' usage_wait_for_os_idle" "prefix ''usage: '' usage_wait_for_window"
  "prefix ''usage: '' usage_i40" "prefix ''usage: '' usage_ramdisk_init"
  "prefix ''usage: '' usage_disk_add" "prefix ''usage: '' usage_disk_del" "prefix ''usage: '' usage_pwd"
  "prefix ''usage: '' usage_set_pixel" "prefix ''usage: '' usage_write_text"
  "prefix ''usage: '' usage_get_key" "prefix ''usage: '' usage_dump_key_buff"
  "prefix ''usage: '' usage_dump_win_stack" "prefix ''usage: '' usage_dump_win_pos"
  "prefix ''usage: '' usage_dump_win_map" "prefix ''usage: '' usage_dump_wdata"
  "prefix ''usage: '' usage_dump_appdata" "prefix ''usage: '' usage_switch_to_thread"
  "prefix ''usage: '' usage_get" "prefix ''usage: '' usage_set" "prefix ''usage: '' usage_new_sys_thread"
  "prefix ''usage: '' usage_mouse_move" "prefix ''usage: '' usage_process_info"
  "prefix ''usage: '' usage_check_for_event" "prefix ''usage: '' usage_display_number"
  "prefix ''usage: '' usage_set_window_colors" "prefix ''usage: '' usage_get_window_colors"
  "prefix ''usage: '' usage_get_skin_height" "prefix ''usage: '' usage_get_screen_area"
  "prefix ''usage: '' usage_set_screen_area" "prefix ''usage: '' usage_get_skin_margins"
  "prefix ''usage: '' usage_set_button_style" "prefix ''usage: '' usage_set_skin"
  "prefix ''usage: '' usage_get_keyboard_layout" "prefix ''usage: '' usage_set_keyboard_layout"
  "prefix ''usage: '' usage_get_keyboard_lang" "prefix ''usage: '' usage_get_system_lang"
  "prefix ''usage: '' usage_set_keyboard_lang" "prefix ''usage: '' usage_set_system_lang"
  "prefix ''usage: '' usage_get_keyboard_mode" "prefix ''usage: '' usage_set_keyboard_mode"
  "prefix ''usage: '' usage_get_font_smoothing" "prefix ''usage: '' usage_set_font_smoothing"
  "prefix ''usage: '' usage_get_font_size" "prefix ''usage: '' usage_set_font_size"
  "prefix ''usage: '' usage_set_mouse_pos_screen" "prefix ''usage: '' usage_get_mouse_pos_screen"
  "prefix ''usage: '' usage_get_mouse_pos_window" "prefix ''usage: '' usage_get_mouse_buttons_state"
  "prefix ''usage: '' usage_get_mouse_buttons_state_events" "prefix ''usage: '' usage_button"
  "prefix ''usage: '' usage_kos_sys_misc_init_heap" "prefix ''usage: '' usage_kos_sys_misc_load_file"
  "prefix ''usage: '' usage_load_cursor_from_file" "prefix ''usage: '' usage_load_cursor_from_mem"
  "prefix ''usage: '' usage_set_cursor" "prefix ''usage: '' usage_put_image"
  "prefix ''usage: '' usage_put_image_palette" "prefix ''usage: '' usage_draw_rect"
  "prefix ''usage: '' usage_get_screen_size" "prefix ''usage: '' usage_draw_line"
  "prefix ''usage: '' usage_set_window_caption" "prefix ''usage: '' usage_draw_window"
  "prefix ''usage: '' usage_window_redraw" "prefix ''usage: '' usage_move_window"
  "prefix ''usage: '' usage_blit_bitmap" "prefix ''usage: '' usage_write_devices_dat"
  "prefix ''usage: '' usage_scrot" "prefix ''usage: '' usage_cd" "prefix ''usage: '' usage_exec"
  "prefix ''usage: '' usage_ls70" "prefix ''usage: '' usage_ls80" "prefix ''usage: '' usage_stat"
  "prefix ''usage: '' usage_read70" "prefix ''usage: '' usage_read80"
  "prefix ''usage: '' usage_acpi_preload_table" "prefix ''usage: '' usage_acpi_enable"
  "prefix ''usage: '' usage_acpi_get_node_cnt" "prefix ''usage: '' usage_acpi_get_node_alloc_cnt"
  "prefix ''usage: '' usage_acpi_get_node_free_cnt" "prefix ''usage: '' usage_acpi_set_usage"
  "prefix ''usage: '' usage_acpi_get_usage" "prefix ''usage: '' usage_acpi_call"
  "prefix ''usage: '' usage_pci_set_path" "prefix ''usage: '' usage_pci_get_path"
  "prefix ''usage: '' usage_load_dll" "prefix ''usage: '' usage_stack_init"
  "prefix ''usage: '' usage_net_add_device" "prefix ''usage: '' usage_net_get_dev_count"
  "prefix ''usage: '' usage_net_get_dev_type" "prefix ''usage: '' usage_net_get_dev_name"
  "prefix ''usage: '' usage_net_dev_reset" "prefix ''usage: '' usage_net_dev_stop"
  "prefix ''usage: '' usage_net_get_dev" "prefix ''usage: '' usage_net_get_packet_tx_count"
  "prefix ''usage: '' usage_net_get_packet_rx_count" "prefix ''usage: '' usage_net_get_byte_tx_count"
  "prefix ''usage: '' usage_net_get_byte_rx_count" "prefix ''usage: '' usage_net_get_link_status"
  "prefix ''usage: '' usage_net_open_socket" "prefix ''usage: '' usage_net_close_socket"
  "prefix ''usage: '' usage_net_bind" "prefix ''usage: '' usage_net_listen"
  "prefix ''usage: '' usage_net_connect" "prefix ''usage: '' usage_net_accept"
  "prefix ''usage: '' usage_net_eth_read_mac" "prefix ''usage: '' usage_net_ipv4_get_addr"
  "prefix ''usage: '' usage_net_ipv4_set_addr" "prefix ''usage: '' usage_net_ipv4_get_dns"
  "prefix ''usage: '' usage_net_ipv4_set_dns" "prefix ''usage: '' usage_net_ipv4_get_subnet"
  "prefix ''usage: '' usage_net_ipv4_set_subnet" "prefix ''usage: '' usage_net_ipv4_get_gw"
  "prefix ''usage: '' usage_net_ipv4_set_gw" "prefix ''usage: '' usage_net_arp_get_count"
  "prefix ''usage: '' usage_net_arp_get_entry" "prefix ''usage: '' usage_net_arp_add_entry"
  "prefix ''usage: '' usage_net_arp_del_entry" "prefix ''usage: '' usage_osloop"
  "prefix ''usage: '' usage_bg_set_size" "prefix ''usage: '' usage_bg_put_pixel"
  "prefix ''usage: '' usage_bg_redraw" "prefix ''usage: '' usage_bg_set_mode"
  "prefix ''usage: '' usage_bg_put_img" "prefix ''usage: '' usage_board_get"
  "prefix ''usage: '' usage_board_put" "prefix ''usage: '' usage_bg_map"
  "prefix ''usage: '' usage_bg_unmap" "prefix ''usage: '' usage_help"
  unfolding usage_defs by simp_all

lemmas handler_defs = gui_defs input_defs info_defs net_defs misc_defs sys_defs fs_defs loop_defs cmd_ls70_def
  cmd_ls80_def cmd_stat70_def cmd_stat80_def cmd_read70_def cmd_read80_def query_dev_def query76_def set76_def
  socket_call_def

text \<open>The commands that do something else when \<^verbatim>\<open>help\<close> enters them.\<close>

definition help_exceptions :: "string list" where
  "help_exceptions = [''umka_set_boot_params'', ''net_add_device'', ''board_get'', ''get_key'',
     ''dump_key_buff'', ''dump_win_stack'', ''dump_win_map'']"

lemma help_table:
  "list_all (\<lambda>e. fst e \<in> set help_exceptions \<or> usage_only sh (snd e K 0 [] sh)) cmd_cmds"
  unfolding cmd_cmds_def cmds_with_def cmd_help_def help_exceptions_def
  by (simp add: handler_defs usage_onlyI usage_prefix help_zero)

section \<open>Commands that cannot fault\<close>

lemma deref_all_ok:
  "argv_ok argc argv \<Longrightarrow> \<forall>i\<in>set is. i < argc \<Longrightarrow> deref_all argv is = Inr (map (arg_str argv) is)"
  by (induction "is") (auto simp: deref_ok)

lemma args_ok: "argv_ok argc argv \<Longrightarrow> n < argc \<Longrightarrow> args argv n = Inr ([] # map (arg_str argv) [1..<n + 1])"
  unfolding args_def by (subst deref_all_ok) auto

lemma load_le: "argv_ok argc argv \<Longrightarrow> i \<le> argc \<Longrightarrow> load argv i = Inr (argv ! i)"
  by (auto simp: argv_ok_def load_def)

lemma last_flag_ok:
  "argv_ok argc argv \<Longrightarrow> last_flag (int argc) argv n f = Inr (if argc = n + 1 then c_bool (arg_str argv n = f) else 0)"
  by (auto simp: last_flag_def deref_ok)

definition total :: "'a res \<Rightarrow> bool" where
  "total r \<longleftrightarrow> (\<exists>x. r = Inr x)"

lemma total_intros: "total (Inr x)" "m = Inr x \<Longrightarrow> total (f x) \<Longrightarrow> total (rbind m f)"
  by (simp_all add: total_def)

lemma var_add_total: "malloc_ok (e_mem (env sh)) 32 \<Longrightarrow> total (shell_var_add ty v sh)"
  by (simp add: shell_var_add_def shell_var_new_def total_intros split: list.split)

lemma fputs_env: "env (fputs s sh) = env sh" by (simp add: fputs_def)

lemmas total_simps = deref_ok load_le args_ok last_flag_ok total_intros Let_def kcall_def case_prod_beta
  var_add_total shell_var_add_sint_def shell_var_add_uint_def shell_var_add_ptr_def fputs_env host_load_file_def read_whole_def
  query_dev_def query76_def set76_def socket_call_def char_at_def

lemma gui_total:
  assumes "argv_ok n argv" "\<And>k. malloc_ok (e_mem (env sh)) k"
  shows "total (cmd_set_pixel K (int n) argv sh)" "total (cmd_write_text K (int n) argv sh)"
    "total (cmd_display_number K (int n) argv sh)" "total (cmd_draw_rect K (int n) argv sh)"
    "total (cmd_get_screen_size K (int n) argv sh)" "total (cmd_draw_line K (int n) argv sh)"
    "total (cmd_set_window_caption K (int n) argv sh)" "total (cmd_draw_window K (int n) argv sh)"
    "total (cmd_window_redraw K (int n) argv sh)" "total (cmd_move_window K (int n) argv sh)"
    "total (cmd_blit_bitmap K (int n) argv sh)" "total (cmd_set_window_colors K (int n) argv sh)"
    "total (cmd_get_skin_height K (int n) argv sh)" "total (cmd_get_screen_area K (int n) argv sh)"
    "total (cmd_set_screen_area K (int n) argv sh)" "total (cmd_get_skin_margins K (int n) argv sh)"
    "total (cmd_set_button_style K (int n) argv sh)" "total (cmd_set_skin K (int n) argv sh)"
    "total (cmd_set_font_smoothing K (int n) argv sh)" "total (cmd_get_font_size K (int n) argv sh)"
    "total (cmd_set_font_size K (int n) argv sh)"
  using assms unfolding gui_defs
  by (auto simp: total_simps split: list.split option.split)

lemma input_total:
  assumes "argv_ok n argv" "\<And>k. malloc_ok (e_mem (env sh)) k"
  shows "total (cmd_get_keyboard_lang K (int n) argv sh)" "total (cmd_get_system_lang K (int n) argv sh)"
    "total (cmd_set_keyboard_lang K (int n) argv sh)" "total (cmd_set_system_lang K (int n) argv sh)"
    "total (cmd_set_keyboard_mode K (int n) argv sh)" "total (cmd_set_mouse_pos_screen K (int n) argv sh)"
    "total (cmd_get_mouse_pos_screen K (int n) argv sh)" "total (cmd_get_mouse_pos_window K (int n) argv sh)"
    "total (cmd_get_mouse_buttons_state K (int n) argv sh)"
    "total (cmd_get_mouse_buttons_state_events K (int n) argv sh)"
    "total (cmd_kos_sys_misc_init_heap K (int n) argv sh)"
    "total (cmd_load_cursor_from_file K (int n) argv sh)"
    "total (cmd_load_cursor_from_mem K (int n) argv sh)"
  using assms unfolding input_defs
  by (auto simp: total_simps split: list.split option.split)

lemma info_total:
  assumes "argv_ok n argv" "\<And>k. malloc_ok (e_mem (env sh)) k"
  shows "total (cmd_get_key K (int n) argv sh)" "total (cmd_switch_to_thread K (int n) argv sh)"
    "total (cmd_get K (int n) argv sh)" "total (cmd_set K (int n) argv sh)"
    "total (cmd_new_sys_thread K (int n) argv sh)" "total (cmd_check_for_event K (int n) argv sh)"
  using assms unfolding info_defs
  by (auto simp: total_simps split: list.split option.split)

lemma net_total:
  assumes "argv_ok n argv" "\<And>k. malloc_ok (e_mem (env sh)) k"
  shows "total (cmd_net_get_dev_count K (int n) argv sh)" "total (cmd_net_get_dev_type K (int n) argv sh)"
    "total (cmd_net_dev_reset K (int n) argv sh)" "total (cmd_net_dev_stop K (int n) argv sh)"
    "total (cmd_net_get_dev K (int n) argv sh)" "total (cmd_net_get_packet_tx_count K (int n) argv sh)"
    "total (cmd_net_get_packet_rx_count K (int n) argv sh)"
    "total (cmd_net_get_byte_tx_count K (int n) argv sh)"
    "total (cmd_net_get_byte_rx_count K (int n) argv sh)" "total (cmd_net_get_link_status K (int n) argv sh)"
    "total (cmd_net_open_socket K (int n) argv sh)" "total (cmd_net_close_socket K (int n) argv sh)"
    "total (cmd_net_bind K (int n) argv sh)" "total (cmd_net_listen K (int n) argv sh)"
    "total (cmd_net_connect K (int n) argv sh)" "total (cmd_net_accept K (int n) argv sh)"
    "total (cmd_net_eth_read_mac K (int n) argv sh)" "total (cmd_net_ipv4_get_addr K (int n) argv sh)"
    "total (cmd_net_ipv4_set_addr K (int n) argv sh)" "total (cmd_net_ipv4_get_dns K (int n) argv sh)"
    "total (cmd_net_ipv4_set_dns K (int n) argv sh)" "total (cmd_net_ipv4_get_subnet K (int n) argv sh)"
    "total (cmd_net_ipv4_set_subnet K (int n) argv sh)" "total (cmd_net_ipv4_get_gw K (int n) argv sh)"
    "total (cmd_net_ipv4_set_gw K (int n) argv sh)" "total (cmd_net_arp_get_count K (int n) argv sh)"
    "total (cmd_net_arp_add_entry K (int n) argv sh)" "total (cmd_net_arp_del_entry K (int n) argv sh)"
  using assms unfolding net_defs
  by (auto simp: total_simps split: list.split option.split)

lemma misc_total:
  assumes "argv_ok n argv" "\<And>k. malloc_ok (e_mem (env sh)) k"
  shows "total (cmd_acpi_enable K (int n) argv sh)" "total (cmd_acpi_get_node_cnt K (int n) argv sh)"
    "total (cmd_acpi_get_node_alloc_cnt K (int n) argv sh)"
    "total (cmd_acpi_get_node_free_cnt K (int n) argv sh)" "total (cmd_acpi_set_usage K (int n) argv sh)"
    "total (cmd_acpi_get_usage K (int n) argv sh)" "total (cmd_acpi_call K (int n) argv sh)"
    "total (cmd_pci_get_path K (int n) argv sh)" "total (cmd_load_dll K (int n) argv sh)"
    "total (cmd_stack_init K (int n) argv sh)" "total (cmd_osloop K (int n) argv sh)"
    "total (cmd_bg_set_size K (int n) argv sh)" "total (cmd_bg_put_pixel K (int n) argv sh)"
    "total (cmd_bg_redraw K (int n) argv sh)" "total (cmd_bg_set_mode K (int n) argv sh)"
    "total (cmd_bg_map K (int n) argv sh)" "total (cmd_bg_unmap K (int n) argv sh)"
  using assms unfolding misc_defs
  by (auto simp: total_simps split: list.split option.split)

lemma sys_total:
  assumes "argv_ok n argv" "\<And>k. malloc_ok (e_mem (env sh)) k"
  shows "total (cmd_var K (int n) argv sh)" "total (cmd_disk_del K (int n) argv sh)"
  using assms unfolding sys_defs
  by (auto simp: total_simps split: list.split option.split)

lemma fs_total:
  assumes "argv_ok n argv" "\<And>k. malloc_ok (e_mem (env sh)) k"
  shows "total (cmd_cd K (int n) argv sh)" "total (cmd_exec K (int n) argv sh)"
  using assms unfolding fs_defs
  by (auto simp: total_simps split: list.split option.split)

lemma board_put_total: "argv_ok n argv \<Longrightarrow> total (cmd_board_put K (int n) argv sh)"
  by (cases "arg_str argv (Suc 0)") (auto simp: cmd_board_put_def total_simps)

text \<open>
  The commands whose outcome depends on more than their arguments and memory: they follow an
  address, an index, a count or a name that the kernel returns or the user gives, read a file that
  may be missing, look past their arguments, or wait for the command thread. \<^verbatim>\<open>help\<close> enters them.
\<close>

definition may_fault :: "string list" where
  "may_fault = [''help'', ''button'', ''put_image'', ''put_image_palette'', ''get_window_colors'',
     ''get_font_smoothing'', ''get_keyboard_layout'', ''set_keyboard_layout'', ''get_keyboard_mode'',
     ''kos_sys_misc_load_file'', ''set_cursor'', ''dump_key_buff'', ''dump_win_stack'',
     ''dump_win_pos'', ''dump_win_map'', ''dump_wdata'', ''dump_appdata'', ''mouse_move'',
     ''process_info'', ''net_add_device'', ''net_get_dev_name'', ''net_arp_get_entry'',
     ''acpi_preload_table'', ''pci_set_path'', ''bg_put_img'', ''board_get'', ''send_scancode'',
     ''umka_boot'', ''umka_set_boot_params'', ''csleep'', ''wait_for_idle'', ''wait_for_os_idle'',
     ''wait_for_window'', ''i40'', ''ramdisk_init'', ''disk_add'', ''pwd'', ''write_devices_dat'',
     ''scrot'', ''ls70'', ''ls80'', ''stat70'', ''stat80'', ''read70'', ''read80'']"

lemma total_table:
  assumes "argv_ok n argv" "\<And>k. malloc_ok (e_mem (env sh)) k"
  shows "list_all (\<lambda>e. fst e \<in> set may_fault \<or> total (snd e K (int n) argv sh)) cmd_cmds"
  unfolding cmd_cmds_def cmds_with_def may_fault_def
  by (simp add: gui_total [OF assms] input_total [OF assms] info_total [OF assms] net_total [OF assms]
      misc_total [OF assms] sys_total [OF assms] fs_total [OF assms] board_put_total [OF assms(1)])

end
