(* ===== verification/ShellTests.thy ===== *)
theory ShellTests
  imports ShellProps
begin

text \<open>
  Properties of the shell's runs: how a line becomes a call of a handler, what a whole test keeps,
  which commands cannot fault, what \<^verbatim>\<open>help\<close> prints, and the values of shell variables. The examples
  run a shell over a small kernel that answers every call with zeros.
\<close>

section \<open>An example kernel\<close>

definition ex_kernel :: "'k kernel" where
  "ex_kernel = \<lparr>i40 = (\<lambda>r k. (\<lparr>ret_eax = 0, ret_ebx = 0, ret_edx = 0, ret_mem = []\<rparr>, k)), kos = (\<lambda>nm a k. (0, k)),
     kos_schedule = (\<lambda>k. k)\<rparr>"

definition ex_kst :: kvars where
  "ex_kst = \<lparr>kos_redraw_background = 0, kos_key_count = 0, kos_key_buff = [], kos_keyboard_mode = 0,
     kos_syslang = 1, kos_keyboard = 1, kos_win_stack = [], kos_win_pos = [], kos_window_data = [],
     kos_slot_base = [], kos_slot_addr = 0, kos_current_slot_idx = 0, kos_current_slot = 0,
     kos_display = \<lparr>disp_width = 2, disp_height = 1, bits_per_pixel = 24, lfb_pitch = 6, win_map = []\<rparr>,
     kos_lfb_base = [1, 2, 3, 4, 5, 6], kos_boot = \<lparr>bpp = 32, pitch = 0, x_res = 0, y_res = 0\<rparr>,
     kos_ramdisk = [], kos_acpi_ssdt_cnt = 0, kos_acpi_ssdt = [], kos_acpi_usage = 7,
     kos_acpi_node_alloc_cnt = 0, kos_acpi_node_free_cnt = 0, acpi_ctx = 0, idle_scheduled = 0,
     os_scheduled = 0, disk_list = [], kos_pci_devs = []\<rparr>"

definition ex_env :: env where
  "ex_env = \<lparr>e_mem = ex_mem, e_localtime = (\<lambda>t. \<lparr>tm_year = 70, tm_mon = 0, tm_mday = 1, tm_hour = 0,
     tm_min = 0, tm_sec = 0\<rparr>), e_strerror = (\<lambda>f. []), e_creatable = (\<lambda>f. True), e_fwrite = (\<lambda>f n. n),
     e_tap = \<lparr>tap_open = False, ioctl_TUNSETIFF = False, ioctl_SIOCSIFHWADDR = False,
       ioctl_SIOCSIFADDR = False, ioctl_SIOCSIFNETMASK = False, ioctl_SIOCGIFFLAGS = False,
       ioctl_SIOCSIFFLAGS = False\<rparr>,
     e_local_addr = 4096, e_lodepng = (\<lambda>px w h. (0, [], px)), e_hash = (\<lambda>bs. replicate 32 0),
     e_time_to_epoch = (\<lambda>t d. 0)\<rparr>"

definition ex_shell :: "kvars shell" where
  "ex_shell = shell_init True UMKA_RUNNING_NEVER ex_env ex_world ex_kst"

lemma ex_shell_env: "env ex_shell = ex_env" "e_mem ex_env = ex_mem" "malloc_ok ex_mem n"
  by (simp_all add: ex_shell_def shell_init_def ex_env_def ex_mem_def)

lemma ex_shell_ok: "shell_ok ex_shell"
  by (simp add: ex_shell_def shell_init_def shell_ok_def)

section \<open>Lines\<close>

lemma tokens_step:
  assumes "t \<noteq> []" "\<forall>c\<in>set t. \<not> d c" "s = [] \<or> d (hd s)"
  shows "tokens d (t @ s) = t # tokens d s"
proof -
  obtain c cs where t: "t = c # cs" using assms(1) by (cases t) auto
  have tw: "takeWhile (\<lambda>x. \<not> d x) (t @ s) = t" "dropWhile (\<lambda>x. \<not> d x) (t @ s) = s"
    using assms(2,3) by (cases s; simp)+
  have "dropWhile d (t @ s) = t @ s" using assms(2) t by simp
  then show ?thesis using tw assms(2) by (simp add: tokens.simps [of d "c # cs @ s"] t)
qed

lemma tokens_skip:
  assumes "\<forall>c\<in>set p. d c"
  shows "tokens d (p @ s) = tokens d s"
proof -
  have "dropWhile d (p @ s) = dropWhile d s" using assms by simp
  then show ?thesis by (simp add: tokens.simps [of d "p @ s"] tokens.simps [of d s])
qed

text \<open>A line made of words, each followed by white space.\<close>

definition spaced :: "(string \<times> string) list \<Rightarrow> string" where
  "spaced ws = concat (map (\<lambda>(t, d). t @ d) ws)"

definition words_ok :: "(string \<times> string) list \<Rightarrow> bool" where
  "words_ok ws \<longleftrightarrow> list_all (\<lambda>(t, d). t \<noteq> [] \<and> d \<noteq> [] \<and> list_all (\<lambda>c. \<not> is_delim c) t \<and> list_all is_delim d) ws"

lemma tokens_spaced: "words_ok ws \<Longrightarrow> tokens is_delim (spaced ws) = map fst ws"
proof (induction ws)
  case Nil
  then show ?case by (simp add: spaced_def tokens.simps)
next
  case (Cons w ws)
  obtain t d where w: "w = (t, d)" by force
  have "tokens is_delim (t @ d @ spaced ws) = t # tokens is_delim (d @ spaced ws)"
    using Cons.prems w by (intro tokens_step) (auto simp: words_ok_def list_all_iff)
  moreover have "tokens is_delim (d @ spaced ws) = tokens is_delim (spaced ws)"
    using Cons.prems w by (intro tokens_skip) (auto simp: words_ok_def list_all_iff)
  ultimately show ?case using Cons w by (simp add: spaced_def words_ok_def)
qed

section \<open>An example test\<close>

lemma ex_lookup: "map_of cmd_cmds ''acpi_get_usage'' = Some cmd_acpi_get_usage"
  by (simp add: cmd_cmds_def cmds_with_def)

lemma ex_usage7: "fmt_u (7::uint32) = ''7''"
  by (simp add: fmt_u_def show_base.simps digit_char_def char_of_def bit_0)

lemma ex_command: "cmd_acpi_get_usage ex_kernel 1 argv ex_shell = Inr (fputs (''ACPI usage: 7'' @ nl) ex_shell)"
  by (simp add: cmd_acpi_get_usage_def ex_shell_def shell_init_def ex_kst_def ex_usage7)

lemma ex_tokens: "tokens is_delim ''acpi_get_usage'' = [''acpi_get_usage'']"
  using tokens_step [of "''acpi_get_usage''" is_delim "[]"] by (simp add: is_delim_def tokens.simps [of is_delim "[]"])

lemma ex_run:
  "run_test ex_kernel True [Some ''acpi_get_usage''] ex_shell = Inr (fputs (''ACPI usage: 7'' @ nl) ex_shell)"
  by (simp add: run_test_def echo_def skips_def run_line_def split_args_def ex_tokens deref_def load_def
      ex_lookup ex_command)

lemma ex_argv: "argv_ok 1 (mk_argv [''acpi_get_usage''])"
  using argv_ok_mk_argv [of "[''acpi_get_usage'']"] by simp

section \<open>Runs that end\<close>

text \<open>A line that is skipped, ends the test, or has from 1 to 42 words of which the first is no command that may fault.\<close>

definition safe_line :: "string option \<Rightarrow> bool" where
  "safe_line line \<longleftrightarrow> (case line of None \<Rightarrow> True | Some l \<Rightarrow> l = [] \<or> skips l
     \<or> (let ts = tokens is_delim l in ts \<noteq> [] \<and> length ts \<le> 42 \<and> hd ts \<notin> set may_fault))"

lemma run_line_total:
  fixes K :: "'a kst kernel"
  assumes "safe_line (Some l)" "l \<noteq> []" "\<not> skips l" "length argv = 43" "\<And>k. malloc_ok (e_mem (env sh)) k"
  shows "\<exists>argv' sh'. run_line K l argv sh = Inr (argv', sh') \<and> length argv' = 43 \<and> env sh' = env sh"
proof -
  obtain nm ts where t: "tokens is_delim l = nm # ts" "length ts \<le> 41" "nm \<notin> set may_fault"
    using assms(1-3) by (cases "tokens is_delim l") (auto simp: safe_line_def Let_def)
  define a where "a = map Ptr (nm # ts) @ [NULL] @ drop (length ts + 2) argv"
  obtain n where n: "n = length ts + 1" by simp
  have s: "split_args l argv = Inr (int (n), a)"
    unfolding split_args_def t a_def n using t(2) assms(4) by simp
  have a: "deref a 0 = Inr nm" "length a = 43" "argv_ok (n) a"
    using t(2) assms(4) argv_ok_mk_argv [of "nm # ts"]
    by (auto simp: n a_def deref_def load_def argv_ok_def mk_argv_def nth_append nth_Cons')
  obtain sh' where r: "(case map_of cmd_cmds nm of Some f \<Rightarrow> f K (int (n)) a sh
      | None \<Rightarrow> Inr (fputs (''unknown command: '' @ nm @ nl) sh)) = Inr sh'"
  proof (cases "map_of cmd_cmds nm :: 'a kst command option")
    case (Some f)
    have "total (f K (int (n)) a sh)"
      using total_table [OF a(3) assms(5), of K] t(3) map_of_SomeD [OF Some] by (auto simp: list_all_iff)
    with Some show ?thesis using that by (auto simp: total_def)
  qed (use that in simp)
  have rl: "run_line K l argv sh = Inr (free_line a, sh')" by (simp add: run_line_def s a r)
  have "env sh' = env sh"
    using ext.run_line_ok [of sh sh K l argv] rl by (simp add: extends_def)
  then show ?thesis using rl a(2) by (simp add: free_line_def)
qed

lemma run_lines_total:
  "list_all safe_line input \<Longrightarrow> length argv = 43 \<Longrightarrow> (\<And>k. malloc_ok (e_mem (env sh)) k)
    \<Longrightarrow> \<exists>sh'. run_lines K True input argv sh = Inr sh'"
proof (induction input arbitrary: argv sh)
  case (Cons line input)
  show ?case
  proof (cases line)
    case (Some l)
    show ?thesis
    proof (cases "l = [] \<or> l = ''X'' \<or> l = ''q'' \<or> skips l")
      case True
      then show ?thesis using Some Cons by (auto simp: echo_def)
    next
      case False
      then obtain argv' sh' where "run_line K l argv sh = Inr (argv', sh')" "length argv' = 43" "env sh' = env sh"
        using run_line_total [of l argv sh K] Cons.prems Some by auto
      then show ?thesis using Cons.IH [of argv' sh'] Cons.prems False Some by (simp add: echo_def)
    qed
  qed (use Cons in \<open>simp add: echo_def\<close>)
qed simp

section \<open>Properties\<close>





text \<open>
  A run of a test only ever appends to the log, never loses or changes a named variable, and
  does not touch the environment, the reproducibility flag or the running state.
\<close>

theorem run_test_extends:
  assumes "run_test K is_tty input sh = Inr sh'"
  shows "prefix (fout sh) (fout sh') \<and> suffix (named_vars (var sh)) (named_vars (var sh'))
    \<and> env sh' = env sh \<and> reproducible sh' = reproducible sh \<and> running sh' = running sh"
  using ext.run_lines_ok [of sh sh K is_tty input "replicate 43 NULL"] assms
  by (simp add: run_test_def extends_def)

theorem run_test_extends_witness: "prefix (fout ex_shell) (fout (fputs (''ACPI usage: 7'' @ nl) ex_shell))"
  using run_test_extends [OF ex_run] by blast






text \<open>
  (C26) A line of nothing but white space that is not empty crashes the shell: the null first word
  is compared with the names of the table.
\<close>

theorem run_test_blank_line_crashes:
  assumes "\<forall>c\<in>set line. c = CHR '' '' \<or> c = CHR 0x09" "line \<noteq> []"
  shows "run_test K True (Some line # input) sh = Inl Null_deref"
proof -
  have "\<forall>c\<in>set line. is_delim c" using assms(1) by (auto simp: is_delim_def)
  then have t: "tokens is_delim line = []"
    using tokens_skip [of line is_delim "[]"] by (simp add: tokens.simps [of is_delim "[]"])
  obtain c cs where "line = c # cs" using assms(2) by (cases line) auto
  then show ?thesis
    using assms(1) t
    by (auto simp: run_test_def echo_def skips_def run_line_def split_args_def deref_def load_def)
qed

theorem run_test_blank_line_crashes_witness:
  "run_test ex_kernel True [Some ''  '', Some ''q''] ex_shell = Inl Null_deref"
  by (rule run_test_blank_line_crashes) simp_all

text \<open>
  (C27) Naming a value: after a command has produced a value, \<^verbatim>\<open>var $x\<close> binds it, \<^verbatim>\<open>$x\<close> then stands for
  that value as an argument, and every other variable stands for what it stood for before the
  value was produced.
\<close>

theorem var_roundtrip:
  assumes "shell_var_add ty v sh = Inr sh1" "take 1 nm = ''$''" "length nm < SHELL_VAR_NAME_LEN"
  shows "\<exists>sh2. cmd_var K 2 (mk_argv [''var'', nm]) sh1 = Inr sh2 \<and> shell_parse_uint sh2 nm = Some v
    \<and> shell_parse_sint sh2 nm = Some v \<and> shell_parse_ptr sh2 nm = Some v
    \<and> (\<forall>nm'. nm' \<noteq> nm \<longrightarrow> shell_parse_uint sh2 nm' = shell_parse_uint sh nm')"
proof -
  obtain vs where vs: "var sh1 = \<lparr>var_type = ty, var_name = [], var_value = v\<rparr> # vs"
    using var_add_fields(3) [OF assms(1)] ..
  have n: "named_vars (var sh) = vs" using var_add_fields(2) [OF assms(1)] vs by simp
  have g: "shell_var_get vs nm' = shell_var_get (var sh) nm'" if "nm' \<noteq> []" for nm'
    using that by (cases "var sh") (simp_all flip: n)
  have ne: "nm' \<noteq> []" if "take 1 nm' = ''$''" for nm' using that by auto
  show ?thesis
    using assms(2,3) vs g ne
    by (auto simp: cmd_var_def mk_argv_def deref_def load_def shell_var_name_def shell_parse_uint_def
        shell_parse_sint_def shell_parse_ptr_def shell_parse_with_def)
qed

theorem var_roundtrip_witness:
  "\<exists>sh1 sh2. shell_var_add SHELL_VAR_UINT 42 ex_shell = Inr sh1
     \<and> cmd_var ex_kernel 2 (mk_argv [''var'', ''$x'']) sh1 = Inr sh2 \<and> shell_parse_uint sh2 ''$x'' = Some 42"
proof -
  obtain sh1 where 1: "shell_var_add SHELL_VAR_UINT 42 ex_shell = Inr sh1"
    using var_add_total [of ex_shell SHELL_VAR_UINT 42] by (auto simp: total_def ex_shell_env)
  show ?thesis using 1 var_roundtrip [OF 1, of "''$x''" ex_kernel] by auto
qed



end
