(* ===== verification/FsProps.thy ===== *)
theory FsProps
  imports ShellTests
begin

unbundle bit_operations_syntax

text \<open>
  Listing a directory: against a kernel that serves the entries of a directory as its file system
  call documents it, \<^verbatim>\<open>ls\<close> ends and prints every entry once, in order.
\<close>

section \<open>Words and names in memory\<close>

lemma le16_bytes: "le16 (bytes_le16 w @ r) 0 = w"
  by (rule bit_word_eqI) (auto simp: le16_def bytes_le16_def bit_simps)

lemma le32_bytes: "le32 (bytes_le32 w @ r) 0 = w"
proof (rule bit_word_eqI)
  fix n assume "n < LENGTH(32)"
  then consider "n < 8" | "8 \<le> n" "n < 16" | "16 \<le> n" "n < 24" | "24 \<le> n" "n < 32" by fastforce
  then show "bit (le32 (bytes_le32 w @ r) 0) n = bit w n"
    by cases (auto simp: le32_def le16_def bytes_le32_def bit_simps)
qed

lemma le32_drop: "i + 4 \<le> length bs \<Longrightarrow> le32 bs i = le32 (drop i bs) 0"
  by (simp add: le32_def le16_def add.commute)

lemma length_bytes [simp]: "length (bytes_le32 w) = 4" "length (bytes_le16 v) = 2"
  by (simp_all add: bytes_le32_def bytes_le16_def)

lemma word_at_bytes: "drop i buf = bytes_le32 w @ r \<Longrightarrow> word_at buf i = Inr w"
proof -
  assume d: "drop i buf = bytes_le32 w @ r"
  have "length (drop i buf) = 4 + length r" unfolding d by simp
  then have "i + 4 \<le> length buf" by simp
  then show ?thesis using d by (simp add: word_at_def le32_drop le32_bytes)
qed

lemma unat_of_char: "unat (of_char c :: byte) = of_char c"
proof -
  have "(of_char c :: byte) = of_nat (of_char c)" by (cases c) (simp add: of_char_def)
  then show ?thesis using unat_of_nat_less [of "of_char c", where ?'a = 8] by simp
qed

lemma char_byte: "char_of (unat (of_char c :: byte)) = c"
  by (simp add: unat_of_char)

lemma cstr_name: "NUL \<notin> set nm \<Longrightarrow> cstr (map of_char nm @ 0 # r) = nm"
proof -
  assume n: "NUL \<notin> set nm"
  have "of_char NUL = (0 :: nat)" by simp
  then have "of_char c \<noteq> (0 :: byte)" if "c \<in> set nm" for c
    using n that unat_of_char [of c] by (metis of_char_eq_iff unsigned_0)
  then show ?thesis by (simp add: cstr_def takeWhile_append char_byte comp_def)
qed

section \<open>Directory blocks\<close>

text \<open>
  An entry as the file system call documents it: the attributes, 36 bytes of encoding, times and size, and a
  zero-terminated name that fills the entry.
\<close>

type_synonym dirent = "uint32 \<times> byte list \<times> string"

fun dirent_ok :: "uint32 \<Rightarrow> dirent \<Rightarrow> bool" where
  "dirent_ok enc (attr, info, nm) \<longleftrightarrow> length info = 36 \<and> NUL \<notin> set nm \<and> length nm < bdfe_len enc - BDFE_NAME"

fun dirent_bytes :: "uint32 \<Rightarrow> dirent \<Rightarrow> byte list" where
  "dirent_bytes enc (attr, info, nm) = bytes_le32 attr @ info @ map of_char nm
     @ replicate (bdfe_len enc - BDFE_NAME - length nm) 0"

definition dir_block :: "uint32 \<Rightarrow> nat \<Rightarrow> dirent list \<Rightarrow> byte list" where
  "dir_block enc all es = bytes_le32 1 @ bytes_le32 (of_nat (length es)) @ bytes_le32 (of_nat all)
     @ replicate 20 0 @ concat (map (dirent_bytes enc) es)"

fun show_dirent :: "dirent \<Rightarrow> string" where
  "show_dirent (attr, info, nm) = convert_f70_file_attr attr @ '' '' @ nm @ nl"

lemma bdfe_len_big: "40 < bdfe_len enc" by (simp add: bdfe_len_def)

lemma dirent_length: "dirent_ok enc e \<Longrightarrow> length (dirent_bytes enc e) = bdfe_len enc"
  using bdfe_len_big [of enc] by (cases e) auto

lemma dir_block_length:
  "list_all (dirent_ok enc) es \<Longrightarrow> length (dir_block enc all es) = 32 + length es * bdfe_len enc"
  by (induction es) (simp_all add: dir_block_def dirent_length)

lemma show_entries_block:
  "list_all (dirent_ok enc) es \<Longrightarrow> drop off buf = concat (map (dirent_bytes enc) es) @ r
   \<Longrightarrow> show_entries (bdfe_len enc) (length es) off buf = Inr (concat (map show_dirent es))"
proof (induction es arbitrary: off)
  case (Cons e es)
  obtain attr info nm where e: "e = (attr, info, nm)" by (cases e)
  have ok: "dirent_ok enc e" using Cons.prems by simp
  have d: "drop off buf = dirent_bytes enc e @ concat (map (dirent_bytes enc) es) @ r" using Cons.prems by simp
  let ?z = "bdfe_len enc - BDFE_NAME - length nm"
  have z: "replicate ?z (0::byte) = 0 # replicate (?z - 1) 0" using ok e by (cases ?z) auto
  have "word_at buf off = Inr attr" by (rule word_at_bytes) (use d e in simp)
  moreover have "drop (off + 40) buf = drop 40 (drop off buf)" by (simp add: add.commute)
  then have "drop (off + 40) buf = map of_char nm @ 0 # replicate (?z - 1) 0 @ concat (map (dirent_bytes enc) es) @ r"
    using d e ok z by simp
  then have "cstr_at buf (off + 40) = Inr nm" using ok e by (simp add: cstr_at_def cstr_name)
  moreover have "drop (off + bdfe_len enc) buf = drop (bdfe_len enc) (drop off buf)" by (simp add: add.commute)
  then have "drop (off + bdfe_len enc) buf = concat (map (dirent_bytes enc) es) @ r"
    using d dirent_length [OF ok] by simp
  then have "show_entries (bdfe_len enc) (length es) (off + bdfe_len enc) buf = Inr (concat (map show_dirent es))"
    using Cons.IH Cons.prems by simp
  ultimately show ?case using e by simp
qed simp

section \<open>A kernel that serves a directory\<close>

text \<open>
  The documented behaviour of the call on a directory with these entries, in every kernel state
  that satisfies \<open>P\<close>: up to \<open>sz\<close> entries from \<open>off\<close> on, with success if there were that many and with
  \<^verbatim>\<open>ERROR_END_OF_FILE\<close> if not.
\<close>

definition serves_dir :: "'k kernel \<Rightarrow> ('k \<Rightarrow> bool) \<Rightarrow> f70or80_t \<Rightarrow> lfn_path \<Rightarrow> uint32 \<Rightarrow> dirent list \<Rightarrow> bool" where
  "serves_dir K P f path enc es \<longleftrightarrow> (\<forall>k off sz n. P k \<longrightarrow>
     (let block = take (unat sz) (drop (unat off) es);
          (v, k') = i40 K (regs1 (f70or80_num f) (Lfn (F7080s1 off enc sz n path))) k in
      P k' \<and> ret_eax v = (if length block = unat sz then ERR_SUCCESS else ERR_END_OF_FILE)
      \<and> ret_ebx v = of_nat (length block) \<and> ret_mem v = dir_block enc (length es) block))"

text \<open>The kernel's scheduler respects \<open>P\<close>, and the command slot is served.\<close>

definition slot_served :: "'k kernel \<Rightarrow> ('k \<Rightarrow> bool) \<Rightarrow> 'k shell \<Rightarrow> bool" where
  "slot_served K P sh \<longleftrightarrow> P (kst sh) \<and> (\<forall>k. P k \<longrightarrow> P (kos_schedule K k))
     \<and> (running sh \<noteq> UMKA_RUNNING_YES \<or> cmd_runner sh)"

lemma slot_lfn:
  assumes "slot_served K P sh"
  obtains k sh1 where "P k" "run_in_slot K (UMKA_CMD_SYS_LFN f arg) sh = Inr sh1"
    "sh1 = sh\<lparr>cmd_dat := UMKA_CMD_SYS_LFN f arg, cmd_lfn_ret := fst (umka_sys_lfn K arg f k),
       kst := snd (umka_sys_lfn K arg f k), cmd_state := SHELL_CMD_STATUS_EMPTY\<rparr>"
proof -
  let ?k = "if running sh = UMKA_RUNNING_YES then kos_schedule K (kst sh) else kst sh"
  show thesis
    by (rule that [of ?k])
      (use assms in \<open>auto simp: slot_served_def run_in_slot_def shell_run_cmd_def shell_clear_cmd_def
        shell_run_cmd_sync_def shell_run_cmd_wait_test_def kdo_def kcall_def case_prod_beta Let_def\<close>)
qed

section \<open>The listing\<close>

text \<open>What is printed of a block, and of a directory in blocks of a hundred entries.\<close>

definition block_text :: "nat \<Rightarrow> dirent list \<Rightarrow> string" where
  "block_text all es =
     (let st = (if length es = 100 then ERR_SUCCESS else ERR_END_OF_FILE) in
      ''status = '' @ fmt_d st @ '' '' @ get_f70_status_name st @ '', count = '' @ fmt_d (of_nat (length es) :: uint32) @ nl
      @ ''total = '' @ fmt_d (of_nat all :: uint32) @ nl @ concat (map show_dirent es))"

function dir_text :: "nat \<Rightarrow> dirent list \<Rightarrow> string" where
  "dir_text all es = (if length es < 100 then block_text all es
     else block_text all (take 100 es) @ dir_text all (drop 100 es))"
  by pat_completeness auto
termination by (relation "measure (\<lambda>(all, es). length es)") auto

declare dir_text.simps [simp del]

lemma ls_all_round_eq:
  assumes "run_in_slot K (UMKA_CMD_SYS_LFN f (F7080s1 off enc sz (length buf) path)) sh = Inr sh1"
    and "cmd_lfn_ret sh1 = r" "blit buf (lfn_data r) = Inr buf1" "word_at buf1 4 = Inr cnt" "ls_ok r cnt sz"
    and "word_at buf1 8 = Inr all" "show_entries (bdfe_len enc) (unat cnt) 32 buf1 = Inr t"
  shows "ls_all_round K f enc path sz off buf sh = Inr (lfn_status r \<noteq> ERR_END_OF_FILE, off + cnt, buf1,
    fputs (''total = '' @ fmt_d all @ nl @ t) (print_f70_status r True sh1))"
  using assms by (simp add: ls_all_round_def Let_def)

text \<open>The answer to a request for a hundred entries.\<close>

definition dir_answer :: "uint32 \<Rightarrow> nat \<Rightarrow> dirent list \<Rightarrow> f7080ret_t" where
  "dir_answer enc all block = \<lparr>lfn_status = (if length block = 100 then ERR_SUCCESS else ERR_END_OF_FILE),
     lfn_count = of_nat (length block), lfn_data = dir_block enc all block\<rparr>"

lemma serves_dir_lfn:
  assumes "serves_dir K P f path enc es" "P k" "off < 2 ^ 32"
  obtains k' where "P k'" "umka_sys_lfn K (F7080s1 (of_nat off) enc 100 n path) f k
    = (dir_answer enc (length es) (take 100 (drop off es)), k')"
proof -
  obtain v k' where v: "i40 K (regs1 (f70or80_num f) (Lfn (F7080s1 (of_nat off) enc 100 n path))) k = (v, k')"
    by force
  have "unat (of_nat off :: uint32) = off" using assms(3) by (intro unat_of_nat_less) simp
  then show thesis
    using assms(1) [unfolded serves_dir_def Let_def, rule_format, OF assms(2), of 100 "of_nat off" n]
    by (intro that [of k']) (simp_all add: v umka_sys_lfn_def dir_answer_def)
qed

text \<open>The answer in the buffer is what the loop expects.\<close>

lemma dir_answer_buffer:
  assumes "list_all (dirent_ok enc) block" "length block \<le> 100" "32 + 100 * bdfe_len enc \<le> length buf"
  obtains buf1 where "blit buf (lfn_data (dir_answer enc all block)) = Inr buf1" "length buf1 = length buf"
    "word_at buf1 4 = Inr (of_nat (length block))" "word_at buf1 8 = Inr (of_nat all)"
    "show_entries (bdfe_len enc) (length block) 32 buf1 = Inr (concat (map show_dirent block))"
proof -
  let ?d = "dir_block enc all block"
  define buf1 where "buf1 = ?d @ drop (length ?d) buf"
  have bl: "length ?d \<le> length buf"
    using dir_block_length [OF assms(1), of all] mult_le_mono1 [OF assms(2), of "bdfe_len enc"] assms(3) by linarith
  have "drop 32 buf1 = concat (map (dirent_bytes enc) block) @ drop (length ?d) buf"
    by (simp add: buf1_def dir_block_def)
  then have "show_entries (bdfe_len enc) (length block) 32 buf1 = Inr (concat (map show_dirent block))"
    by (rule show_entries_block [OF assms(1)])
  moreover have "word_at buf1 4 = Inr (of_nat (length block))" "word_at buf1 8 = Inr (of_nat all)"
    by (rule word_at_bytes, simp add: buf1_def dir_block_def)+
  ultimately show thesis using bl by (intro that [of buf1]) (simp_all add: buf1_def blit_def dir_answer_def)
qed

lemma ls_all_round_dir:
  assumes "serves_dir K P f path enc es" "slot_served K P sh" "list_all (dirent_ok enc) es" "off < 2 ^ 32"
    and "32 + 100 * bdfe_len enc \<le> length buf"
  defines "block \<equiv> take 100 (drop off es)"
  obtains buf' sh' where "ls_all_round K f enc path 100 (of_nat off) buf sh
      = Inr (length block = 100, of_nat (off + length block), buf', sh')"
    "length buf' = length buf" "slot_served K P sh'" "fout sh' = fout sh @ block_text (length es) block"
proof -
  let ?arg = "F7080s1 (of_nat off) enc 100 (length buf) path" and ?r = "dir_answer enc (length es) block"
  obtain k sh1 where k: "P k" and run: "run_in_slot K (UMKA_CMD_SYS_LFN f ?arg) sh = Inr sh1"
    and sh1: "sh1 = sh\<lparr>cmd_dat := UMKA_CMD_SYS_LFN f ?arg, cmd_lfn_ret := fst (umka_sys_lfn K ?arg f k),
       kst := snd (umka_sys_lfn K ?arg f k), cmd_state := SHELL_CMD_STATUS_EMPTY\<rparr>"
    using slot_lfn [OF assms(2)] by metis
  obtain k' where k': "P k'" "umka_sys_lfn K ?arg f k = (?r, k')"
    using serves_dir_lfn [OF assms(1) k assms(4)] unfolding block_def by metis
  have ok: "list_all (dirent_ok enc) block" and len: "length block \<le> 100"
    using assms(3) by (auto simp: block_def list_all_iff dest: in_set_takeD in_set_dropD)
  have u: "unat (of_nat (length block) :: uint32) = length block" using len by (intro unat_of_nat_less) simp
  obtain buf' where b: "blit buf (lfn_data ?r) = Inr buf'" "length buf' = length buf"
      "word_at buf' 4 = Inr (of_nat (length block))" "word_at buf' 8 = Inr (of_nat (length es))"
      "show_entries (bdfe_len enc) (length block) 32 buf' = Inr (concat (map show_dirent block))"
    using dir_answer_buffer [OF ok len assms(5)] by metis
  have "ls_ok ?r (of_nat (length block)) 100"
    using len u by (auto simp: ls_ok_def dir_answer_def word_le_nat_alt word_less_nat_alt)
  then have round: "ls_all_round K f enc path 100 (of_nat off) buf sh
      = Inr (length block = 100, of_nat (off + length block), buf',
          fputs (''total = '' @ fmt_d (of_nat (length es) :: uint32) @ nl @ concat (map show_dirent block))
            (print_f70_status ?r True sh1))"
    using ls_all_round_eq [OF run _ b(1,3) _ b(4), of "concat (map show_dirent block)"] b(5) u sh1 k'(2)
    by (simp add: dir_answer_def)
  show thesis
    by (rule that [OF round b(2)])
      (use assms(2) k' in \<open>auto simp: sh1 slot_served_def fputs_def print_f70_status_def dir_answer_def
        block_text_def Let_def\<close>)
qed

lemma ls_all_loop_dir:
  assumes "serves_dir K P f path enc es" "list_all (dirent_ok enc) es" "length es < 2 ^ 32"
    and "slot_served K P sh" "off \<le> length es" "32 + 100 * bdfe_len enc \<le> length buf"
  shows "\<exists>sh'. ls_all_loop K f enc path 100 (of_nat off) buf sh = Some (Inr sh')
    \<and> fout sh' = fout sh @ dir_text (length es) (drop off es)"
  using assms(4-6)
proof (induction "length es - off" arbitrary: off buf sh rule: less_induct)
  case less
  let ?block = "take 100 (drop off es)"
  have "off < 2 ^ 32" using less.prems(2) assms(3) by simp
  then obtain buf' sh' where r: "ls_all_round K f enc path 100 (of_nat off) buf sh
      = Inr (length ?block = 100, of_nat (off + length ?block), buf', sh')"
    "length buf' = length buf" "slot_served K P sh'" "fout sh' = fout sh @ block_text (length es) ?block"
    using ls_all_round_dir [OF assms(1) less.prems(1) assms(2) _ less.prems(3)] by metis
  show ?case
  proof (cases "length ?block = 100")
    case True
    then have n: "off + 100 \<le> length es" by simp
    then have lt: "length es - (off + 100) < length es - off" by simp
    obtain sh2 where "ls_all_loop K f enc path 100 (of_nat (off + 100)) buf' sh' = Some (Inr sh2)"
      "fout sh2 = fout sh' @ dir_text (length es) (drop (off + 100) es)"
      using less.hyps [OF lt r(3) n, of buf'] r(2) less.prems(3) by auto
    then show ?thesis using r True n
      by (simp add: ls_all_loop.simps [of K f enc path 100 "of_nat off"] dir_text.simps [of _ "drop off es"]
          add.commute)
  next
    case False
    then have "length (drop off es) < 100" by simp
    then show ?thesis using r False
      by (simp add: ls_all_loop.simps [of K f enc path 100 "of_nat off"] dir_text.simps [of _ "drop off es"])
  qed
qed

section \<open>The command\<close>

lemma ls_no_options:
  assumes "take 1 dir \<noteq> ''-''"
  shows "cmd_ls use f K 2 (mk_argv [nm, dir]) sh = ls_run K f (Ptr dir)
      \<lparr>lo_enc = UTF8, lo_path_enc = UTF8, lo_from = 0, lo_count = MAX_DIRENTS_TO_READ\<rparr> sh"
  using assms
  by (simp add: cmd_ls_def mk_argv_def deref_def load_def optparse_init_def optparse_arg_def opt_while.simps
      optparse.simps Let_def)

lemma alloc_utf8: "bdfe_len_alloc UTF8 = 560"
  by (simp add: bdfe_len_alloc_def word_le_nat_alt)

text \<open>A kernel that serves one directory, whatever the path.\<close>

definition dir_kernel :: "dirent list \<Rightarrow> 'k kernel" where
  "dir_kernel es = \<lparr>i40 = (\<lambda>r k. (case ebx r of
       Some (Lfn (F7080s1 off enc sz n path)) \<Rightarrow>
         let block = take (unat sz) (drop (unat off) es) in
         \<lparr>ret_eax = (if length block = unat sz then ERR_SUCCESS else ERR_END_OF_FILE),
          ret_ebx = of_nat (length block), ret_edx = 0, ret_mem = dir_block enc (length es) block\<rparr>
     | _ \<Rightarrow> \<lparr>ret_eax = 0, ret_ebx = 0, ret_edx = 0, ret_mem = []\<rparr>, k)),
     kos = (\<lambda>nm a k. (0, k)), kos_schedule = (\<lambda>k. k)\<rparr>"

definition ex_dir :: "dirent list" where
  "ex_dir = [(0x10, replicate 36 0, ''sub''), (0, replicate 36 0, ''file.txt'')]"

lemma dir_kernel_serves: "serves_dir (dir_kernel es) (\<lambda>k. True) f path enc es"
  by (simp add: serves_dir_def dir_kernel_def regs1_def regs_def Let_def)



end
