(* ===== verification/SysProps.thy ===== *)
theory SysProps
  imports ShellTests
begin

unbundle bit_operations_syntax

text \<open>
  The register encodings of the system call wrappers in \<^verbatim>\<open>umka.h\<close>: what the kernel decodes from the
  registers is what the caller passed, within the range of each field, and values the kernel hands
  back unchanged are returned unchanged.
\<close>

section \<open>Fields of a word\<close>

lemma take_bit_small: "unat (v :: 'a::len word) < 2 ^ n \<Longrightarrow> take_bit n v = v"
  by (simp add: word_unat_eq_iff unsigned_take_bit_eq take_bit_nat_eq_self)

lemma bit_small: "unat (v :: 'a::len word) < 2 ^ n \<Longrightarrow> bit v m \<Longrightarrow> m < n"
  using take_bit_small [of v n] by (metis bit_take_bit_iff)

text \<open>A field of \<open>n\<close> bits at position \<open>p\<close>.\<close>

definition field :: "nat \<Rightarrow> nat \<Rightarrow> uint32 \<Rightarrow> uint32" where
  "field p n w = take_bit n (shr w p)"

text \<open>
  A word composed by adding shifted values, highest first, as the wrappers do it: position, width
  and value of each field. The fields do not overlap and the values fit.
\<close>

fun packed :: "(nat \<times> nat \<times> uint32) list \<Rightarrow> uint32" where
  "packed [] = 0"
| "packed ((p, n, v) # fs) = shl v p + packed fs"

fun fields_ok :: "nat \<Rightarrow> (nat \<times> nat \<times> uint32) list \<Rightarrow> bool" where
  "fields_ok hi [] \<longleftrightarrow> True"
| "fields_ok hi ((p, n, v) # fs) \<longleftrightarrow> p + n \<le> hi \<and> unat v < 2 ^ n \<and> fields_ok p fs"

lemma packed_bits:
  "fields_ok hi fs \<Longrightarrow> (\<forall>m. bit (packed fs) m \<longleftrightarrow> m < 32 \<and> (\<exists>(p, n, v)\<in>set fs. p \<le> m \<and> bit v (m - p)))
    \<and> (\<forall>m. bit (packed fs) m \<longrightarrow> m < hi)"
proof (induction fs arbitrary: hi)
  case (Cons f fs)
  obtain p n v where f: "f = (p, n, v)" by (cases f)
  have ok: "p + n \<le> hi" "unat v < 2 ^ n" "fields_ok p fs" using Cons.prems f by simp_all
  have below: "m < p" if "bit (packed fs) m" for m using Cons.IH [OF ok(3)] that by blast
  have "shl v p AND packed fs = 0"
    by (rule bit_eqI) (auto simp: bit_simps dest: below)
  then have "packed (f # fs) = shl v p OR packed fs" using f by (simp add: disjunctive_add_eq_or)
  then have b: "bit (packed (f # fs)) m \<longleftrightarrow> m < 32 \<and> p \<le> m \<and> bit v (m - p) \<or> bit (packed fs) m" for m
    by (auto simp: bit_simps)
  have "bit (packed (f # fs)) m \<longleftrightarrow> m < 32 \<and> (\<exists>(p, n, v)\<in>set (f # fs). p \<le> m \<and> bit v (m - p))" for m
    unfolding b unfolding f using Cons.IH [OF ok(3)] by auto
  moreover have "m < hi" if "bit (packed (f # fs)) m" for m
    using that below [of m] bit_small [OF ok(2), of "m - p"] ok(1) unfolding b by auto
  ultimately show ?case by blast
qed simp

lemmas packed_bit = packed_bits [THEN conjunct1, rule_format] packed_bits [THEN conjunct2, rule_format]

text \<open>Fields below a given one do not reach it, and those above start after it.\<close>

lemma packed_field:
  assumes "fields_ok hi (fs @ (p, n, v) # gs)" "hi \<le> 32"
  shows "field p n (packed (fs @ (p, n, v) # gs)) = v"
  using assms
proof (induction fs arbitrary: hi)
  case Nil
  have g: "\<not> bit (packed gs) (p + m)" for m using packed_bit(2) [of p gs "p + m"] Nil by auto
  have "bit (packed ((p, n, v) # gs)) (p + m) \<longleftrightarrow> bit v m" if "m < n" for m
    using that packed_bit(1) [of hi "(p, n, v) # gs" "p + m"] packed_bit(1) [of p gs "p + m"] g Nil
    by auto
  then show ?case using Nil bit_small [of v n]
    by (intro bit_word_eqI) (auto simp: field_def bit_simps)
next
  case (Cons f fs)
  obtain q k w where f: "f = (q, k, w)" by (cases f)
  have ok: "fields_ok q (fs @ (p, n, v) # gs)" "q + k \<le> hi" using Cons.prems f by simp_all
  have pq: "p + n \<le> q" using ok(1) by (induction fs arbitrary: q) fastforce+
  have "bit (packed (f # fs @ (p, n, v) # gs)) (p + m) \<longleftrightarrow> bit (packed (fs @ (p, n, v) # gs)) (p + m)" if "m < n" for m
    using that pq f packed_bit(1) [of hi "f # fs @ (p, n, v) # gs" "p + m"]
      packed_bit(1) [OF ok(1), of "p + m"] Cons.prems
    by auto
  then have "field p n (packed ((f # fs) @ (p, n, v) # gs)) = field p n (packed (fs @ (p, n, v) # gs))"
    by (intro bit_word_eqI) (auto simp: field_def bit_simps)
  then show ?case using Cons.IH [OF ok(1)] ok(2) Cons.prems(2) by simp
qed

lemma packed_fields: "fields_ok 32 fs \<Longrightarrow> (p, n, v) \<in> set fs \<Longrightarrow> field p n (packed fs) = v"
  using packed_field [of 32] by (metis order_refl split_list)

lemma packed2: "shl x 16 + y = packed [(16, 16, x), (0, 16, y)]"
  by simp

lemma halves:
  "unat x < 2 ^ 16 \<Longrightarrow> unat y < 2 ^ 16 \<Longrightarrow> field 16 16 (shl x 16 + y) = x"
  "unat x < 2 ^ 16 \<Longrightarrow> unat y < 2 ^ 16 \<Longrightarrow> field 0 16 (shl x 16 + y) = y"
  unfolding packed2 by (rule packed_fields; simp)+

lemma field_half: "field 0 16 w = w AND 0xffff" "field 16 16 w = shr w 16"
proof -
  show "field 0 16 w = w AND 0xffff" using take_bit_eq_mask [of 16 w] by (simp add: field_def mask_eq_exp_minus_1)
  show "field 16 16 w = shr w 16"
    by (rule bit_word_eqI) (auto simp: field_def bit_simps dest: bit_imp_le_length)
qed

lemma c_not_small: "unat (c_not b) < 2"
  by (simp add: c_not_def)

section \<open>Signed halves\<close>

text \<open>
  The kernel keeps a point as \<open>x * 2\<^sup>16 + y\<close> with signed halves, so a negative \<open>y\<close> borrows from the
  upper half.
\<close>

lemma ucast_of_int: "(ucast (word_of_int v :: uint32) :: uint16) = word_of_int v"
  by (rule bit_word_eqI) (simp add: bit_ucast_iff bit_word_of_int_iff)

lemma ucast_shr_of_int: "(ucast (shr (word_of_int v :: uint32) 16) :: uint16) = word_of_int (v div 2 ^ 16)"
  unfolding drop_bit_eq_div [symmetric]
  by (rule bit_word_eqI) (simp add: bit_ucast_iff bit_drop_bit_eq bit_word_of_int_iff add.commute)

lemma borrow: "- (2 ^ 15) \<le> y \<Longrightarrow> y < 2 ^ 15 \<Longrightarrow> (x * 2 ^ 16 + y) div 2 ^ 16 = (if y < 0 then x - 1 else x)" for x y :: int
  by auto

lemma lower_half: "(word_of_int (x * 2 ^ 16 + y) :: uint16) = word_of_int y"
proof -
  have "(x * 2 ^ 16 + y) mod 2 ^ 16 = y mod 2 ^ 16" by simp
  then show ?thesis by (simp only: word_of_int_eq_iff take_bit_eq_mod) simp
qed

lemma sint_half: "- (2 ^ 15) \<le> y \<Longrightarrow> y < 2 ^ 15 \<Longrightarrow> sint (word_of_int y :: uint16) = y"
  by (simp add: sint_sbintrunc' signed_take_bit_int_eq_self)

lemma rect_unpack:
  assumes "unat (r_left r) < 2 ^ 16" "unat (r_top r) < 2 ^ 16" "unat (r_right r) < 2 ^ 16" "unat (r_bottom r) < 2 ^ 16"
  shows "unpack_rect (shl (r_left r) 16 + r_right r, shl (r_top r) 16 + r_bottom r) = (r :: rect_t)"
  using halves [of "r_left r" "r_right r"] halves [of "r_top r" "r_bottom r"] assms
  unfolding field_half by (simp add: unpack_rect_def)

section \<open>Arguments\<close>

lemma deref_all_map: "\<forall>i\<in>set is. deref argv i = Inr (f i) \<Longrightarrow> deref_all argv is = Inr (map f is)"
  by (induction "is") auto

lemma args_mk_argv: "length ts = n \<Longrightarrow> args (mk_argv (nm # ts)) n = Inr ([] # ts)"
proof -
  assume n: "length ts = n"
  have "deref_all (mk_argv (nm # ts)) [1..<n + 1] = Inr (map ((!) (nm # ts)) [1..<n + 1])"
    using n by (intro deref_all_map) (auto simp: deref_def load_def mk_argv_def nth_append nth_Cons' map_nth)
  moreover have "map ((!) (nm # ts)) [1..<n + 1] = ts"
    using n by (intro nth_equalityI) (simp_all del: upt_Suc)
  ultimately show ?thesis by (simp add: args_def)
qed

section \<open>Properties\<close>

text \<open>
  (C29) Drawing a window passes every parameter to the kernel: the coordinates and sizes in the two
  halves of a register, the colour in the low 24 bits of \<^verbatim>\<open>edx\<close>, the style in the four bits above it,
  and the flags in one bit each, two of them inverted. No field disturbs another.
\<close>

theorem draw_window_registers:
  assumes "unat x < 2 ^ 16" "unat xsize < 2 ^ 16" "unat y < 2 ^ 16" "unat ysize < 2 ^ 16"
    and "unat color < 2 ^ 24" "unat style < 2 ^ 4" "unat has_caption < 2" "unat client_relative < 2"
    and "unat gradient_fill < 2"
  shows "\<exists>b c d s. umka_sys_draw_window K x xsize y ysize color has_caption client_relative fill_workarea
        gradient_fill movable style cap k
      = snd (i40 K (regs5 0 (Num b) (Num c) (Num d) (Num s) (Str cap)) k)
    \<and> field 16 16 b = x \<and> field 0 16 b = xsize \<and> field 16 16 c = y \<and> field 0 16 c = ysize
    \<and> field 31 1 d = gradient_fill \<and> field 30 1 d = c_not fill_workarea \<and> field 29 1 d = client_relative
    \<and> field 28 1 d = has_caption \<and> field 24 4 d = style \<and> field 0 24 d = color \<and> field 24 1 s = c_not movable"
proof -
  let ?fs = "[(31, 1, gradient_fill), (30, 1, c_not fill_workarea), (29, 1, client_relative), (28, 1, has_caption),
    (24, 4, style), (0, 24, color)]"
  have ok: "fields_ok 32 ?fs" using assms c_not_small [of fill_workarea] by simp
  have d: "shl gradient_fill 31 + shl (c_not fill_workarea) 30 + shl client_relative 29 + shl has_caption 28
      + shl style 24 + color = packed ?fs"
    by (simp add: add.assoc)
  have s: "field 24 1 (shl (c_not movable) 24) = c_not movable"
    using packed_fields [of "[(24, 1, c_not movable)]" 24 1 "c_not movable"] c_not_small [of movable] by simp
  show ?thesis
    unfolding umka_sys_draw_window_def call_void_def d
    by (intro exI conjI, rule refl) (use assms s packed_fields [OF ok] in \<open>simp_all add: halves del: packed.simps\<close>)
qed

theorem draw_window_registers_witness:
  "\<exists>b c d s. umka_sys_draw_window ex_kernel 10 300 20 200 0xffffff 1 1 1 0 1 4 ''w'' ex_kst
      = snd (i40 ex_kernel (regs5 0 (Num b) (Num c) (Num d) (Num s) (Str ''w'')) ex_kst)
    \<and> field 24 4 d = 4 \<and> field 0 24 d = 0xffffff"
  using draw_window_registers [of 10 300 20 200 "0xffffff" 4 1 1 0 ex_kernel 1 1 "''w''" ex_kst] by auto

text \<open>
  (C30) A screen area set with \<^verbatim>\<open>set_screen_area\<close> is what \<^verbatim>\<open>get_screen_area\<close> prints, edge by edge, provided
  the kernel keeps the two registers it was given and the edges fit their halves.
\<close>

theorem screen_area_roundtrip:
  assumes "unat l < 2 ^ 16" "unat t < 2 ^ 16" "unat r < 2 ^ 16" "unat b < 2 ^ 16"
    and "\<And>k. fst (call_eax_ebx K (regs1 48 (Num 5)) (call_void K (regs3 48 (Num 6) (Num (shl l 16 + r)) (Num (shl t 16 + b))) k))
        = (shl l 16 + r, shl t 16 + b)"
  shows "\<exists>sh'. rbind (cmd_set_screen_area K 5 (mk_argv [nm, fmt_u l, fmt_u t, fmt_u r, fmt_u b]) sh)
        (cmd_get_screen_area K 1 (mk_argv [nm'])) = Inr sh'
    \<and> fout sh' = fout sh @ fmt_u l @ '' left'' @ nl @ fmt_u t @ '' top'' @ nl @ fmt_u r @ '' right'' @ nl @ fmt_u b @ '' bottom'' @ nl"
proof -
  let ?wa = "\<lparr>r_left = l, r_top = t, r_right = r, r_bottom = b\<rparr> :: rect_t"
  let ?k = "umka_sys_set_screen_area K ?wa (kst sh)"
  have set: "cmd_set_screen_area K 5 (mk_argv [nm, fmt_u l, fmt_u t, fmt_u r, fmt_u b]) sh = Inr (sh\<lparr>kst := ?k\<rparr>)"
    by (simp add: cmd_set_screen_area_def args_mk_argv num_def kdo_def)
  have "fst (umka_sys_get_screen_area K ?k) = ?wa"
    using assms(5) [of "kst sh"] rect_unpack [of ?wa] assms(1-4)
    by (simp add: umka_sys_get_screen_area_def umka_sys_set_screen_area_def split_beta)
  then obtain k' where get: "umka_sys_get_screen_area K ?k = (?wa, k')" by (metis prod.collapse)
  show ?thesis
    unfolding set by (simp add: cmd_get_screen_area_def kcall_def get fputs_def show_rect_def)
qed

definition area_kernel :: "(uint32 \<times> uint32) kernel" where
  "area_kernel = \<lparr>i40 = (\<lambda>r k. case (ebx r, ecx r, edx r) of
       (Some (Num n), Some (Num c), Some (Num d)) \<Rightarrow> (\<lparr>ret_eax = 0, ret_ebx = 0, ret_edx = 0, ret_mem = []\<rparr>, (c, d))
     | _ \<Rightarrow> (\<lparr>ret_eax = fst k, ret_ebx = snd k, ret_edx = 0, ret_mem = []\<rparr>, k)),
     kos = (\<lambda>nm a k. (0, k)), kos_schedule = (\<lambda>k. k)\<rparr>"

theorem screen_area_roundtrip_witness:
  "\<exists>sh'. rbind (cmd_set_screen_area area_kernel 5 (mk_argv [''set_screen_area'', fmt_u (0::uint32), fmt_u (20::uint32), fmt_u (399::uint32), fmt_u (299::uint32)])
        (shell_init True 0 ex_env ex_world (0, 0)))
      (cmd_get_screen_area area_kernel 1 (mk_argv [''get_screen_area''])) = Inr sh'
    \<and> fout sh' = fmt_u (0::uint32) @ '' left'' @ nl @ fmt_u (20::uint32) @ '' top'' @ nl @ fmt_u (399::uint32) @ '' right'' @ nl
        @ fmt_u (299::uint32) @ '' bottom'' @ nl"
  using screen_area_roundtrip [of 0 20 399 299 area_kernel "''set_screen_area''" "shell_init True 0 ex_env ex_world (0, 0)" "''get_screen_area''"]
  by (simp add: area_kernel_def regs_defs call_defs shell_init_def)

text \<open>
  (C31) \<^verbatim>\<open>get_mouse_pos_window\<close> prints the signed coordinates relative to the window. The kernel answers
  with the sum of the shifted \<open>x\<close> and the signed \<open>y\<close>, and the command undoes the borrow of a negative \<open>y\<close>.
\<close>

theorem mouse_pos_window_signed:
  assumes "- (2 ^ 15) \<le> x" "x < 2 ^ 15" "- (2 ^ 15) \<le> y" "y < 2 ^ 15"
    and "call_eax K (regs1 37 (Num 1)) (kst sh) = (word_of_int (x * 2 ^ 16 + y), k')"
  shows "cmd_get_mouse_pos_window K 1 argv sh
    = Inr (fputs (''x y: '' @ fmt_int x @ '' '' @ fmt_int y @ nl) (sh\<lparr>kst := k'\<rparr>))"
proof -
  let ?p = "word_point (word_of_int (x * 2 ^ 16 + y))"
  have p: "pt_y ?p = word_of_int y" "pt_x ?p = word_of_int (if y < 0 then x - 1 else x)"
    using assms(3,4) borrow [of y x] by (simp_all only: word_point_def ucast_of_int ucast_shr_of_int lower_half point16s.simps)
  have "pt_x ?p + 1 = word_of_int x" if "y < 0" unfolding p(2) using that by simp
  then have "(if sint (pt_y ?p) < 0 then ?p\<lparr>pt_x := pt_x ?p + 1\<rparr> else ?p) = \<lparr>pt_y = word_of_int y, pt_x = word_of_int x\<rparr>"
    using p sint_half [OF assms(3,4)] by (simp add: word_point_def)
  then show ?thesis
    using sint_half [OF assms(1,2)] sint_half [OF assms(3,4)] assms(5)
    by (simp only: cmd_get_mouse_pos_window_def kcall_def umka_sys_get_mouse_pos_window_def show_point_def fmt_d_def
        Let_def split_beta fst_conv snd_conv point16s.simps) simp
qed

definition mouse_kernel :: "'k kernel" where
  "mouse_kernel = ex_kernel\<lparr>i40 := (\<lambda>r k. (\<lparr>ret_eax = word_of_int ((- 3) * 2 ^ 16 + (- 7)), ret_ebx = 0, ret_edx = 0, ret_mem = []\<rparr>, k))\<rparr>"

theorem mouse_pos_window_signed_witness:
  "cmd_get_mouse_pos_window mouse_kernel 1 [] ex_shell
    = Inr (fputs (''x y: '' @ fmt_int (- 3) @ '' '' @ fmt_int (- 7) @ nl) ex_shell)"
  using mouse_pos_window_signed [of "- 3" "- 7" mouse_kernel ex_shell "kst ex_shell" "[]"]
  by (simp add: call_eax_def mouse_kernel_def)

end
