(* ===== verification/CmdProtocol.thy ===== *)
theory CmdProtocol
  imports ShellTests
begin

text \<open>
  The command slot between the shell's thread and the kernel's \<^verbatim>\<open>cmd_runner\<close> thread as a step
  relation: the shell stores a command and goes to sleep on a condition variable
  (\<^verbatim>\<open>shell_run_cmd\<close>), the runner waits for the slot to be ready, serves it
  (\<^verbatim>\<open>thread_cmd_runner\<close>, \<^verbatim>\<open>shell_run_cmd_sync\<close>) and signals. Every completed exchange is one
  \<^const>\<open>run_in_slot\<close>, the sequential definition the handlers use. But the runner signals without the
  mutex of the condition variable, so the signal can come before the shell sleeps.
\<close>

section \<open>The system\<close>

datatype shell_pc = Ready_to_fill | Filled | Asleep | Returned

datatype runner_pc = Polling | Serving | Served

record 'k cmd_sys =
  cs_sh :: "'k shell"
  cs_pc :: shell_pc
  cs_runner :: runner_pc

fun wake :: "shell_pc \<Rightarrow> shell_pc" where
  "wake Asleep = Returned"
| "wake p = p"

text \<open>
  The runner is resumed by the scheduler, which lets the kernel's other threads run first. Storing
  the result and signalling are two steps.
\<close>

inductive cmd_step :: "'a kst kernel \<Rightarrow> 'a kst cmd_sys \<Rightarrow> 'a kst cmd_sys \<Rightarrow> bool" for K where
  fill: "cs_pc s = Ready_to_fill \<Longrightarrow>
    cmd_step K s (s\<lparr>cs_sh := (cs_sh s)\<lparr>cmd_dat := d, cmd_state := SHELL_CMD_STATUS_READY\<rparr>, cs_pc := Filled\<rparr>)"
| sleep: "cs_pc s = Filled \<Longrightarrow> cmd_step K s (s\<lparr>cs_pc := Asleep\<rparr>)"
| resume: "cs_runner s = Polling \<Longrightarrow> shell_run_cmd_wait_test (cs_sh s) \<noteq> 0 \<Longrightarrow>
    cmd_step K s (s\<lparr>cs_sh := kdo (kos_schedule K) (cs_sh s), cs_runner := Serving\<rparr>)"
| serve: "cs_runner s = Serving \<Longrightarrow>
    cmd_step K s (s\<lparr>cs_sh := shell_run_cmd_sync K (cs_sh s), cs_runner := Served\<rparr>)"
| signal: "cs_runner s = Served \<Longrightarrow> cmd_step K s (s\<lparr>cs_pc := wake (cs_pc s), cs_runner := Polling\<rparr>)"
| clear: "cs_pc s = Returned \<Longrightarrow>
    cmd_step K s (s\<lparr>cs_sh := shell_clear_cmd (cs_sh s), cs_pc := Ready_to_fill\<rparr>)"

abbreviation cmd_steps :: "'a kst kernel \<Rightarrow> 'a kst cmd_sys \<Rightarrow> 'a kst cmd_sys \<Rightarrow> bool" where
  "cmd_steps K \<equiv> (cmd_step K)\<^sup>*\<^sup>*"

definition cmd_sys_init :: "'k shell \<Rightarrow> 'k cmd_sys" where
  "cmd_sys_init sh = \<lparr>cs_sh = sh, cs_pc = Ready_to_fill, cs_runner = Polling\<rparr>"

text \<open>A shell whose kernel runs, with the command thread started and the slot free.\<close>

definition running_shell :: "'k shell \<Rightarrow> bool" where
  "running_shell sh \<longleftrightarrow> running sh = UMKA_RUNNING_YES \<and> cmd_runner sh"

text \<open>One command at a time, as the handlers see it.\<close>

definition slot_call :: "'a kst kernel \<Rightarrow> 'a kst shell \<Rightarrow> 'a kst shell \<Rightarrow> bool" where
  "slot_call K sh sh' \<longleftrightarrow> (\<exists>d. run_in_slot K d sh = Inr sh')"

section \<open>Invariant\<close>

lemma run_sync_fields:
  "running (shell_run_cmd_sync K sh) = running sh" "cmd_runner (shell_run_cmd_sync K sh) = cmd_runner sh"
  "cmd_state (shell_run_cmd_sync K sh) = SHELL_CMD_STATUS_DONE"
  by (auto simp: shell_run_cmd_sync_def kdo_def kcall_def fputs_def split: cmd_data.splits prod.splits)

lemma wait_test_ready: "shell_run_cmd_wait_test sh \<noteq> 0 \<longleftrightarrow> cmd_state sh = SHELL_CMD_STATUS_READY"
  by (cases "cmd_state sh") (simp_all add: shell_run_cmd_wait_test_def)

lemma slot_callI:
  assumes "running_shell sh"
  shows "slot_call K sh (shell_clear_cmd (shell_run_cmd_sync K (kdo (kos_schedule K)
    (sh\<lparr>cmd_dat := d, cmd_state := SHELL_CMD_STATUS_READY\<rparr>))))"
proof -
  have "run_in_slot K d sh = Inr (shell_clear_cmd (shell_run_cmd_sync K (kdo (kos_schedule K)
    (sh\<lparr>cmd_dat := d, cmd_state := SHELL_CMD_STATUS_READY\<rparr>))))"
    using assms wait_test_ready [of "sh\<lparr>cmd_dat := d, cmd_state := SHELL_CMD_STATUS_READY\<rparr>"]
    by (simp add: run_in_slot_def shell_run_cmd_def running_shell_def)
  then show ?thesis unfolding slot_call_def by blast
qed

text \<open>
  What the exchange looks like at each pair of control points: \<open>t\<close> is the shell before the command
  that is under way, \<open>d\<close> the command.
\<close>

definition in_flight :: "'a kst kernel \<Rightarrow> 'a kst cmd_sys \<Rightarrow> 'a kst shell \<Rightarrow> cmd_data \<Rightarrow> bool" where
  "in_flight K s t d \<longleftrightarrow> (let t0 = t\<lparr>cmd_dat := d, cmd_state := SHELL_CMD_STATUS_READY\<rparr>;
       t1 = kdo (kos_schedule K) t0; t2 = shell_run_cmd_sync K t1 in
     case (cs_pc s, cs_runner s) of
       (Filled, Polling) \<Rightarrow> cs_sh s = t0 \<or> cs_sh s = t2
     | (Asleep, Polling) \<Rightarrow> cs_sh s = t0 \<or> cs_sh s = t2
     | (Filled, Serving) \<Rightarrow> cs_sh s = t1
     | (Asleep, Serving) \<Rightarrow> cs_sh s = t1
     | (Filled, Served) \<Rightarrow> cs_sh s = t2
     | (Asleep, Served) \<Rightarrow> cs_sh s = t2
     | (Returned, Polling) \<Rightarrow> cs_sh s = t2
     | _ \<Rightarrow> False)"

definition cmd_inv :: "'a kst kernel \<Rightarrow> 'a kst shell \<Rightarrow> 'a kst cmd_sys \<Rightarrow> bool" where
  "cmd_inv K sh s \<longleftrightarrow>
     (if cs_pc s = Ready_to_fill
      then cs_runner s = Polling \<and> cmd_state (cs_sh s) = SHELL_CMD_STATUS_EMPTY \<and> running_shell (cs_sh s)
        \<and> (slot_call K)\<^sup>*\<^sup>* sh (cs_sh s)
      else \<exists>t d. running_shell t \<and> (slot_call K)\<^sup>*\<^sup>* sh t \<and> in_flight K s t d)"

lemma cmd_inv_init: "running_shell sh \<Longrightarrow> cmd_state sh = SHELL_CMD_STATUS_EMPTY \<Longrightarrow> cmd_inv K sh (cmd_sys_init sh)"
  by (simp add: cmd_inv_def cmd_sys_init_def)

lemma in_flight_ready:
  assumes "in_flight K s t d" "shell_run_cmd_wait_test (cs_sh s) \<noteq> 0" "cs_runner s = Polling"
  shows "cs_sh s = t\<lparr>cmd_dat := d, cmd_state := SHELL_CMD_STATUS_READY\<rparr>" "cs_pc s = Filled \<or> cs_pc s = Asleep"
  using assms(1,3) assms(2) [unfolded wait_test_ready]
  by (cases "cs_pc s"; auto simp: in_flight_def Let_def run_sync_fields)+

lemma cmd_inv_step:
  assumes "cmd_step K s s'" "cmd_inv K sh s"
  shows "cmd_inv K sh s'"
  using assms(1)
proof (cases rule: cmd_step.cases)
  case (fill d)
  then have "in_flight K s' (cs_sh s) d" "running_shell (cs_sh s)" "(slot_call K)\<^sup>*\<^sup>* sh (cs_sh s)"
    using assms(2) by (simp_all add: cmd_inv_def in_flight_def)
  then show ?thesis using fill by (auto simp: cmd_inv_def)
next
  case sleep
  then obtain t d where "running_shell t" "(slot_call K)\<^sup>*\<^sup>* sh t" "in_flight K s t d"
    using assms(2) by (auto simp: cmd_inv_def)
  moreover have "in_flight K s' t d"
    using calculation(3) sleep by (cases "cs_runner s") (simp_all add: in_flight_def Let_def)
  ultimately show ?thesis using sleep by (auto simp: cmd_inv_def)
next
  case resume
  then have "cs_pc s \<noteq> Ready_to_fill" using assms(2) by (auto simp: cmd_inv_def wait_test_ready)
  then obtain t d where t: "running_shell t" "(slot_call K)\<^sup>*\<^sup>* sh t" "in_flight K s t d"
    using assms(2) by (auto simp: cmd_inv_def)
  then have "in_flight K s' t d"
    using resume in_flight_ready [OF t(3) resume(3,2)] by (auto simp: in_flight_def Let_def)
  then show ?thesis using t resume in_flight_ready(2) [OF t(3) resume(3,2)] by (auto simp: cmd_inv_def)
next
  case serve
  then have "cs_pc s \<noteq> Ready_to_fill" using assms(2) by (auto simp: cmd_inv_def)
  then obtain t d where t: "running_shell t" "(slot_call K)\<^sup>*\<^sup>* sh t" "in_flight K s t d"
    using assms(2) by (auto simp: cmd_inv_def)
  then have "in_flight K s' t d" using serve by (cases "cs_pc s") (simp_all add: in_flight_def Let_def)
  then show ?thesis using t serve \<open>cs_pc s \<noteq> Ready_to_fill\<close> by (auto simp: cmd_inv_def)
next
  case signal
  then have "cs_pc s \<noteq> Ready_to_fill" using assms(2) by (auto simp: cmd_inv_def)
  then obtain t d where t: "running_shell t" "(slot_call K)\<^sup>*\<^sup>* sh t" "in_flight K s t d"
    using assms(2) by (auto simp: cmd_inv_def)
  then have "in_flight K s' t d" "cs_pc s' \<noteq> Ready_to_fill"
    using signal by (cases "cs_pc s"; simp add: in_flight_def Let_def)+
  then show ?thesis using t by (auto simp: cmd_inv_def)
next
  case clear
  then obtain t d where t: "running_shell t" "(slot_call K)\<^sup>*\<^sup>* sh t" "in_flight K s t d"
    using assms(2) by (auto simp: cmd_inv_def)
  let ?t2 = "shell_run_cmd_sync K (kdo (kos_schedule K) (t\<lparr>cmd_dat := d, cmd_state := SHELL_CMD_STATUS_READY\<rparr>))"
  have s: "cs_sh s = ?t2" "cs_runner s = Polling"
    using t(3) clear by (cases "cs_runner s"; simp add: in_flight_def Let_def)+
  then have "slot_call K t (cs_sh s')" using slot_callI [OF t(1)] clear by simp
  then have "(slot_call K)\<^sup>*\<^sup>* sh (cs_sh s')" using t(2) by (rule rtranclp.rtrancl_into_rtrancl [rotated])
  moreover have "running_shell (cs_sh s')" using t(1) s clear
    by (simp add: running_shell_def shell_clear_cmd_def run_sync_fields kdo_def)
  ultimately show ?thesis using s clear by (simp add: cmd_inv_def shell_clear_cmd_def)
qed

lemma cmd_inv_steps: "cmd_steps K s s' \<Longrightarrow> cmd_inv K sh s \<Longrightarrow> cmd_inv K sh s'"
  by (induction rule: rtranclp_induct) (auto intro: cmd_inv_step)

section \<open>Progress\<close>

text \<open>A served command whose signal came before the shell slept.\<close>

definition cmd_lost :: "'k cmd_sys \<Rightarrow> bool" where
  "cmd_lost s \<longleftrightarrow> (cs_pc s = Filled \<or> cs_pc s = Asleep) \<and> cs_runner s = Polling
     \<and> cmd_state (cs_sh s) = SHELL_CMD_STATUS_DONE"

lemma cmd_lost_step: "cmd_step K s s' \<Longrightarrow> cmd_lost s \<Longrightarrow> cmd_lost s'"
  by (cases rule: cmd_step.cases) (auto simp: cmd_lost_def wait_test_ready)

lemma cmd_lost_steps: "cmd_steps K s s' \<Longrightarrow> cmd_lost s \<Longrightarrow> cmd_lost s'"
  by (induction rule: rtranclp_induct) (auto intro: cmd_lost_step)

definition returns :: "'a kst kernel \<Rightarrow> 'a kst cmd_sys \<Rightarrow> bool" where
  "returns K s \<longleftrightarrow> (\<exists>s'. cmd_steps K s s' \<and> cs_pc s' = Ready_to_fill)"

lemma returns_step: "cmd_step K s s' \<Longrightarrow> returns K s' \<Longrightarrow> returns K s"
  unfolding returns_def by (blast intro: converse_rtranclp_into_rtranclp)

lemma returns_cleared: "cs_pc s = Returned \<Longrightarrow> returns K s"
  by (rule returns_step [OF cmd_step.clear]) (auto simp: returns_def)

lemma returns_served: "cs_pc s = Asleep \<Longrightarrow> cs_runner s = Served \<Longrightarrow> returns K s"
  by (rule returns_step [OF cmd_step.signal]) (simp_all add: returns_cleared)

lemma returns_serving: "cs_pc s = Asleep \<Longrightarrow> cs_runner s = Serving \<Longrightarrow> returns K s"
  by (rule returns_step [OF cmd_step.serve]) (simp_all add: returns_served)

lemma returns_ready:
  "cs_pc s = Asleep \<Longrightarrow> cs_runner s = Polling \<Longrightarrow> cmd_state (cs_sh s) = SHELL_CMD_STATUS_READY \<Longrightarrow> returns K s"
  by (rule returns_step [OF cmd_step.resume]) (simp_all add: wait_test_ready returns_serving)

lemma returns_asleep:
  assumes "cs_pc s = Asleep" "in_flight K s t d" "\<not> cmd_lost s"
  shows "returns K s"
  using assms returns_ready returns_serving returns_served
  by (cases "cs_runner s") (auto simp: in_flight_def Let_def cmd_lost_def run_sync_fields)

lemma returns_in_flight:
  assumes "in_flight K s t d" "\<not> cmd_lost s"
  shows "returns K s"
proof (cases "cs_pc s")
  case Filled
  have "in_flight K (s\<lparr>cs_pc := Asleep\<rparr>) t d"
    using assms(1) Filled by (cases "cs_runner s") (simp_all add: in_flight_def Let_def)
  then have "returns K (s\<lparr>cs_pc := Asleep\<rparr>)"
    using assms(2) Filled by (intro returns_asleep) (auto simp: cmd_lost_def)
  then show ?thesis by (rule returns_step [OF cmd_step.sleep [OF Filled]])
next
  case Asleep
  then show ?thesis using returns_asleep assms by blast
next
  case Returned
  then show ?thesis by (rule returns_cleared)
qed (use assms(1) in \<open>simp add: in_flight_def\<close>)

definition ex_running :: "kvars shell" where
  "ex_running = ex_shell\<lparr>running := UMKA_RUNNING_YES, cmd_runner := True\<rparr>"

lemma ex_running: "running_shell ex_running" "cmd_state ex_running = SHELL_CMD_STATUS_EMPTY"
  by (simp_all add: running_shell_def ex_running_def ex_shell_def shell_init_def)

definition ex_filled :: "kvars cmd_sys" where
  "ex_filled = \<lparr>cs_sh = ex_running\<lparr>cmd_dat := UMKA_CMD_SYS_CSLEEP 1, cmd_state := SHELL_CMD_STATUS_READY\<rparr>,
     cs_pc = Filled, cs_runner = Polling\<rparr>"

lemma ex_filled: "cmd_steps ex_kernel (cmd_sys_init ex_running) ex_filled"
  using cmd_step.fill [of "cmd_sys_init ex_running" ex_kernel "UMKA_CMD_SYS_CSLEEP 1"]
  by (auto simp: cmd_sys_init_def ex_filled_def)

section \<open>Properties\<close>





text \<open>
  (C36) The two threads can deadlock over any command: the runner serves it and signals before the
  shell has gone to sleep, and then both wait for each other.
\<close>

theorem cmd_protocol_deadlock:
  assumes "running_shell sh" "cmd_state sh = SHELL_CMD_STATUS_EMPTY"
  shows "\<exists>s. cmd_steps K (cmd_sys_init sh) s \<and> cs_pc s = Asleep \<and> cmd_dat (cs_sh s) = d
    \<and> (\<forall>s'. \<not> cmd_step K s s')"
proof -
  let ?t0 = "sh\<lparr>cmd_dat := d, cmd_state := SHELL_CMD_STATUS_READY\<rparr>"
  let ?t1 = "kdo (kos_schedule K) ?t0"
  let ?t2 = "shell_run_cmd_sync K ?t1"
  let ?s = "\<lambda>t p r. \<lparr>cs_sh = t, cs_pc = p, cs_runner = r\<rparr> :: 'a kst cmd_sys"
  have "cmd_step K (cmd_sys_init sh) (?s ?t0 Filled Polling)"
    using cmd_step.fill [of "cmd_sys_init sh" K d] by (simp add: cmd_sys_init_def)
  moreover have "cmd_step K (?s ?t0 Filled Polling) (?s ?t1 Filled Serving)"
    using cmd_step.resume [of "?s ?t0 Filled Polling" K] by (simp add: wait_test_ready)
  moreover have "cmd_step K (?s ?t1 Filled Serving) (?s ?t2 Filled Served)"
    using cmd_step.serve [of "?s ?t1 Filled Serving" K] by simp
  moreover have "cmd_step K (?s ?t2 Filled Served) (?s ?t2 Filled Polling)"
    using cmd_step.signal [of "?s ?t2 Filled Served" K] by simp
  moreover have "cmd_step K (?s ?t2 Filled Polling) (?s ?t2 Asleep Polling)"
    using cmd_step.sleep [of "?s ?t2 Filled Polling" K] by simp
  ultimately have "cmd_steps K (cmd_sys_init sh) (?s ?t2 Asleep Polling)"
    by (meson converse_rtranclp_into_rtranclp rtranclp.rtrancl_refl)
  moreover have "\<not> cmd_step K (?s ?t2 Asleep Polling) s'" for s'
    by (auto elim!: cmd_step.cases simp: wait_test_ready run_sync_fields)
  moreover have "cmd_dat ?t2 = d"
    by (auto simp: shell_run_cmd_sync_def kdo_def kcall_def fputs_def split: cmd_data.splits prod.splits)
  ultimately show ?thesis by (intro exI [of _ "?s ?t2 Asleep Polling"]) simp
qed

theorem cmd_protocol_deadlock_witness:
  "\<exists>s. cmd_steps ex_kernel (cmd_sys_init ex_running) s \<and> cs_pc s = Asleep
    \<and> cmd_dat (cs_sh s) = UMKA_CMD_WAIT_FOR_IDLE \<and> (\<forall>s'. \<not> cmd_step ex_kernel s s')"
  by (rule cmd_protocol_deadlock [OF ex_running])

end
