(* ===== verification/NetProps.thy ===== *)
theory NetProps
  imports SysProps
begin

unbundle bit_operations_syntax

text \<open>
  Numbers and addresses as text: what the number parsers of the shell accept, and that an IPv4
  address set through the shell is printed back unchanged.
\<close>

section \<open>Decimal numbers\<close>

lemma strto_show: "strto 0 (show_base 10 n) = Some (False, n, [])"
  using strto_dec [of "[]" 0 n] by (simp add: has_digit_def)

lemma parse_uintmax_show:
  "parse_uintmax (show_base 10 n) = (if 2 ^ 64 \<le> n then - 1 else of_nat n, True)"
  using show_base_nonempty [of 10 n, symmetric]
  by (simp add: parse_uintmax_def strtoumax_def strtoumax_end_def strtou_def strto_show)

section \<open>Addresses\<close>

lemma dot_no_digit: "\<not> has_digit 10 (CHR ''.'' # s)" "\<not> has_digit 8 (CHR ''.'' # s)"
  by (simp_all add: has_digit_def digit_in_def digit_val_def)

lemma strto_part: "strto 0 (show_base 10 n @ CHR ''.'' # s) = Some (False, n, CHR ''.'' # s)"
  by (rule strto_dec) (simp_all add: dot_no_digit)

lemma inet_step:
  "0 < k \<Longrightarrow> i \<le> 2 \<Longrightarrow> n \<le> 255 \<Longrightarrow> inet_parts k i acc (show_base 10 n @ CHR ''.'' # s)
    = inet_parts (k - 1) (i + 1) (acc OR shl (of_nat n) (8 * i)) s"
  by (cases k) (simp_all add: has_digit_show_base strto_part)

lemma inet_last:
  "0 < k \<Longrightarrow> n \<le> 255 \<Longrightarrow> inet_parts k 3 acc (show_base 10 n) = acc OR bswap32 (of_nat n)"
  using has_digit_show_base [of 10 n "[]"] by (cases k) (simp_all add: strto_show)

lemma byte_and_low: "ucast (b :: uint8) AND 0xFF = (ucast b :: uint32)"
proof -
  have "take_bit 8 (ucast b :: uint32) = ucast b" by (rule bit_word_eqI) (auto simp: bit_simps dest: bit_imp_le_length)
  then show ?thesis by (simp add: take_bit_eq_mask mask_eq_exp_minus_1)
qed

lemma byte_and_above: "ucast (b :: uint8) AND shl x 8 = (0 :: uint32)"
  by (rule bit_word_eqI) (auto simp: bit_simps dest: bit_imp_le_length)

lemma byte_and_high: "ucast (b :: uint8) AND 0xFF00 = (0 :: uint32)"
  using byte_and_above [of b "0xFF"] by simp

lemma byte_shr: "8 \<le> n \<Longrightarrow> shr (ucast (b :: uint8) :: uint32) n = 0"
  by (rule bit_word_eqI) (auto simp: bit_simps dest: bit_imp_le_length)

lemma bswap_byte: "bswap32 (ucast (b :: uint8)) = shl (ucast b) 24"
  by (simp add: bswap32_def byte_and_low byte_and_high byte_shr)

lemma bytes_of_word:
  "ucast (byte_of w 0) OR shl (ucast (byte_of w 8)) 8 OR shl (ucast (byte_of w 16)) 16 OR shl (ucast (byte_of w 24)) 24 = w"
proof (rule bit_word_eqI)
  fix n :: nat
  assume "n < LENGTH(32)"
  then consider "n < 8" | "8 \<le> n" "n < 16" | "16 \<le> n" "n < 24" | "24 \<le> n" "n < 32" by fastforce
  then show "bit (ucast (byte_of w 0) OR shl (ucast (byte_of w 8)) 8 OR shl (ucast (byte_of w 16)) 16
      OR shl (ucast (byte_of w 24)) 24 :: uint32) n = bit w n"
    by cases (auto simp: byte_of_def bit_simps bit_ucast_iff)
qed

lemma inet_addr_show_ip: "inet_addr (show_ip w) = w"
proof -
  have b: "unat (byte_of w n) \<le> 255" for n using unsigned_less [of "byte_of w n", where ?'a = nat] by simp
  have "inet_addr (show_ip w) = 0 OR shl (ucast (byte_of w 0)) 0 OR shl (ucast (byte_of w 8)) 8
      OR shl (ucast (byte_of w 16)) 16 OR bswap32 (ucast (byte_of w 24))"
    unfolding inet_addr_def show_ip_def fmt_u_def using b
    by (simp add: inet_step inet_last numeral_2_eq_2 [symmetric] numeral_3_eq_3 [symmetric] or.assoc del: inet_parts.simps)
  then show ?thesis by (simp add: bswap_byte bytes_of_word)
qed

section \<open>Properties\<close>

text \<open>
  (C37) The number parsers on decimal text. A 32-bit number is accepted exactly when it fits, and
  then as its value; everything larger is reported, also beyond 64 bits. A 64-bit number that does
  not fit is not reported but read as the largest one.
\<close>

theorem parse_uint_decimal:
  "parse_uint32 (show_base 10 n) sh = (if n < 2 ^ 32 then (Some (of_nat n), sh)
      else (None, fputs (''invalid number: '' @ show_base 10 n @ nl) sh))
   \<and> parse_uint64 (show_base 10 n) sh = (Some (of_nat (min n (2 ^ 64 - 1))), sh)"
proof
  have u: "unat (of_nat n :: uint64) = n" if "n < 2 ^ 64" using that by (simp add: unat_of_nat_less)
  show "parse_uint32 (show_base 10 n) sh = (if n < 2 ^ 32 then (Some (of_nat n), sh)
      else (None, fputs (''invalid number: '' @ show_base 10 n @ nl) sh))"
  proof (cases "n < 2 ^ 64")
    case True
    then have "(of_nat n :: uint64) \<le> 0xFFFFFFFF \<longleftrightarrow> n < 2 ^ 32" using u by (auto simp: word_le_nat_alt)
    then show ?thesis using True by (simp add: parse_uint32_def parse_uintmax_show unsigned_of_nat take_bit_nat_eq_self)
  next
    case False
    moreover have "\<not> (- 1 :: uint64) \<le> 0xFFFFFFFF" by (simp add: word_le_nat_alt unsigned_minus_1_eq_mask mask_eq_exp_minus_1)
    ultimately show ?thesis by (simp add: parse_uint32_def parse_uintmax_show)
  qed
  have "x \<le> 0xFFFFFFFFFFFFFFFF" for x :: uint64
    using unsigned_less [of x, where ?'a = nat] by (simp add: word_le_nat_alt)
  then show "parse_uint64 (show_base 10 n) sh = (Some (of_nat (min n (2 ^ 64 - 1))), sh)"
    by (cases "n < 2 ^ 64") (simp_all add: parse_uint64_def parse_uintmax_show min_def)
qed

text \<open>
  (C38) An IPv4 address in dotted notation passes through the shell and the kernel unchanged: what
  \<^verbatim>\<open>net_ipv4_set_addr\<close> was given is what \<^verbatim>\<open>net_ipv4_get_addr\<close> prints, for a kernel that keeps the
  address of the device. The address of all ones, which the commands take for failure, is excepted.
\<close>

theorem ipv4_addr_roundtrip:
  assumes "w \<noteq> UINT32_MAX"
    and "\<And>k. fst (fst (call_eax_ebx K (regs2 76 (f76 1 dev 3) (Num w)) k)) = 0"
    and "\<And>k. fst (fst (call_eax_ebx K (regs1 76 (f76 1 dev 2)) (snd (call_eax_ebx K (regs2 76 (f76 1 dev 3) (Num w)) k)))) = w"
  shows "\<exists>sh'. rbind (cmd_net_ipv4_set_addr K 3 (mk_argv [nm, fmt_u dev, show_ip w]) sh)
        (cmd_net_ipv4_get_addr K 2 (mk_argv [nm', fmt_u dev])) = Inr sh'
    \<and> fout sh' = fout sh @ ''status: ok'' @ nl @ show_ip w @ nl"
proof -
  obtain e k1 where c1: "call_eax_ebx K (regs2 76 (f76 1 dev 3) (Num w)) (kst sh) = ((0, e), k1)"
    using assms(2) [of "kst sh"] by (metis prod.collapse)
  obtain e2 k2 where c2: "call_eax_ebx K (regs1 76 (f76 1 dev 2)) k1 = ((w, e2), k2)"
    using assms(3) [of "kst sh"] c1 by (metis prod.collapse snd_conv)
  have set: "cmd_net_ipv4_set_addr K 3 (mk_argv [nm, fmt_u dev, show_ip w]) sh
      = Inr (fputs (''status: ok'' @ nl) (sh\<lparr>kst := k1\<rparr>))"
    using c1 by (simp add: cmd_net_ipv4_set_addr_def set76_def args_mk_argv num_def inet_addr_show_ip kcall_def
        umka_sys_net_ipv4_set_addr_def ok_or_fail_def)
  show ?thesis
    unfolding set using c2 assms(1)
    by (simp add: cmd_net_ipv4_get_addr_def query76_def args_mk_argv num_def kcall_def
        umka_sys_net_ipv4_get_addr_def fputs_def)
qed

definition ip_kernel :: "uint32 kernel" where
  "ip_kernel = \<lparr>i40 = (\<lambda>r k. case ecx r of
       Some (Num a) \<Rightarrow> (\<lparr>ret_eax = 0, ret_ebx = 0, ret_edx = 0, ret_mem = []\<rparr>, a)
     | _ \<Rightarrow> (\<lparr>ret_eax = k, ret_ebx = 0, ret_edx = 0, ret_mem = []\<rparr>, k)),
     kos = (\<lambda>nm a k. (0, k)), kos_schedule = (\<lambda>k. k)\<rparr>"

theorem ipv4_addr_roundtrip_witness:
  "\<exists>sh'. rbind (cmd_net_ipv4_set_addr ip_kernel 3 (mk_argv [''net_ipv4_set_addr'', fmt_u (0::uint32), show_ip 0x0100A8C0])
        (shell_init True 0 ex_env ex_world 0))
        (cmd_net_ipv4_get_addr ip_kernel 2 (mk_argv [''net_ipv4_get_addr'', fmt_u (0::uint32)])) = Inr sh'
    \<and> fout sh' = ''status: ok'' @ nl @ show_ip 0x0100A8C0 @ nl"
  using ipv4_addr_roundtrip [of "0x0100A8C0" ip_kernel 0 "''net_ipv4_set_addr''" "shell_init True 0 ex_env ex_world 0" "''net_ipv4_get_addr''"]
  by (simp add: ip_kernel_def call_eax_ebx_def regs_defs shell_init_def)

end
