(* ===== verification/Bitreader.thy ===== *)
theory Bitreader
  imports Host
begin

unbundle bit_operations_syntax

text \<open>
  The bit reader of \<^verbatim>\<open>deps/em_inflate/em_inflate.c\<close> and the vocabulary of the decompressor. The
  compressed data is a byte list \<^term>\<open>mem\<close> that may go on after the data's end: positions in it
  are integers, the source's pointers minus the start of the data, and reading outside it is a
  fault. A C function that returns -1 on failure is a computation whose value is
  \<^const>\<open>None\<close> then. The 32-bit build has the 32-bit shifter, and \<^verbatim>\<open>em_lsb_bitreader_refill_32\<close>
  does nothing in it.
\<close>

section \<open>Arrays, failure and loops\<close>

type_synonym 'a ret = "'a option res"

definition obind :: "'a ret \<Rightarrow> ('a \<Rightarrow> 'b ret) \<Rightarrow> 'b ret" where
  "obind m f = rbind m (\<lambda>r. case r of None \<Rightarrow> Inr None | Some x \<Rightarrow> f x)"

lemma obind_simps [simp, res_simps]:
  "obind (Inl e) f = Inl e" "obind (Inr None) f = Inr None" "obind (Inr (Some x)) f = f x"
  by (simp_all add: obind_def)

lemma obind_assoc: "obind (obind m f) g = obind m (\<lambda>x. obind (f x) g)"
  by (cases m; cases "projr m") (auto simp: obind_def split: option.splits)

definition aget :: "'a list \<Rightarrow> nat \<Rightarrow> 'a res" where
  "aget xs i = (if i < length xs then Inr (xs ! i) else Inl Out_of_bounds)"

definition aset :: "'a list \<Rightarrow> nat \<Rightarrow> 'a \<Rightarrow> 'a list res" where
  "aset xs i v = (if i < length xs then Inr (xs[i := v]) else Inl Out_of_bounds)"

lemma aget_ok [simp]: "i < length xs \<Longrightarrow> aget xs i = Inr (xs ! i)"
  by (simp add: aget_def)

lemma aset_ok [simp]: "i < length xs \<Longrightarrow> aset xs i v = Inr (xs[i := v])"
  by (simp add: aset_def)

text \<open>A counting loop: the body for each value of the counter, left when the body fails.\<close>

fun for_each :: "('i \<Rightarrow> 's \<Rightarrow> 's ret) \<Rightarrow> 'i list \<Rightarrow> 's \<Rightarrow> 's ret" where
  "for_each f [] s = Inr (Some s)"
| "for_each f (i # is) s = obind (f i s) (for_each f is)"

lemma rbind_cong [fundef_cong]:
  "m = m' \<Longrightarrow> (\<And>x. m' = Inr x \<Longrightarrow> f x = g x) \<Longrightarrow> rbind m f = rbind m' g"
  by (cases m') simp_all

section \<open>The bit reader\<close>

record bitreader =
  nDecShifterBitCount :: int
  nDecShifterData :: uint32
  pInBlock :: int
  pInBlockEnd :: int
  pInBlockStart :: int

definition rd :: "byte list \<Rightarrow> int \<Rightarrow> byte res" where
  "rd mem p = (if 0 \<le> p \<and> p < int (length mem) then Inr (mem ! nat p) else Inl Out_of_bounds)"

definition em_lsb_bitreader_init :: "int \<Rightarrow> int \<Rightarrow> bitreader" where
  "em_lsb_bitreader_init start end =
     \<lparr>nDecShifterBitCount = 0, nDecShifterData = 0, pInBlock = start, pInBlockEnd = end,
      pInBlockStart = start\<rparr>"

text \<open>
  The statement both readers share: or the next byte, shifted left by \<^term>\<open>n\<close>, into the shifter
  and step over it. The processor takes a shift count modulo 32.
\<close>

definition shift_in :: "byte list \<Rightarrow> int \<Rightarrow> bitreader \<Rightarrow> bitreader res" where
  "shift_in mem n br = rbind (rd mem (pInBlock br)) (\<lambda>b.
     Inr (br\<lparr>nDecShifterData := nDecShifterData br OR shl (ucast b) (nat (n mod 32)),
             pInBlock := pInBlock br + 1\<rparr>))"

definition add_count :: "int \<Rightarrow> bitreader \<Rightarrow> bitreader" where
  "add_count n br = br\<lparr>nDecShifterBitCount := nDecShifterBitCount br + n\<rparr>"

definition em_lsb_bitreader_consume_bits :: "nat \<Rightarrow> bitreader \<Rightarrow> bitreader" where
  "em_lsb_bitreader_consume_bits nBits br =
     br\<lparr>nDecShifterData := shr (nDecShifterData br) nBits,
        nDecShifterBitCount := nDecShifterBitCount br - int nBits\<rparr>"

definition em_lsb_bitreader_get_bits :: "byte list \<Rightarrow> nat \<Rightarrow> bitreader \<Rightarrow> (uint32 \<times> bitreader) res" where
  "em_lsb_bitreader_get_bits mem nBits br =
     rbind (if nDecShifterBitCount br < int nBits then
              (if pInBlock br < pInBlockEnd br then
                 rbind (shift_in mem (nDecShifterBitCount br) br) (\<lambda>br.
                 let br = add_count 8 br in
                 if pInBlock br < pInBlockEnd br then
                   rbind (shift_in mem (nDecShifterBitCount br) br) (\<lambda>br. Inr (Some (add_count 8 br)))
                 else Inr (Some br))
               else Inr None)
            else Inr (Some br))
       (\<lambda>r. case r of
          None \<Rightarrow> Inr (-1, br)
        | Some br \<Rightarrow> Inr (nDecShifterData br AND (shl 1 nBits - 1), em_lsb_bitreader_consume_bits nBits br))"

definition em_lsb_bitreader_peek_16bits :: "byte list \<Rightarrow> bitreader \<Rightarrow> (uint32 \<times> bitreader) res" where
  "em_lsb_bitreader_peek_16bits mem br =
     rbind (if nDecShifterBitCount br < 16 \<and> pInBlock br < pInBlockEnd br then
              rbind (shift_in mem (nDecShifterBitCount br) br) (\<lambda>br.
              rbind (if pInBlock br < pInBlockEnd br
                     then shift_in mem (nDecShifterBitCount br + 8) br else Inr br) (\<lambda>br.
              Inr (add_count 16 br)))
            else Inr br)
       (\<lambda>br. Inr (nDecShifterData br AND 0xffff, br))"

function rewind :: "bitreader \<Rightarrow> bool \<times> bitreader" where
  "rewind br = (if nDecShifterBitCount br \<ge> 8 then
     (let br = br\<lparr>nDecShifterBitCount := nDecShifterBitCount br - 8, pInBlock := pInBlock br - 1\<rparr>
      in if pInBlock br < pInBlockStart br then (False, br) else rewind br)
     else (True, br))"
  by pat_completeness auto
termination by (relation "measure (\<lambda>br. nat (nDecShifterBitCount br))") auto

declare rewind.simps [simp del]

definition em_lsb_bitreader_byte_align :: "bitreader \<Rightarrow> bool \<times> bitreader" where
  "em_lsb_bitreader_byte_align br =
     (let (ok, br) = rewind br
      in (ok, if ok then br\<lparr>nDecShifterBitCount := 0, nDecShifterData := 0\<rparr> else br))"

section \<open>Fault-free computations\<close>

text \<open>
  \<^term>\<open>ok P m\<close>: the computation has no fault and its value satisfies \<^term>\<open>P\<close>. For the computations that may
  return -1, \<^term>\<open>oko P m\<close>: no fault, and \<^term>\<open>P\<close> if it does not return -1.
\<close>

definition ok :: "('a \<Rightarrow> bool) \<Rightarrow> 'a res \<Rightarrow> bool" where
  "ok P m = (case m of Inl e \<Rightarrow> False | Inr x \<Rightarrow> P x)"

definition oko :: "('a \<Rightarrow> bool) \<Rightarrow> 'a ret \<Rightarrow> bool" where
  "oko P m = ok (\<lambda>r. case r of None \<Rightarrow> True | Some x \<Rightarrow> P x) m"

named_theorems ok_intros \<open>rules for fault-free computations\<close>

lemma ok_simps [simp]:
  "ok P (Inr x) = P x" "\<not> ok P (Inl e)" "oko P (Inr None)" "oko P (Inr (Some x)) = P x" "\<not> oko P (Inl e)"
  by (simp_all add: ok_def oko_def)

lemma ok_rbind [ok_intros]: "ok P m \<Longrightarrow> (\<And>x. P x \<Longrightarrow> ok Q (f x)) \<Longrightarrow> ok Q (rbind m f)"
  by (cases m) auto

lemma oko_rbind [ok_intros]: "ok P m \<Longrightarrow> (\<And>x. P x \<Longrightarrow> oko Q (f x)) \<Longrightarrow> oko Q (rbind m f)"
  by (cases m) auto

lemma oko_obind [ok_intros]: "oko P m \<Longrightarrow> (\<And>x. P x \<Longrightarrow> oko Q (f x)) \<Longrightarrow> oko Q (obind m f)"
  by (cases m; cases "projr m") (auto simp: oko_def obind_def)

lemma oko_obind2:
  "oko (\<lambda>(a, b). P a b) m \<Longrightarrow> (\<And>a b. P a b \<Longrightarrow> oko Q (f a b)) \<Longrightarrow> oko Q (obind m (\<lambda>(a, b). f a b))"
  by (erule oko_obind) auto

lemma ok_rbind2:
  "ok (\<lambda>(a, b). P a b) m \<Longrightarrow> (\<And>a b. P a b \<Longrightarrow> ok Q (f a b)) \<Longrightarrow> ok Q (rbind m (\<lambda>(a, b). f a b))"
  by (erule ok_rbind) auto

lemma oko_rbind2:
  "ok (\<lambda>(a, b). P a b) m \<Longrightarrow> (\<And>a b. P a b \<Longrightarrow> oko Q (f a b)) \<Longrightarrow> oko Q (rbind m (\<lambda>(a, b). f a b))"
  by (erule oko_rbind) auto

lemma ok_option:
  "oko P m \<Longrightarrow> ok Q (f None) \<Longrightarrow> (\<And>x. P x \<Longrightarrow> ok Q (f (Some x))) \<Longrightarrow> ok Q (rbind m f)"
  unfolding oko_def by (erule ok_rbind) (auto split: option.splits)

lemma ok_mono: "ok P m \<Longrightarrow> (\<And>x. P x \<Longrightarrow> Q x) \<Longrightarrow> ok Q m"
  by (cases m) auto

lemma oko_mono: "oko P m \<Longrightarrow> (\<And>x. P x \<Longrightarrow> Q x) \<Longrightarrow> oko Q m"
  unfolding oko_def by (erule ok_mono) (simp split: option.splits)

lemma for_each_upt:
  assumes "I a s" "a \<le> b" "\<And>i s. a \<le> i \<Longrightarrow> i < b \<Longrightarrow> I i s \<Longrightarrow> oko (I (Suc i)) (f i s)"
  shows "oko (I b) (for_each f [a..<b] s)"
  using assms
proof (induction "b - a" arbitrary: a s)
  case (Suc n)
  then have "[a..<b] = a # [Suc a..<b]" by (simp add: upt_rec)
  with Suc show ?case by (auto intro!: oko_obind [of "I (Suc a)"] Suc.hyps(1) [of "Suc a"])
qed simp

lemma for_each_inv:
  assumes "I s" "\<And>i s. i \<in> set is \<Longrightarrow> I s \<Longrightarrow> oko I (f i s)"
  shows "oko I (for_each f is s)"
  using assms by (induction "is" arbitrary: s) (auto intro!: oko_obind [of I])

section \<open>The invariant of the reader\<close>

text \<open>
  The reader never counts more bits than it has read, but for eight: looking ahead over a single last
  byte counts sixteen. A negative count, which reading past the end gives, only arises when there is
  no byte left, and past the end, where a stored block may lead, no bit is counted. Once a bit has been taken the bounds are strict.
\<close>

definition counted :: "bitreader \<Rightarrow> int" where
  "counted br = 8 * (pInBlock br - pInBlockStart br) + (if pInBlockEnd br \<le> pInBlock br then 8 else 0)"

definition br_inv :: "byte list \<Rightarrow> bitreader \<Rightarrow> bool" where
  "br_inv mem br \<longleftrightarrow> 0 \<le> pInBlockStart br \<and> pInBlockStart br \<le> pInBlock br
     \<and> pInBlockEnd br \<le> int (length mem) \<and> nDecShifterBitCount br \<le> 31
     \<and> (nDecShifterBitCount br < 0 \<longrightarrow> pInBlockEnd br \<le> pInBlock br)
     \<and> (pInBlockEnd br < pInBlock br \<longrightarrow> nDecShifterBitCount br \<le> 0)
     \<and> nDecShifterBitCount br \<le> counted br"

definition started :: "bitreader \<Rightarrow> bool" where
  "started br \<longleftrightarrow> nDecShifterBitCount br < counted br"

text \<open>What reading uses up: sixteen per byte, one per counted bit.\<close>

definition budget :: "bitreader \<Rightarrow> int" where
  "budget br = 16 * (pInBlockEnd br - pInBlock br) + nDecShifterBitCount br"

definition same_block :: "bitreader \<Rightarrow> bitreader \<Rightarrow> bool" where
  "same_block br br' \<longleftrightarrow> pInBlockStart br' = pInBlockStart br \<and> pInBlockEnd br' = pInBlockEnd br"

lemma shift_in_ok:
  assumes "0 \<le> pInBlock br" "pInBlock br < int (length mem)"
  shows "shift_in mem n br = Inr (br\<lparr>nDecShifterData := nDecShifterData br
      OR shl (ucast (mem ! nat (pInBlock br))) (nat (n mod 32)), pInBlock := pInBlock br + 1\<rparr>)"
  using assms by (simp add: shift_in_def rd_def)

lemmas br_defs = br_inv_def started_def budget_def same_block_def counted_def add_count_def
  em_lsb_bitreader_consume_bits_def

lemma get_bits_inv:
  assumes "br_inv mem br" "n \<le> 15"
  shows "ok (\<lambda>(v, br'). br_inv mem br' \<and> same_block br br'
      \<and> (if v = -1 then br' = br else budget br' \<le> budget br - int n \<and> (0 < n \<or> started br \<longrightarrow> started br'))
      \<and> (v \<noteq> -1 \<longrightarrow> unat v < 2 ^ n))
    (em_lsb_bitreader_get_bits mem n br)"
proof -
  have m: "unat (x AND (shl 1 n - 1)) < 2 ^ n" for x :: uint32
  proof -
    have "shl 1 n - 1 = (mask n :: uint32)" by (simp add: mask_eq_exp_minus_1)
    then have "x AND (shl 1 n - 1) = take_bit n x" by (simp add: take_bit_eq_mask)
    then show ?thesis by (simp add: unsigned_take_bit_eq)
  qed
  moreover have "x AND (shl 1 n - 1) \<noteq> (-1 :: uint32)" for x
  proof
    assume "x AND (shl 1 n - 1) = -1"
    with m [of x] have "unat (-1 :: uint32) < 2 ^ n" by simp
    moreover have "(2 :: nat) ^ n \<le> 2 ^ 15" using assms by (intro power_increasing) simp_all
    ultimately show False by (simp add: unsigned_minus_1_eq_mask mask_eq_exp_minus_1)
  qed
  ultimately show ?thesis
    using assms
    by (auto simp: em_lsb_bitreader_get_bits_def br_defs shift_in_ok Let_def)
qed

lemma get_bits_budget:
  assumes "br_inv mem br" "0 < n" "n \<le> 15" "em_lsb_bitreader_get_bits mem n br = Inr (v, br')" "v \<noteq> -1"
  shows "int n \<le> budget br"
  using assms by (auto simp: em_lsb_bitreader_get_bits_def br_defs split: if_splits)

lemma peek_inv:
  assumes "br_inv mem br" "started br"
  shows "ok (\<lambda>(v, br'). br_inv mem br' \<and> same_block br br' \<and> started br' \<and> budget br' \<le> budget br
      \<and> unat v < 2 ^ 16 \<and> (16 \<le> nDecShifterBitCount br' \<or> pInBlockEnd br' \<le> pInBlock br'))
    (em_lsb_bitreader_peek_16bits mem br)"
proof -
  have "unat (x AND 0xffff) < 2 ^ 16" for x :: uint32
  proof -
    have "x AND 0xffff = take_bit 16 x" by (simp add: take_bit_eq_mask mask_eq_exp_minus_1)
    then show ?thesis using take_bit_nat_less_exp [of 16 "unat x"] by (simp add: unsigned_take_bit_eq)
  qed
  then show ?thesis
    using assms by (auto simp: em_lsb_bitreader_peek_16bits_def br_defs shift_in_ok)
qed

lemma consume_inv:
  assumes "br_inv mem br" "started br" "int n \<le> nDecShifterBitCount br \<or> pInBlockEnd br \<le> pInBlock br"
  shows "br_inv mem (em_lsb_bitreader_consume_bits n br)" "started (em_lsb_bitreader_consume_bits n br)"
    "budget (em_lsb_bitreader_consume_bits n br) = budget br - int n"
    "same_block br (em_lsb_bitreader_consume_bits n br)"
  using assms by (auto simp: br_defs)

lemma rewind_eq:
  assumes "0 \<le> nDecShifterBitCount br" "nDecShifterBitCount br div 8 \<le> pInBlock br - pInBlockStart br"
  shows "rewind br = (True, br\<lparr>nDecShifterBitCount := nDecShifterBitCount br mod 8,
                               pInBlock := pInBlock br - nDecShifterBitCount br div 8\<rparr>)"
  using assms
proof (induction br rule: rewind.induct)
  case (1 br)
  show ?case
  proof (cases "8 \<le> nDecShifterBitCount br")
    case True
    define br' where "br' = br\<lparr>nDecShifterBitCount := nDecShifterBitCount br - 8, pInBlock := pInBlock br - 1\<rparr>"
    have d: "(nDecShifterBitCount br - 8) div 8 = nDecShifterBitCount br div 8 - 1"
      "(nDecShifterBitCount br - 8) mod 8 = nDecShifterBitCount br mod 8"
      "1 \<le> nDecShifterBitCount br div 8"
      using True div_add_self2 [of 8 "nDecShifterBitCount br - 8"]
        mod_add_self2 [of "nDecShifterBitCount br - 8" 8] zdiv_mono1 [of 8 "nDecShifterBitCount br" 8]
      by simp_all
    have "rewind br' = (True, br'\<lparr>nDecShifterBitCount := nDecShifterBitCount br' mod 8,
                               pInBlock := pInBlock br' - nDecShifterBitCount br' div 8\<rparr>)"
      using "1.prems" True d by (intro "1.IH" [OF True br'_def]) (simp_all add: br'_def)
    then show ?thesis
      using "1.prems" True d by (subst rewind.simps) (simp add: Let_def br'_def)
  next
    case False
    with "1.prems" show ?thesis
      by (subst rewind.simps) (simp add: mod_pos_pos_trivial div_pos_pos_trivial)
  qed
qed

lemma rewind_neg: "nDecShifterBitCount br < 8 \<Longrightarrow> rewind br = (True, br)"
  by (subst rewind.simps) simp

text \<open>Aligning: back over the whole bytes that are counted and not used.\<close>

lemma byte_align_eq:
  assumes "br_inv mem br" "started br"
  shows "em_lsb_bitreader_byte_align br =
      (True, br\<lparr>nDecShifterBitCount := 0, nDecShifterData := 0,
               pInBlock := pInBlock br - max 0 (nDecShifterBitCount br) div 8\<rparr>)"
    and "pInBlockStart br \<le> pInBlock br - max 0 (nDecShifterBitCount br) div 8"
    and "pInBlock br - max 0 (nDecShifterBitCount br) div 8 < pInBlockEnd br \<longrightarrow> 0 \<le> nDecShifterBitCount br"
proof -
  show p: "pInBlockStart br \<le> pInBlock br - max 0 (nDecShifterBitCount br) div 8"
    using assms by (auto simp: br_defs split: if_splits)
  show "pInBlock br - max 0 (nDecShifterBitCount br) div 8 < pInBlockEnd br \<longrightarrow> 0 \<le> nDecShifterBitCount br"
    using assms by (auto simp: br_defs)
  show "em_lsb_bitreader_byte_align br =
      (True, br\<lparr>nDecShifterBitCount := 0, nDecShifterData := 0,
               pInBlock := pInBlock br - max 0 (nDecShifterBitCount br) div 8\<rparr>)"
  proof (cases "0 \<le> nDecShifterBitCount br")
    case True
    with p rewind_eq [of br] show ?thesis
      by (simp add: em_lsb_bitreader_byte_align_def max_def)
  next
    case False
    with rewind_neg [of br] show ?thesis
      by (simp add: em_lsb_bitreader_byte_align_def max_def)
  qed
qed

end
