(* ===== verification/Huffman.thy ===== *)
theory Huffman
  imports Bitreader
begin

unbundle bit_operations_syntax

text \<open>
  The canonical Huffman decoder of \<^verbatim>\<open>deps/em_inflate/em_inflate.c\<close>: the counting sort of symbols by
  code length, the tables built from it, the two-path symbol decoder, and the readers of code
  lengths. A reverse symbol table has \<^verbatim>\<open>2 * nSymbols\<close> entries, the symbols in canonical order and
  then the length of each one's codeword, as in the source.
\<close>

abbreviation (input) MAX_SYMBOLS :: int where "MAX_SYMBOLS \<equiv> 288"
abbreviation (input) NCODELENSYMS :: nat where "NCODELENSYMS \<equiv> 19"
abbreviation (input) NFASTSYMBOLBITS :: nat where "NFASTSYMBOLBITS \<equiv> 10"

record huffman_decoder =
  nFastSymbol :: "uint32 list"
  nStartIndex :: "uint32 list"
  nSymbols :: nat
  nNumSorted :: nat
  nStartingPos :: "nat list"

section \<open>Tables\<close>

definition count_length :: "byte list \<Rightarrow> nat \<Rightarrow> nat list \<Rightarrow> nat list ret" where
  "count_length pCodeLength i nNumSymbolsPerLen =
     rbind (aget pCodeLength i) (\<lambda>l.
     if l \<ge> 16 then Inr None
     else rbind (aget nNumSymbolsPerLen (unat l)) (\<lambda>n.
          rbind (aset nNumSymbolsPerLen (unat l) (n + 1)) (\<lambda>t. Inr (Some t))))"

definition place_length :: "nat list \<Rightarrow> nat \<Rightarrow> nat list \<times> nat \<Rightarrow> (nat list \<times> nat) ret" where
  "place_length nNumSymbolsPerLen i s =
     rbind (aset (fst s) i (snd s)) (\<lambda>pos.
     rbind (aget nNumSymbolsPerLen i) (\<lambda>n. Inr (Some (pos, snd s + n))))"

definition place_symbol :: "byte list \<Rightarrow> nat \<Rightarrow> nat list \<times> uint32 list \<Rightarrow> (nat list \<times> uint32 list) ret" where
  "place_symbol pCodeLength i s =
     rbind (aget pCodeLength i) (\<lambda>l.
     if l \<noteq> 0 then
       rbind (aget (fst s) (unat l)) (\<lambda>p.
       rbind (aset (snd s) p (of_nat i)) (\<lambda>tab.
       rbind (aset (fst s) (unat l) (p + 1)) (\<lambda>pos. Inr (Some (pos, tab)))))
     else Inr (Some s))"

text \<open>
  The members \<^verbatim>\<open>nFastSymbol\<close> and \<^verbatim>\<open>nStartIndex\<close> are not written before
  \<^verbatim>\<open>em_lsb_huffman_decoder_finalize_table\<close> writes all of them: they are empty until then.
\<close>

definition em_lsb_huffman_decoder_prepare_table :: "uint32 list \<Rightarrow> int \<Rightarrow> int \<Rightarrow> byte list
    \<Rightarrow> (huffman_decoder \<times> uint32 list) ret" where
  "em_lsb_huffman_decoder_prepare_table pRevSymbolTable nReadSymbols nSyms pCodeLength =
     (if nReadSymbols < 0 \<or> nReadSymbols > MAX_SYMBOLS \<or> nSyms < 0 \<or> nSyms > MAX_SYMBOLS
         \<or> nReadSymbols > nSyms then Inr None
      else
        obind (for_each (count_length pCodeLength) [0..<nat nReadSymbols] (replicate 16 0)) (\<lambda>n.
        obind (for_each (place_length n) [1..<16] (replicate 16 0, 0)) (\<lambda>(pos, sorted).
        obind (for_each (\<lambda>i t. rbind (aset t i (-1)) (\<lambda>t. Inr (Some t))) [0..<nat nSyms] pRevSymbolTable)
          (\<lambda>tab.
        obind (for_each (place_symbol pCodeLength) [0..<nat nReadSymbols] (pos, tab)) (\<lambda>(pos, tab).
        Inr (Some (\<lparr>nFastSymbol = [], nStartIndex = [], nSymbols = nat nSyms, nNumSorted = sorted,
                    nStartingPos = pos\<rparr>, tab)))))))"

definition reverse_word :: "uint32 \<Rightarrow> nat \<Rightarrow> uint32" where
  "reverse_word nCanonicalCodeWord nCanonicalLength =
     (let w = shl (nCanonicalCodeWord AND 0x5555) 1 OR shr (nCanonicalCodeWord AND 0xaaaa) 1;
          w = shl (w AND 0x3333) 2 OR shr (w AND 0xcccc) 2;
          w = shl (w AND 0x0f0f) 4 OR shr (w AND 0xf0f0) 4;
          w = shl (w AND 0x00ff) 8 OR shr (w AND 0xff00) 8
      in shr w (16 - nCanonicalLength))"

definition fill_slot :: "nat \<Rightarrow> uint32 \<Rightarrow> nat \<Rightarrow> uint32 list \<times> uint32 \<Rightarrow> (uint32 list \<times> uint32) ret" where
  "fill_slot nCanonicalLength v k s =
     rbind (aset (fst s) (unat (snd s)) v) (\<lambda>fast. Inr (Some (fast, snd s + shl 1 nCanonicalLength)))"

text \<open>The state of the table loops: the reverse table, the fast table, the codeword.\<close>

definition finalize_symbol :: "huffman_decoder \<Rightarrow> nat \<Rightarrow> nat \<Rightarrow> uint32 list \<times> uint32 list \<times> uint32
    \<Rightarrow> (uint32 list \<times> uint32 list \<times> uint32) ret" where
  "finalize_symbol d nCanonicalLength i s =
     (let (tab, fast, code) = s in
      if i \<ge> nSymbols d then Inr None
      else rbind (aset tab (nSymbols d + i) (of_nat nCanonicalLength)) (\<lambda>tab.
        if code \<ge> shl 1 nCanonicalLength then Inr None
        else obind (if nCanonicalLength \<le> NFASTSYMBOLBITS then
                      rbind (aget tab i) (\<lambda>v.
                      obind (for_each (fill_slot nCanonicalLength
                                         ((v AND 0xffffff) OR shl (of_nat nCanonicalLength) 24))
                               [0..<2 ^ (NFASTSYMBOLBITS - nCanonicalLength)]
                               (fast, reverse_word code nCanonicalLength)) (\<lambda>s.
                      Inr (Some (fst s))))
                    else Inr (Some fast)) (\<lambda>fast.
             Inr (Some (tab, fast, code + 1)))))"

text \<open>
  One turn of the outer loop, for the lengths from 1 on: nothing once all symbols are done, failure
  when there are still symbols left at length 16. The state has the start indices and the number of
  symbols done in front.
\<close>

definition finalize_length :: "huffman_decoder \<Rightarrow> nat
    \<Rightarrow> uint32 list \<times> nat \<times> uint32 list \<times> uint32 list \<times> uint32
    \<Rightarrow> (uint32 list \<times> nat \<times> uint32 list \<times> uint32 list \<times> uint32) ret" where
  "finalize_length d nCanonicalLength s =
     (let (start, i, tab, fast, code) = s in
      if i < nNumSorted d then
        (if nCanonicalLength \<ge> 16 then Inr None
         else rbind (aset start nCanonicalLength (of_nat i - code)) (\<lambda>start.
              rbind (aget (nStartingPos d) nCanonicalLength) (\<lambda>last.
              obind (for_each (finalize_symbol d nCanonicalLength) [i..<last] (tab, fast, code))
                (\<lambda>(tab, fast, code).
              Inr (Some (start, max i last, tab, fast, shl code 1))))))
      else Inr (Some s))"

definition clear_symbol :: "huffman_decoder \<Rightarrow> nat \<Rightarrow> uint32 list \<Rightarrow> uint32 list ret" where
  "clear_symbol d i tab =
     rbind (aset tab i (-1)) (\<lambda>tab. rbind (aset tab (nSymbols d + i) 0) (\<lambda>tab. Inr (Some tab)))"

definition em_lsb_huffman_decoder_finalize_table :: "huffman_decoder \<Rightarrow> uint32 list
    \<Rightarrow> (huffman_decoder \<times> uint32 list) ret" where
  "em_lsb_huffman_decoder_finalize_table d pRevSymbolTable =
     obind (for_each (finalize_length d) [1..<17]
              (replicate 16 0, 0, pRevSymbolTable, replicate (2 ^ NFASTSYMBOLBITS) 0, 0))
       (\<lambda>(start, i, tab, fast, code).
     obind (for_each (clear_symbol d) [i..<nSymbols d] tab) (\<lambda>tab.
     Inr (Some (d\<lparr>nFastSymbol := fast, nStartIndex := start\<rparr>, tab))))"

section \<open>Decoding a symbol\<close>

fun read_slow :: "huffman_decoder \<Rightarrow> uint32 list \<Rightarrow> bitreader \<Rightarrow> uint32 \<Rightarrow> uint32 \<Rightarrow> nat list
    \<Rightarrow> (uint32 \<times> bitreader) res" where
  "read_slow d tab br nStream nCodeWord [] = Inr (-1, br)"
| "read_slow d tab br nStream nCodeWord (nBits # more_bits) =
     (let nCodeWord = nCodeWord OR (nStream AND 1) in
      rbind (aget (nStartIndex d) nBits) (\<lambda>s.
      let nTableIndex = s + nCodeWord in
      rbind (if unat nTableIndex < nSymbols d
             then rbind (aget tab (nSymbols d + unat nTableIndex)) (\<lambda>l. Inr (of_nat nBits = l))
             else Inr False) (\<lambda>hit.
      if hit then rbind (aget tab (unat nTableIndex)) (\<lambda>v. Inr (v, em_lsb_bitreader_consume_bits nBits br))
      else read_slow d tab br (shr nStream 1) (shl nCodeWord 1) more_bits)))"

definition em_lsb_huffman_decoder_read_value :: "byte list \<Rightarrow> huffman_decoder \<Rightarrow> uint32 list \<Rightarrow> bitreader
    \<Rightarrow> (uint32 \<times> bitreader) res" where
  "em_lsb_huffman_decoder_read_value mem d pRevSymbolTable br =
     rbind (em_lsb_bitreader_peek_16bits mem br) (\<lambda>(nStream, br).
     rbind (aget (nFastSymbol d) (unat (nStream AND (shl 1 NFASTSYMBOLBITS - 1)))) (\<lambda>nFastSymAndBits.
     if nFastSymAndBits \<noteq> 0 then
       Inr (nFastSymAndBits AND 0xffffff,
            em_lsb_bitreader_consume_bits (unat (shr nFastSymAndBits 24)) br)
     else read_slow d pRevSymbolTable br nStream 0 [1..<16]))"

section \<open>Reading code lengths\<close>

definition nCodeLenSymIndex :: "nat list" where
  "nCodeLenSymIndex = [16, 17, 18, 0, 8, 7, 9, 6, 10, 5, 11, 4, 12, 3, 13, 2, 14, 1, 15]"

definition read_raw_length :: "byte list \<Rightarrow> nat \<Rightarrow> nat \<Rightarrow> byte list \<times> bitreader
    \<Rightarrow> (byte list \<times> bitreader) ret" where
  "read_raw_length mem nLenBits i s =
     rbind (em_lsb_bitreader_get_bits mem nLenBits (snd s)) (\<lambda>(nLength, br).
     if nLength = -1 then Inr None
     else rbind (aget nCodeLenSymIndex i) (\<lambda>k.
          rbind (aset (fst s) k (ucast nLength)) (\<lambda>lens. Inr (Some (lens, br)))))"

definition em_lsb_huffman_decoder_read_raw_lengths :: "byte list \<Rightarrow> nat \<Rightarrow> int \<Rightarrow> int \<Rightarrow> byte list
    \<Rightarrow> bitreader \<Rightarrow> (byte list \<times> bitreader) ret" where
  "em_lsb_huffman_decoder_read_raw_lengths mem nLenBits nReadSymbols nSyms pCodeLength br =
     (if nReadSymbols < 0 \<or> nReadSymbols > MAX_SYMBOLS \<or> nSyms < 0 \<or> nSyms > MAX_SYMBOLS
         \<or> nReadSymbols > nSyms then Inr None
      else
        obind (for_each (read_raw_length mem nLenBits) [0..<nat nReadSymbols] (pCodeLength, br))
          (\<lambda>(lens, br).
        obind (for_each (\<lambda>i t. rbind (aget nCodeLenSymIndex i) (\<lambda>k.
                               rbind (aset t k 0) (\<lambda>t. Inr (Some t))))
                 [nat nReadSymbols..<nat nSyms] lens) (\<lambda>lens. Inr (Some (lens, br)))))"

text \<open>The run length, the length to repeat and the reader after a run code.\<close>

definition read_len_run :: "byte list \<Rightarrow> uint32 \<Rightarrow> uint32 \<Rightarrow> bitreader \<Rightarrow> (uint32 \<times> uint32 \<times> bitreader) ret" where
  "read_len_run mem nLength nPrevLength br =
     (if nLength = 16 then
        rbind (em_lsb_bitreader_get_bits mem 2 br) (\<lambda>(nExtraRunLen, br).
        if nExtraRunLen = -1 then Inr None else Inr (Some (3 + nExtraRunLen, nPrevLength, br)))
      else if nLength = 17 then
        rbind (em_lsb_bitreader_get_bits mem 3 br) (\<lambda>(nExtraRunLen, br).
        if nExtraRunLen = -1 then Inr None else Inr (Some (3 + nExtraRunLen, 0, br)))
      else if nLength = 18 then
        rbind (em_lsb_bitreader_get_bits mem 7 br) (\<lambda>(nExtraRunLen, br).
        if nExtraRunLen = -1 then Inr None else Inr (Some (11 + nExtraRunLen, 0, br)))
      else Inr (Some (0, nPrevLength, br)))"

fun var_lengths :: "nat \<Rightarrow> byte list \<Rightarrow> huffman_decoder \<Rightarrow> uint32 list \<Rightarrow> nat \<Rightarrow> nat \<Rightarrow> uint32
    \<Rightarrow> byte list \<Rightarrow> bitreader \<Rightarrow> (byte list \<times> bitreader) ret" where
  "var_lengths fuel mem d tab nReadSymbols i nPrevLength pCodeLength br =
     (if i < nReadSymbols then
        (case fuel of 0 \<Rightarrow> Inl Hang
         | Suc fuel \<Rightarrow>
           rbind (em_lsb_huffman_decoder_read_value mem d tab br) (\<lambda>(nLength, br).
           if nLength = -1 then Inr None
           else if nLength < 16 then
             rbind (aset pCodeLength i (ucast nLength)) (\<lambda>lens.
             var_lengths fuel mem d tab nReadSymbols (i + 1) nLength lens br)
           else
             obind (read_len_run mem nLength nPrevLength br) (\<lambda>(nRunLen, nPrevLength, br).
             let last = min (i + unat nRunLen) nReadSymbols in
             obind (for_each (\<lambda>k t. rbind (aset t k (ucast nPrevLength)) (\<lambda>t. Inr (Some t))) [i..<last]
                      pCodeLength) (\<lambda>lens.
             var_lengths fuel mem d tab nReadSymbols last nPrevLength lens br))))
      else Inr (Some (pCodeLength, br)))"

declare var_lengths.simps [simp del]

definition em_lsb_huffman_decoder_read_var_lengths :: "byte list \<Rightarrow> huffman_decoder \<Rightarrow> uint32 list \<Rightarrow> int
    \<Rightarrow> int \<Rightarrow> byte list \<Rightarrow> bitreader \<Rightarrow> (byte list \<times> bitreader) ret" where
  "em_lsb_huffman_decoder_read_var_lengths mem d tab nReadSymbols nSyms pCodeLength br =
     (if nReadSymbols < 0 \<or> nSyms < 0 \<or> nReadSymbols > nSyms then Inr None
      else
        obind (var_lengths (nat nReadSymbols) mem d tab (nat nReadSymbols) 0 0 pCodeLength br)
          (\<lambda>(lens, br).
        obind (for_each (\<lambda>i t. rbind (aset t i 0) (\<lambda>t. Inr (Some t))) [nat nReadSymbols..<nat nSyms] lens)
          (\<lambda>lens. Inr (Some (lens, br)))))"

end
