(* ===== verification/Checksum.thy ===== *)
theory Checksum
  imports Host
begin

unbundle bit_operations_syntax

text \<open>
  The two checksums of \<^verbatim>\<open>deps/em_inflate/em_inflate.c\<close>: Adler-32 of zlib streams with its deferred
  reductions, and the CRC-32 of gzip streams, four bytes at a time over four lookup tables. Both are
  proved equal to the byte by byte, bit by bit definitions of RFC 1950 and RFC 1952. In the 32-bit
  build \<^verbatim>\<open>unsigned long\<close> has 32 bits, so both Adler sums wrap at that width and the block length
  \<^verbatim>\<open>NMAX\<close> matters.
\<close>

section \<open>Adler-32\<close>

abbreviation (input) BASE :: uint32 where "BASE \<equiv> 65521"
abbreviation (input) NMAX :: nat where "NMAX \<equiv> 5552"

definition DO1 :: "uint32 \<times> uint32 \<Rightarrow> byte list \<Rightarrow> nat \<Rightarrow> uint32 \<times> uint32" where
  "DO1 s buf i = (let adler = fst s + ucast (buf ! i) in (adler, snd s + adler))"

definition DO2 :: "uint32 \<times> uint32 \<Rightarrow> byte list \<Rightarrow> nat \<Rightarrow> uint32 \<times> uint32" where
  "DO2 s buf i = DO1 (DO1 s buf i) buf (i + 1)"

definition DO4 :: "uint32 \<times> uint32 \<Rightarrow> byte list \<Rightarrow> nat \<Rightarrow> uint32 \<times> uint32" where
  "DO4 s buf i = DO2 (DO2 s buf i) buf (i + 2)"

definition DO8 :: "uint32 \<times> uint32 \<Rightarrow> byte list \<Rightarrow> nat \<Rightarrow> uint32 \<times> uint32" where
  "DO8 s buf i = DO4 (DO4 s buf i) buf (i + 4)"

definition DO16 :: "uint32 \<times> uint32 \<Rightarrow> byte list \<Rightarrow> uint32 \<times> uint32" where
  "DO16 s buf = DO8 (DO8 s buf 0) buf 8"

text \<open>The loops: one byte at a time, sixteen at a time \<^verbatim>\<open>n\<close> times, while sixteen remain.\<close>

fun adler_bytes :: "uint32 \<times> uint32 \<Rightarrow> byte list \<Rightarrow> uint32 \<times> uint32" where
  "adler_bytes s [] = s"
| "adler_bytes s (b # buf) = adler_bytes (DO1 s (b # buf) 0) buf"

fun adler_do16 :: "nat \<Rightarrow> uint32 \<times> uint32 \<Rightarrow> byte list \<Rightarrow> uint32 \<times> uint32" where
  "adler_do16 0 s buf = s"
| "adler_do16 (Suc n) s buf = adler_do16 n (DO16 s buf) (drop 16 buf)"

definition MOD2 :: "uint32 \<times> uint32 \<Rightarrow> uint32 \<times> uint32" where
  "MOD2 s = (fst s mod BASE, snd s mod BASE)"

function adler_nmax :: "uint32 \<times> uint32 \<Rightarrow> byte list \<Rightarrow> (uint32 \<times> uint32) \<times> byte list" where
  "adler_nmax s buf = (if NMAX \<le> length buf
     then adler_nmax (MOD2 (adler_do16 (NMAX div 16) s buf)) (drop NMAX buf)
     else (s, buf))"
  by pat_completeness auto
termination by (relation "measure (\<lambda>(s, buf). length buf)") auto

declare adler_nmax.simps [simp del]

function adler_rest :: "uint32 \<times> uint32 \<Rightarrow> byte list \<Rightarrow> uint32 \<times> uint32" where
  "adler_rest s buf = (if 16 \<le> length buf then adler_rest (DO16 s buf) (drop 16 buf)
                       else adler_bytes s buf)"
  by pat_completeness auto
termination by (relation "measure (\<lambda>(s, buf). length buf)") auto

declare adler_rest.simps [simp del]

definition adler_join :: "uint32 \<times> uint32 \<Rightarrow> uint32" where
  "adler_join s = fst s OR shl (snd s) 16"

text \<open>The conditional subtraction that stands for a reduction of a value below twice the base.\<close>

definition sub_base :: "uint32 \<Rightarrow> uint32" where
  "sub_base x = (if x \<ge> BASE then x - BASE else x)"

text \<open>The buffer is null or the \<^verbatim>\<open>len\<close> bytes it points to.\<close>

definition em_inflate_adler32_z :: "uint32 \<Rightarrow> byte list option \<Rightarrow> uint32" where
  "em_inflate_adler32_z adler buf =
     (case buf of None \<Rightarrow> 1
      | Some buf \<Rightarrow>
        (let sum2 = shr adler 16 AND 0xffff;
             adler = adler AND 0xffff
         in if length buf = 1 then
              (let adler = sub_base (adler + ucast (buf ! 0));
                   sum2 = sub_base (sum2 + adler)
               in adler_join (adler, sum2))
            else if length buf < 16 then
              (let (adler, sum2) = adler_bytes (adler, sum2) buf
               in adler_join (sub_base adler, sum2 mod BASE))
            else
              (let (s, buf) = adler_nmax (adler, sum2) buf
               in adler_join (if buf \<noteq> [] then MOD2 (adler_rest s buf) else s))))"

section \<open>CRC-32\<close>

definition ema_inflate_Crc32Lookup :: "uint32 list list" where
  "ema_inflate_Crc32Lookup = [
  [0, 0x77073096, 0xEE0E612C, 0x990951BA, 0x076DC419, 0x706AF48F, 0xE963A535, 0x9E6495A3,
    0x0EDB8832, 0x79DCB8A4, 0xE0D5E91E, 0x97D2D988, 0x09B64C2B, 0x7EB17CBD, 0xE7B82D07, 0x90BF1D91,
    0x1DB71064, 0x6AB020F2, 0xF3B97148, 0x84BE41DE, 0x1ADAD47D, 0x6DDDE4EB, 0xF4D4B551, 0x83D385C7,
    0x136C9856, 0x646BA8C0, 0xFD62F97A, 0x8A65C9EC, 0x14015C4F, 0x63066CD9, 0xFA0F3D63, 0x8D080DF5,
    0x3B6E20C8, 0x4C69105E, 0xD56041E4, 0xA2677172, 0x3C03E4D1, 0x4B04D447, 0xD20D85FD, 0xA50AB56B,
    0x35B5A8FA, 0x42B2986C, 0xDBBBC9D6, 0xACBCF940, 0x32D86CE3, 0x45DF5C75, 0xDCD60DCF, 0xABD13D59,
    0x26D930AC, 0x51DE003A, 0xC8D75180, 0xBFD06116, 0x21B4F4B5, 0x56B3C423, 0xCFBA9599, 0xB8BDA50F,
    0x2802B89E, 0x5F058808, 0xC60CD9B2, 0xB10BE924, 0x2F6F7C87, 0x58684C11, 0xC1611DAB, 0xB6662D3D,
    0x76DC4190, 0x01DB7106, 0x98D220BC, 0xEFD5102A, 0x71B18589, 0x06B6B51F, 0x9FBFE4A5, 0xE8B8D433,
    0x7807C9A2, 0x0F00F934, 0x9609A88E, 0xE10E9818, 0x7F6A0DBB, 0x086D3D2D, 0x91646C97, 0xE6635C01,
    0x6B6B51F4, 0x1C6C6162, 0x856530D8, 0xF262004E, 0x6C0695ED, 0x1B01A57B, 0x8208F4C1, 0xF50FC457,
    0x65B0D9C6, 0x12B7E950, 0x8BBEB8EA, 0xFCB9887C, 0x62DD1DDF, 0x15DA2D49, 0x8CD37CF3, 0xFBD44C65,
    0x4DB26158, 0x3AB551CE, 0xA3BC0074, 0xD4BB30E2, 0x4ADFA541, 0x3DD895D7, 0xA4D1C46D, 0xD3D6F4FB,
    0x4369E96A, 0x346ED9FC, 0xAD678846, 0xDA60B8D0, 0x44042D73, 0x33031DE5, 0xAA0A4C5F, 0xDD0D7CC9,
    0x5005713C, 0x270241AA, 0xBE0B1010, 0xC90C2086, 0x5768B525, 0x206F85B3, 0xB966D409, 0xCE61E49F,
    0x5EDEF90E, 0x29D9C998, 0xB0D09822, 0xC7D7A8B4, 0x59B33D17, 0x2EB40D81, 0xB7BD5C3B, 0xC0BA6CAD,
    0xEDB88320, 0x9ABFB3B6, 0x03B6E20C, 0x74B1D29A, 0xEAD54739, 0x9DD277AF, 0x04DB2615, 0x73DC1683,
    0xE3630B12, 0x94643B84, 0x0D6D6A3E, 0x7A6A5AA8, 0xE40ECF0B, 0x9309FF9D, 0x0A00AE27, 0x7D079EB1,
    0xF00F9344, 0x8708A3D2, 0x1E01F268, 0x6906C2FE, 0xF762575D, 0x806567CB, 0x196C3671, 0x6E6B06E7,
    0xFED41B76, 0x89D32BE0, 0x10DA7A5A, 0x67DD4ACC, 0xF9B9DF6F, 0x8EBEEFF9, 0x17B7BE43, 0x60B08ED5,
    0xD6D6A3E8, 0xA1D1937E, 0x38D8C2C4, 0x4FDFF252, 0xD1BB67F1, 0xA6BC5767, 0x3FB506DD, 0x48B2364B,
    0xD80D2BDA, 0xAF0A1B4C, 0x36034AF6, 0x41047A60, 0xDF60EFC3, 0xA867DF55, 0x316E8EEF, 0x4669BE79,
    0xCB61B38C, 0xBC66831A, 0x256FD2A0, 0x5268E236, 0xCC0C7795, 0xBB0B4703, 0x220216B9, 0x5505262F,
    0xC5BA3BBE, 0xB2BD0B28, 0x2BB45A92, 0x5CB36A04, 0xC2D7FFA7, 0xB5D0CF31, 0x2CD99E8B, 0x5BDEAE1D,
    0x9B64C2B0, 0xEC63F226, 0x756AA39C, 0x026D930A, 0x9C0906A9, 0xEB0E363F, 0x72076785, 0x05005713,
    0x95BF4A82, 0xE2B87A14, 0x7BB12BAE, 0x0CB61B38, 0x92D28E9B, 0xE5D5BE0D, 0x7CDCEFB7, 0x0BDBDF21,
    0x86D3D2D4, 0xF1D4E242, 0x68DDB3F8, 0x1FDA836E, 0x81BE16CD, 0xF6B9265B, 0x6FB077E1, 0x18B74777,
    0x88085AE6, 0xFF0F6A70, 0x66063BCA, 0x11010B5C, 0x8F659EFF, 0xF862AE69, 0x616BFFD3, 0x166CCF45,
    0xA00AE278, 0xD70DD2EE, 0x4E048354, 0x3903B3C2, 0xA7672661, 0xD06016F7, 0x4969474D, 0x3E6E77DB,
    0xAED16A4A, 0xD9D65ADC, 0x40DF0B66, 0x37D83BF0, 0xA9BCAE53, 0xDEBB9EC5, 0x47B2CF7F, 0x30B5FFE9,
    0xBDBDF21C, 0xCABAC28A, 0x53B39330, 0x24B4A3A6, 0xBAD03605, 0xCDD70693, 0x54DE5729, 0x23D967BF,
    0xB3667A2E, 0xC4614AB8, 0x5D681B02, 0x2A6F2B94, 0xB40BBE37, 0xC30C8EA1, 0x5A05DF1B, 0x2D02EF8D],
  [0, 0x191B3141, 0x32366282, 0x2B2D53C3, 0x646CC504, 0x7D77F445, 0x565AA786, 0x4F4196C7,
    0xC8D98A08, 0xD1C2BB49, 0xFAEFE88A, 0xE3F4D9CB, 0xACB54F0C, 0xB5AE7E4D, 0x9E832D8E, 0x87981CCF,
    0x4AC21251, 0x53D92310, 0x78F470D3, 0x61EF4192, 0x2EAED755, 0x37B5E614, 0x1C98B5D7, 0x05838496,
    0x821B9859, 0x9B00A918, 0xB02DFADB, 0xA936CB9A, 0xE6775D5D, 0xFF6C6C1C, 0xD4413FDF, 0xCD5A0E9E,
    0x958424A2, 0x8C9F15E3, 0xA7B24620, 0xBEA97761, 0xF1E8E1A6, 0xE8F3D0E7, 0xC3DE8324, 0xDAC5B265,
    0x5D5DAEAA, 0x44469FEB, 0x6F6BCC28, 0x7670FD69, 0x39316BAE, 0x202A5AEF, 0x0B07092C, 0x121C386D,
    0xDF4636F3, 0xC65D07B2, 0xED705471, 0xF46B6530, 0xBB2AF3F7, 0xA231C2B6, 0x891C9175, 0x9007A034,
    0x179FBCFB, 0x0E848DBA, 0x25A9DE79, 0x3CB2EF38, 0x73F379FF, 0x6AE848BE, 0x41C51B7D, 0x58DE2A3C,
    0xF0794F05, 0xE9627E44, 0xC24F2D87, 0xDB541CC6, 0x94158A01, 0x8D0EBB40, 0xA623E883, 0xBF38D9C2,
    0x38A0C50D, 0x21BBF44C, 0x0A96A78F, 0x138D96CE, 0x5CCC0009, 0x45D73148, 0x6EFA628B, 0x77E153CA,
    0xBABB5D54, 0xA3A06C15, 0x888D3FD6, 0x91960E97, 0xDED79850, 0xC7CCA911, 0xECE1FAD2, 0xF5FACB93,
    0x7262D75C, 0x6B79E61D, 0x4054B5DE, 0x594F849F, 0x160E1258, 0x0F152319, 0x243870DA, 0x3D23419B,
    0x65FD6BA7, 0x7CE65AE6, 0x57CB0925, 0x4ED03864, 0x0191AEA3, 0x188A9FE2, 0x33A7CC21, 0x2ABCFD60,
    0xAD24E1AF, 0xB43FD0EE, 0x9F12832D, 0x8609B26C, 0xC94824AB, 0xD05315EA, 0xFB7E4629, 0xE2657768,
    0x2F3F79F6, 0x362448B7, 0x1D091B74, 0x04122A35, 0x4B53BCF2, 0x52488DB3, 0x7965DE70, 0x607EEF31,
    0xE7E6F3FE, 0xFEFDC2BF, 0xD5D0917C, 0xCCCBA03D, 0x838A36FA, 0x9A9107BB, 0xB1BC5478, 0xA8A76539,
    0x3B83984B, 0x2298A90A, 0x09B5FAC9, 0x10AECB88, 0x5FEF5D4F, 0x46F46C0E, 0x6DD93FCD, 0x74C20E8C,
    0xF35A1243, 0xEA412302, 0xC16C70C1, 0xD8774180, 0x9736D747, 0x8E2DE606, 0xA500B5C5, 0xBC1B8484,
    0x71418A1A, 0x685ABB5B, 0x4377E898, 0x5A6CD9D9, 0x152D4F1E, 0x0C367E5F, 0x271B2D9C, 0x3E001CDD,
    0xB9980012, 0xA0833153, 0x8BAE6290, 0x92B553D1, 0xDDF4C516, 0xC4EFF457, 0xEFC2A794, 0xF6D996D5,
    0xAE07BCE9, 0xB71C8DA8, 0x9C31DE6B, 0x852AEF2A, 0xCA6B79ED, 0xD37048AC, 0xF85D1B6F, 0xE1462A2E,
    0x66DE36E1, 0x7FC507A0, 0x54E85463, 0x4DF36522, 0x02B2F3E5, 0x1BA9C2A4, 0x30849167, 0x299FA026,
    0xE4C5AEB8, 0xFDDE9FF9, 0xD6F3CC3A, 0xCFE8FD7B, 0x80A96BBC, 0x99B25AFD, 0xB29F093E, 0xAB84387F,
    0x2C1C24B0, 0x350715F1, 0x1E2A4632, 0x07317773, 0x4870E1B4, 0x516BD0F5, 0x7A468336, 0x635DB277,
    0xCBFAD74E, 0xD2E1E60F, 0xF9CCB5CC, 0xE0D7848D, 0xAF96124A, 0xB68D230B, 0x9DA070C8, 0x84BB4189,
    0x03235D46, 0x1A386C07, 0x31153FC4, 0x280E0E85, 0x674F9842, 0x7E54A903, 0x5579FAC0, 0x4C62CB81,
    0x8138C51F, 0x9823F45E, 0xB30EA79D, 0xAA1596DC, 0xE554001B, 0xFC4F315A, 0xD7626299, 0xCE7953D8,
    0x49E14F17, 0x50FA7E56, 0x7BD72D95, 0x62CC1CD4, 0x2D8D8A13, 0x3496BB52, 0x1FBBE891, 0x06A0D9D0,
    0x5E7EF3EC, 0x4765C2AD, 0x6C48916E, 0x7553A02F, 0x3A1236E8, 0x230907A9, 0x0824546A, 0x113F652B,
    0x96A779E4, 0x8FBC48A5, 0xA4911B66, 0xBD8A2A27, 0xF2CBBCE0, 0xEBD08DA1, 0xC0FDDE62, 0xD9E6EF23,
    0x14BCE1BD, 0x0DA7D0FC, 0x268A833F, 0x3F91B27E, 0x70D024B9, 0x69CB15F8, 0x42E6463B, 0x5BFD777A,
    0xDC656BB5, 0xC57E5AF4, 0xEE530937, 0xF7483876, 0xB809AEB1, 0xA1129FF0, 0x8A3FCC33, 0x9324FD72],
  [0, 0x01C26A37, 0x0384D46E, 0x0246BE59, 0x0709A8DC, 0x06CBC2EB, 0x048D7CB2, 0x054F1685,
    0x0E1351B8, 0x0FD13B8F, 0x0D9785D6, 0x0C55EFE1, 0x091AF964, 0x08D89353, 0x0A9E2D0A, 0x0B5C473D,
    0x1C26A370, 0x1DE4C947, 0x1FA2771E, 0x1E601D29, 0x1B2F0BAC, 0x1AED619B, 0x18ABDFC2, 0x1969B5F5,
    0x1235F2C8, 0x13F798FF, 0x11B126A6, 0x10734C91, 0x153C5A14, 0x14FE3023, 0x16B88E7A, 0x177AE44D,
    0x384D46E0, 0x398F2CD7, 0x3BC9928E, 0x3A0BF8B9, 0x3F44EE3C, 0x3E86840B, 0x3CC03A52, 0x3D025065,
    0x365E1758, 0x379C7D6F, 0x35DAC336, 0x3418A901, 0x3157BF84, 0x3095D5B3, 0x32D36BEA, 0x331101DD,
    0x246BE590, 0x25A98FA7, 0x27EF31FE, 0x262D5BC9, 0x23624D4C, 0x22A0277B, 0x20E69922, 0x2124F315,
    0x2A78B428, 0x2BBADE1F, 0x29FC6046, 0x283E0A71, 0x2D711CF4, 0x2CB376C3, 0x2EF5C89A, 0x2F37A2AD,
    0x709A8DC0, 0x7158E7F7, 0x731E59AE, 0x72DC3399, 0x7793251C, 0x76514F2B, 0x7417F172, 0x75D59B45,
    0x7E89DC78, 0x7F4BB64F, 0x7D0D0816, 0x7CCF6221, 0x798074A4, 0x78421E93, 0x7A04A0CA, 0x7BC6CAFD,
    0x6CBC2EB0, 0x6D7E4487, 0x6F38FADE, 0x6EFA90E9, 0x6BB5866C, 0x6A77EC5B, 0x68315202, 0x69F33835,
    0x62AF7F08, 0x636D153F, 0x612BAB66, 0x60E9C151, 0x65A6D7D4, 0x6464BDE3, 0x662203BA, 0x67E0698D,
    0x48D7CB20, 0x4915A117, 0x4B531F4E, 0x4A917579, 0x4FDE63FC, 0x4E1C09CB, 0x4C5AB792, 0x4D98DDA5,
    0x46C49A98, 0x4706F0AF, 0x45404EF6, 0x448224C1, 0x41CD3244, 0x400F5873, 0x4249E62A, 0x438B8C1D,
    0x54F16850, 0x55330267, 0x5775BC3E, 0x56B7D609, 0x53F8C08C, 0x523AAABB, 0x507C14E2, 0x51BE7ED5,
    0x5AE239E8, 0x5B2053DF, 0x5966ED86, 0x58A487B1, 0x5DEB9134, 0x5C29FB03, 0x5E6F455A, 0x5FAD2F6D,
    0xE1351B80, 0xE0F771B7, 0xE2B1CFEE, 0xE373A5D9, 0xE63CB35C, 0xE7FED96B, 0xE5B86732, 0xE47A0D05,
    0xEF264A38, 0xEEE4200F, 0xECA29E56, 0xED60F461, 0xE82FE2E4, 0xE9ED88D3, 0xEBAB368A, 0xEA695CBD,
    0xFD13B8F0, 0xFCD1D2C7, 0xFE976C9E, 0xFF5506A9, 0xFA1A102C, 0xFBD87A1B, 0xF99EC442, 0xF85CAE75,
    0xF300E948, 0xF2C2837F, 0xF0843D26, 0xF1465711, 0xF4094194, 0xF5CB2BA3, 0xF78D95FA, 0xF64FFFCD,
    0xD9785D60, 0xD8BA3757, 0xDAFC890E, 0xDB3EE339, 0xDE71F5BC, 0xDFB39F8B, 0xDDF521D2, 0xDC374BE5,
    0xD76B0CD8, 0xD6A966EF, 0xD4EFD8B6, 0xD52DB281, 0xD062A404, 0xD1A0CE33, 0xD3E6706A, 0xD2241A5D,
    0xC55EFE10, 0xC49C9427, 0xC6DA2A7E, 0xC7184049, 0xC25756CC, 0xC3953CFB, 0xC1D382A2, 0xC011E895,
    0xCB4DAFA8, 0xCA8FC59F, 0xC8C97BC6, 0xC90B11F1, 0xCC440774, 0xCD866D43, 0xCFC0D31A, 0xCE02B92D,
    0x91AF9640, 0x906DFC77, 0x922B422E, 0x93E92819, 0x96A63E9C, 0x976454AB, 0x9522EAF2, 0x94E080C5,
    0x9FBCC7F8, 0x9E7EADCF, 0x9C381396, 0x9DFA79A1, 0x98B56F24, 0x99770513, 0x9B31BB4A, 0x9AF3D17D,
    0x8D893530, 0x8C4B5F07, 0x8E0DE15E, 0x8FCF8B69, 0x8A809DEC, 0x8B42F7DB, 0x89044982, 0x88C623B5,
    0x839A6488, 0x82580EBF, 0x801EB0E6, 0x81DCDAD1, 0x8493CC54, 0x8551A663, 0x8717183A, 0x86D5720D,
    0xA9E2D0A0, 0xA820BA97, 0xAA6604CE, 0xABA46EF9, 0xAEEB787C, 0xAF29124B, 0xAD6FAC12, 0xACADC625,
    0xA7F18118, 0xA633EB2F, 0xA4755576, 0xA5B73F41, 0xA0F829C4, 0xA13A43F3, 0xA37CFDAA, 0xA2BE979D,
    0xB5C473D0, 0xB40619E7, 0xB640A7BE, 0xB782CD89, 0xB2CDDB0C, 0xB30FB13B, 0xB1490F62, 0xB08B6555,
    0xBBD72268, 0xBA15485F, 0xB853F606, 0xB9919C31, 0xBCDE8AB4, 0xBD1CE083, 0xBF5A5EDA, 0xBE9834ED],
  [0, 0xB8BC6765, 0xAA09C88B, 0x12B5AFEE, 0x8F629757, 0x37DEF032, 0x256B5FDC, 0x9DD738B9,
    0xC5B428EF, 0x7D084F8A, 0x6FBDE064, 0xD7018701, 0x4AD6BFB8, 0xF26AD8DD, 0xE0DF7733, 0x58631056,
    0x5019579F, 0xE8A530FA, 0xFA109F14, 0x42ACF871, 0xDF7BC0C8, 0x67C7A7AD, 0x75720843, 0xCDCE6F26,
    0x95AD7F70, 0x2D111815, 0x3FA4B7FB, 0x8718D09E, 0x1ACFE827, 0xA2738F42, 0xB0C620AC, 0x087A47C9,
    0xA032AF3E, 0x188EC85B, 0x0A3B67B5, 0xB28700D0, 0x2F503869, 0x97EC5F0C, 0x8559F0E2, 0x3DE59787,
    0x658687D1, 0xDD3AE0B4, 0xCF8F4F5A, 0x7733283F, 0xEAE41086, 0x525877E3, 0x40EDD80D, 0xF851BF68,
    0xF02BF8A1, 0x48979FC4, 0x5A22302A, 0xE29E574F, 0x7F496FF6, 0xC7F50893, 0xD540A77D, 0x6DFCC018,
    0x359FD04E, 0x8D23B72B, 0x9F9618C5, 0x272A7FA0, 0xBAFD4719, 0x0241207C, 0x10F48F92, 0xA848E8F7,
    0x9B14583D, 0x23A83F58, 0x311D90B6, 0x89A1F7D3, 0x1476CF6A, 0xACCAA80F, 0xBE7F07E1, 0x06C36084,
    0x5EA070D2, 0xE61C17B7, 0xF4A9B859, 0x4C15DF3C, 0xD1C2E785, 0x697E80E0, 0x7BCB2F0E, 0xC377486B,
    0xCB0D0FA2, 0x73B168C7, 0x6104C729, 0xD9B8A04C, 0x446F98F5, 0xFCD3FF90, 0xEE66507E, 0x56DA371B,
    0x0EB9274D, 0xB6054028, 0xA4B0EFC6, 0x1C0C88A3, 0x81DBB01A, 0x3967D77F, 0x2BD27891, 0x936E1FF4,
    0x3B26F703, 0x839A9066, 0x912F3F88, 0x299358ED, 0xB4446054, 0x0CF80731, 0x1E4DA8DF, 0xA6F1CFBA,
    0xFE92DFEC, 0x462EB889, 0x549B1767, 0xEC277002, 0x71F048BB, 0xC94C2FDE, 0xDBF98030, 0x6345E755,
    0x6B3FA09C, 0xD383C7F9, 0xC1366817, 0x798A0F72, 0xE45D37CB, 0x5CE150AE, 0x4E54FF40, 0xF6E89825,
    0xAE8B8873, 0x1637EF16, 0x048240F8, 0xBC3E279D, 0x21E91F24, 0x99557841, 0x8BE0D7AF, 0x335CB0CA,
    0xED59B63B, 0x55E5D15E, 0x47507EB0, 0xFFEC19D5, 0x623B216C, 0xDA874609, 0xC832E9E7, 0x708E8E82,
    0x28ED9ED4, 0x9051F9B1, 0x82E4565F, 0x3A58313A, 0xA78F0983, 0x1F336EE6, 0x0D86C108, 0xB53AA66D,
    0xBD40E1A4, 0x05FC86C1, 0x1749292F, 0xAFF54E4A, 0x322276F3, 0x8A9E1196, 0x982BBE78, 0x2097D91D,
    0x78F4C94B, 0xC048AE2E, 0xD2FD01C0, 0x6A4166A5, 0xF7965E1C, 0x4F2A3979, 0x5D9F9697, 0xE523F1F2,
    0x4D6B1905, 0xF5D77E60, 0xE762D18E, 0x5FDEB6EB, 0xC2098E52, 0x7AB5E937, 0x680046D9, 0xD0BC21BC,
    0x88DF31EA, 0x3063568F, 0x22D6F961, 0x9A6A9E04, 0x07BDA6BD, 0xBF01C1D8, 0xADB46E36, 0x15080953,
    0x1D724E9A, 0xA5CE29FF, 0xB77B8611, 0x0FC7E174, 0x9210D9CD, 0x2AACBEA8, 0x38191146, 0x80A57623,
    0xD8C66675, 0x607A0110, 0x72CFAEFE, 0xCA73C99B, 0x57A4F122, 0xEF189647, 0xFDAD39A9, 0x45115ECC,
    0x764DEE06, 0xCEF18963, 0xDC44268D, 0x64F841E8, 0xF92F7951, 0x41931E34, 0x5326B1DA, 0xEB9AD6BF,
    0xB3F9C6E9, 0x0B45A18C, 0x19F00E62, 0xA14C6907, 0x3C9B51BE, 0x842736DB, 0x96929935, 0x2E2EFE50,
    0x2654B999, 0x9EE8DEFC, 0x8C5D7112, 0x34E11677, 0xA9362ECE, 0x118A49AB, 0x033FE645, 0xBB838120,
    0xE3E09176, 0x5B5CF613, 0x49E959FD, 0xF1553E98, 0x6C820621, 0xD43E6144, 0xC68BCEAA, 0x7E37A9CF,
    0xD67F4138, 0x6EC3265D, 0x7C7689B3, 0xC4CAEED6, 0x591DD66F, 0xE1A1B10A, 0xF3141EE4, 0x4BA87981,
    0x13CB69D7, 0xAB770EB2, 0xB9C2A15C, 0x017EC639, 0x9CA9FE80, 0x241599E5, 0x36A0360B, 0x8E1C516E,
    0x866616A7, 0x3EDA71C2, 0x2C6FDE2C, 0x94D3B949, 0x090481F0, 0xB1B8E695, 0xA30D497B, 0x1BB12E1E,
    0x43D23E48, 0xFB6E592D, 0xE9DBF6C3, 0x516791A6, 0xCCB0A91F, 0x740CCE7A, 0x66B96194, 0xDE0506F1]
  ]"

abbreviation lookup :: "nat \<Rightarrow> uint32 \<Rightarrow> uint32" where
  "lookup k i \<equiv> ema_inflate_Crc32Lookup ! k ! unat i"

text \<open>A little-endian load of four bytes.\<close>

definition le_load :: "byte list \<Rightarrow> uint32" where
  "le_load b = ucast (b ! 0) OR shl (ucast (b ! 1)) 8 OR shl (ucast (b ! 2)) 16 OR shl (ucast (b ! 3)) 24"

function crc32_words :: "uint32 \<Rightarrow> byte list \<Rightarrow> uint32 \<times> byte list" where
  "crc32_words crc data = (if 4 \<le> length data then
     (let one = le_load data XOR crc
      in crc32_words (lookup 0 (shr one 24 AND 0xFF) XOR lookup 1 (shr one 16 AND 0xFF)
                      XOR lookup 2 (shr one 8 AND 0xFF) XOR lookup 3 (one AND 0xFF)) (drop 4 data))
     else (crc, data))"
  by pat_completeness auto
termination by (relation "measure (\<lambda>(c, d). length d)") auto

declare crc32_words.simps [simp del]

fun crc32_bytes :: "uint32 \<Rightarrow> byte list \<Rightarrow> uint32" where
  "crc32_bytes crc [] = crc"
| "crc32_bytes crc (b # data) = crc32_bytes (shr crc 8 XOR lookup 0 ((crc AND 0xFF) XOR ucast b)) data"

definition em_inflate_crc32_4bytes :: "byte list \<Rightarrow> uint32 \<Rightarrow> uint32" where
  "em_inflate_crc32_4bytes data previousCrc32 =
     (let (crc, data) = crc32_words (NOT previousCrc32) data in NOT (crc32_bytes crc data))"

section \<open>Adler-32 as RFC 1950 defines it\<close>

definition adler_byte :: "nat \<times> nat \<Rightarrow> byte \<Rightarrow> nat \<times> nat" where
  "adler_byte s b = (let a = (fst s + unat b) mod 65521 in (a, (snd s + a) mod 65521))"

text \<open>The same sums with no reduction, which the unrolled loops compute at 32 bits.\<close>

definition adler_sum :: "nat \<times> nat \<Rightarrow> byte \<Rightarrow> nat \<times> nat" where
  "adler_sum s b = (fst s + unat b, snd s + (fst s + unat b))"

definition unats :: "uint32 \<times> uint32 \<Rightarrow> nat \<times> nat" where
  "unats s = (unat (fst s), unat (snd s))"

definition mods :: "nat \<times> nat \<Rightarrow> nat \<times> nat" where
  "mods s = (fst s mod 65521, snd s mod 65521)"

lemma unat_byte_le: "unat (b :: byte) \<le> 255"
  using unsigned_less [of b, where ?'a = nat] by simp

definition adler_add :: "uint32 \<times> uint32 \<Rightarrow> byte \<Rightarrow> uint32 \<times> uint32" where
  "adler_add s b = DO1 s [b] 0"

lemma DO1_add: "DO1 s buf i = adler_add s (buf ! i)"
  by (simp add: adler_add_def DO1_def)

lemma adler_bytes_append: "adler_bytes s (xs @ ys) = adler_bytes (adler_bytes s xs) ys"
  by (induction s xs rule: adler_bytes.induct) (simp_all add: DO1_add)

lemma DO4_bytes:
  assumes "i + 4 \<le> length buf"
  shows "DO4 s buf i = adler_bytes s (take 4 (drop i buf))"
proof -
  have "take 4 (drop i buf) = map (\<lambda>k. buf ! (i + k)) [0..<4]"
    using assms by (intro nth_equalityI) simp_all
  then show ?thesis
    by (simp add: DO4_def DO2_def DO1_add upt_rec eval_nat_numeral)
qed

lemma DO16_bytes: "16 \<le> length buf \<Longrightarrow> DO16 s buf = adler_bytes s (take 16 buf)"
  using take_add [of 4 4 buf] take_add [of 4 4 "drop 8 buf"] take_add [of 8 8 buf]
  by (simp add: DO16_def DO8_def DO4_bytes adler_bytes_append)

lemma adler_do16_bytes: "16 * n \<le> length buf \<Longrightarrow> adler_do16 n s buf = adler_bytes s (take (16 * n) buf)"
proof (induction n arbitrary: s buf)
  case (Suc n)
  have "take (16 * Suc n) buf = take 16 buf @ take (16 * n) (drop 16 buf)"
    by (simp add: take_add [symmetric] del: take_append)
  with Suc show ?case
    by (simp add: DO16_bytes adler_bytes_append del: take_append)
qed simp

lemma adler_rest_bytes: "adler_rest s buf = adler_bytes s buf"
proof (induction s buf rule: adler_rest.induct)
  case (1 s buf)
  show ?case
  proof (cases "16 \<le> length buf")
    case True
    with 1 have "adler_rest s buf = adler_bytes (adler_bytes s (take 16 buf)) (drop 16 buf)"
      by (subst adler_rest.simps) (simp add: DO16_bytes)
    then show ?thesis by (simp flip: adler_bytes_append)
  qed (subst adler_rest.simps, simp)
qed

lemma adler_sum_le:
  "fst (foldl adler_sum s bs) \<le> fst s + 255 * length bs"
  "2 * snd (foldl adler_sum s bs)
     \<le> 2 * snd s + 2 * length bs * fst s + 255 * length bs * (length bs + 1)"
proof (induction bs arbitrary: s)
  case (Cons b bs)
  have b: "unat b \<le> 255" by (rule unat_byte_le)
  case 1
  show ?case using Cons.IH(1) [of "adler_sum s b"] b by (simp add: adler_sum_def)
  case 2
  let ?n = "length bs" and ?u = "unat b"
  have "2 * snd (foldl adler_sum (adler_sum s b) bs)
      \<le> 2 * (snd s + (fst s + ?u)) + 2 * ?n * (fst s + ?u) + 255 * ?n * (?n + 1)"
    using Cons.IH(2) [of "adler_sum s b"] by (simp add: adler_sum_def [of s b])
  also have "\<dots> = (2 * snd s + 2 * (?n + 1) * fst s + 255 * ?n * (?n + 1)) + 2 * (?n + 1) * ?u"
    by (simp add: algebra_simps)
  also have "\<dots> \<le> (2 * snd s + 2 * (?n + 1) * fst s + 255 * ?n * (?n + 1)) + 2 * (?n + 1) * 255"
    using b by (intro add_left_mono mult_left_mono) simp_all
  finally show ?case by (simp add: algebra_simps)
qed simp_all

lemma unat_ucast_byte [simp]: "unat (ucast (b :: byte) :: uint32) = unat b"
  using unat_byte_le [of b] by (simp add: unsigned_ucast_eq take_bit_nat_eq_self)

lemma unats_DO1:
  assumes "fst (adler_sum (unats s) b) < 2 ^ 32" "snd (adler_sum (unats s) b) < 2 ^ 32"
  shows "unats (DO1 s (b # bs) 0) = adler_sum (unats s) b"
proof -
  have a: "unat (fst s + ucast b) = unat (fst s) + unat b"
    using assms by (simp add: unats_def adler_sum_def unat_word_ariths)
  with assms show ?thesis
    by (simp add: unats_def adler_sum_def DO1_def Let_def unat_word_ariths)
qed

lemma adler_sum_mono: "fst s \<le> fst (foldl adler_sum s bs) \<and> snd s \<le> snd (foldl adler_sum s bs)"
proof (induction bs arbitrary: s)
  case (Cons b bs)
  from Cons [of "adler_sum s b"] show ?case by (simp add: adler_sum_def)
qed simp

lemma unats_adler_bytes:
  assumes "fst (foldl adler_sum (unats s) bs) < 2 ^ 32" "snd (foldl adler_sum (unats s) bs) < 2 ^ 32"
  shows "unats (adler_bytes s bs) = foldl adler_sum (unats s) bs"
  using assms
proof (induction bs arbitrary: s)
  case (Cons b bs)
  have "unats (DO1 s (b # bs) 0) = adler_sum (unats s) b"
    using adler_sum_mono [of "adler_sum (unats s) b" bs] Cons.prems by (intro unats_DO1) simp_all
  with Cons show ?case by simp
qed simp

lemma adler_bytes_exact:
  assumes "length bs \<le> NMAX" "fst (unats s) < 65521" "snd (unats s) < 65521"
  shows "unats (adler_bytes s bs) = foldl adler_sum (unats s) bs"
proof (rule unats_adler_bytes)
  let ?n = "length bs"
  have n: "?n * fst (unats s) \<le> NMAX * 65520" "?n * (?n + 1) \<le> NMAX * (NMAX + 1)"
    using assms by (intro mult_le_mono; simp)+
  show "fst (foldl adler_sum (unats s) bs) < 2 ^ 32"
    using adler_sum_le(1) [of "unats s" bs] assms by simp
  have "2 * snd (foldl adler_sum (unats s) bs) \<le> 2 * 65520 + 2 * (NMAX * 65520) + 255 * (NMAX * (NMAX + 1))"
    using adler_sum_le(2) [of "unats s" bs] assms n by (simp add: mult.assoc)
  then show "snd (foldl adler_sum (unats s) bs) < 2 ^ 32" by simp
qed

lemma foldl_adler_byte: "foldl adler_byte (mods s) bs = mods (foldl adler_sum s bs)"
proof (induction bs arbitrary: s)
  case (Cons b bs)
  have "adler_byte (mods s) b = mods (adler_sum s b)"
    by (simp add: adler_byte_def mods_def adler_sum_def Let_def mod_simps)
  with Cons show ?case by simp
qed simp

lemma mods_small: "fst s < 65521 \<Longrightarrow> snd s < 65521 \<Longrightarrow> mods s = s"
  by (cases s) (simp add: mods_def)

lemma unats_MOD2: "unats (MOD2 s) = mods (unats s)"
  by (simp add: unats_def MOD2_def mods_def unat_mod_distrib)

lemma mods_less [simp]: "fst (mods s) < 65521" "snd (mods s) < 65521"
  by (simp_all add: mods_def)

lemma adler_bytes_mods:
  assumes "length bs \<le> NMAX" "fst (unats s) < 65521" "snd (unats s) < 65521"
  shows "mods (unats (adler_bytes s bs)) = foldl adler_byte (unats s) bs"
  using adler_bytes_exact [OF assms] foldl_adler_byte [of "unats s" bs] mods_small [OF assms(2,3)]
  by simp

lemma foldl_adler_byte_less:
  "fst s < 65521 \<Longrightarrow> snd s < 65521 \<Longrightarrow>
    fst (foldl adler_byte s bs) < 65521 \<and> snd (foldl adler_byte s bs) < 65521"
  using foldl_adler_byte [of s bs] by (simp add: mods_small)

lemma adler_nmax_ref:
  assumes "fst (unats s) < 65521" "snd (unats s) < 65521"
  shows "\<exists>s' buf'. adler_nmax s buf = (s', buf') \<and> length buf' < NMAX
    \<and> fst (unats s') < 65521 \<and> snd (unats s') < 65521
    \<and> foldl adler_byte (unats s) buf = foldl adler_byte (unats s') buf'"
  using assms
proof (induction s buf rule: adler_nmax.induct)
  case (1 s buf)
  show ?case
  proof (cases "NMAX \<le> length buf")
    case True
    define s1 where "s1 = MOD2 (adler_do16 (NMAX div 16) s buf)"
    have "unats s1 = mods (unats (adler_bytes s (take NMAX buf)))"
      using True by (simp add: s1_def unats_MOD2 adler_do16_bytes)
    also have "\<dots> = foldl adler_byte (unats s) (take NMAX buf)"
      using True 1 by (intro adler_bytes_mods) simp_all
    finally have s1: "unats s1 = foldl adler_byte (unats s) (take NMAX buf)" .
    have "foldl adler_byte (unats s) buf = foldl adler_byte (unats s1) (drop NMAX buf)"
      unfolding s1 by (simp flip: foldl_append)
    moreover have "fst (unats s1) < 65521 \<and> snd (unats s1) < 65521"
      unfolding s1 using 1 by (intro foldl_adler_byte_less) simp_all
    ultimately show ?thesis
      using 1(1) [OF True, folded s1_def] True by (subst adler_nmax.simps) (simp add: s1_def)
  next
    case False
    with 1 show ?thesis by (subst adler_nmax.simps) simp
  qed
qed

definition adler_word :: "nat \<times> nat \<Rightarrow> uint32" where
  "adler_word s = of_nat (snd s * 65536 + fst s)"

lemma of_nat_unats: "(of_nat (fst (unats s)), of_nat (snd (unats s))) = s"
  by (simp add: unats_def)

lemma adler_join_word:
  assumes "fst (unats s) < 65536" "snd (unats s) < 65536"
  shows "adler_join s = adler_word (unats s)"
proof -
  obtain a b where s: "s = (of_nat a, of_nat b)" and a: "a < 65536" and b: "b < 65536"
    using assms of_nat_unats [of s] by metis
  have "of_nat a AND shl (of_nat b) 16 = (0 :: uint32)"
  proof (rule bit_eqI)
    fix n
    have "\<not> bit a n" if "16 \<le> n"
    proof -
      have "a < 2 ^ n" using a power_increasing [OF that, of "2 :: nat"] by simp
      then show ?thesis by (simp add: bit_iff_odd)
    qed
    then show "bit (of_nat a AND shl (of_nat b) 16 :: uint32) n \<longleftrightarrow> bit (0 :: uint32) n"
      by (auto simp: bit_simps bit_of_nat_iff)
  qed
  then have "adler_join s = of_nat a + shl (of_nat b) 16"
    by (simp add: s adler_join_def disjunctive_add_eq_or)
  also have "\<dots> = of_nat (b * 65536 + a)"
    by (simp add: push_bit_eq_mult)
  finally show ?thesis
    using a b by (simp add: s adler_word_def unats_def unsigned_of_nat take_bit_nat_eq_self)
qed

lemma adler_split:
  assumes "a < 65536" "b < 65536"
  shows "unat (adler_word (a, b) AND 0xffff) = a" "unat (shr (adler_word (a, b)) 16 AND 0xffff) = b"
proof -
  have w: "unat (adler_word (a, b)) = b * 65536 + a"
    unfolding adler_word_def unsigned_of_nat using assms by (simp add: take_bit_nat_eq_self)
  have m: "x AND 0xffff = take_bit 16 x" for x :: uint32
    by (simp add: take_bit_eq_mask mask_eq_exp_minus_1)
  show "unat (adler_word (a, b) AND 0xffff) = a"
    unfolding m unsigned_take_bit_eq w using assms by (simp add: take_bit_eq_mod)
  show "unat (shr (adler_word (a, b)) 16 AND 0xffff) = b"
    unfolding m unsigned_take_bit_eq unsigned_drop_bit_eq w using assms
    by (simp add: take_bit_eq_mod drop_bit_eq_div)
qed

lemma unats_Pair: "unats (x, y) = (unat x, unat y)"
  by (simp add: unats_def)

lemma reduce_once:
  assumes "unat x < 2 * 65521"
  shows "unat (sub_base x) = unat x mod 65521"
proof (cases "BASE \<le> x")
  case True
  then have "65521 \<le> unat x" by (simp add: word_le_nat_alt)
  with True assms show ?thesis by (simp add: sub_base_def unat_sub mod_if)
qed (simp add: sub_base_def word_le_nat_alt)

definition adler_one :: "uint32 \<times> uint32 \<Rightarrow> byte \<Rightarrow> uint32 \<times> uint32" where
  "adler_one s x =
     (let a = sub_base (fst s + ucast x); b = sub_base (snd s + a) in (a, b))"

lemma unats_adler_one:
  assumes "fst (unats s) < 65521" "snd (unats s) < 65521"
  shows "unats (adler_one s x) = adler_byte (unats s) x"
proof -
  obtain a b where ab: "adler_one s x = (a, b)" by fastforce
  have a: "unat a = (unat (fst s) + unat x) mod 65521"
    using ab assms unat_byte_le [of x] reduce_once [of "fst s + ucast x"]
    by (simp add: adler_one_def Let_def unats_def unat_word_ariths)
  have "unat a < 65521" by (simp add: a)
  then have "unat b = (unat (snd s) + unat a) mod 65521"
    using ab assms reduce_once [of "snd s + a"]
    by (auto simp: adler_one_def Let_def unats_def unat_word_ariths)
  with a show ?thesis by (simp add: ab unats_def adler_byte_def Let_def)
qed

lemma adler32_z_init: "em_inflate_adler32_z 0 None = adler_word (1, 0)"
  by (simp add: em_inflate_adler32_z_def adler_word_def)

lemma adler32_z_fold:
  assumes "a < 65521" "b < 65521"
  shows "em_inflate_adler32_z (adler_word (a, b)) (Some buf) = adler_word (foldl adler_byte (a, b) buf)"
proof -
  let ?w = "adler_word (a, b)"
  define s :: "uint32 \<times> uint32" where "s = (?w AND 0xffff, shr ?w 16 AND 0xffff)"
  have s: "unats s = (a, b)"
    using adler_split [of a b] assms by (simp add: s_def unats_Pair)
  have join: "adler_join t = adler_word (foldl adler_byte (a, b) buf)"
    if "unats t = foldl adler_byte (a, b) buf" for t
    using that adler_join_word [of t] foldl_adler_byte_less [of "(a, b)" buf] assms by simp
  consider (one) "length buf = 1" | (short) "length buf \<noteq> 1" "length buf < 16" | (long) "16 \<le> length buf"
    by linarith
  then show ?thesis
  proof cases
    case one
    then obtain x where buf: "buf = [x]" by (cases buf) auto
    have "adler_join (adler_one s x) = adler_word (foldl adler_byte (a, b) buf)"
      using unats_adler_one [of s x] s assms by (intro join) (simp add: buf)
    then show ?thesis
      by (simp add: em_inflate_adler32_z_def adler_one_def buf s_def Let_def)
  next
    case short
    obtain a1 b1 where t: "adler_bytes s buf = (a1, b1)" by fastforce
    have e: "unats (a1, b1) = foldl adler_sum (a, b) buf"
      using adler_bytes_exact [of buf s] short assms by (simp add: s t)
    have "unat a1 < 2 * 65521"
      using adler_sum_le(1) [of "(a, b)" buf] short assms by (simp add: unats_def flip: e)
    then have "unats (sub_base a1, b1 mod BASE) = foldl adler_byte (a, b) buf"
      using reduce_once [of a1] foldl_adler_byte [of "(a, b)" buf, folded e] assms
      by (simp add: mods_small) (simp add: unats_def mods_def unat_mod_distrib)
    then show ?thesis
      using short t join
      by (simp add: em_inflate_adler32_z_def s_def [symmetric] Let_def)
  next
    case long
    obtain t rest where t: "adler_nmax s buf = (t, rest)" "length rest < NMAX"
      "fst (unats t) < 65521" "snd (unats t) < 65521"
      "foldl adler_byte (a, b) buf = foldl adler_byte (unats t) rest"
      using adler_nmax_ref [of s buf] assms by (auto simp: s)
    have "unats (MOD2 (adler_rest t rest)) = foldl adler_byte (unats t) rest"
      using adler_bytes_mods [of rest t] t by (simp add: unats_MOD2 adler_rest_bytes)
    then have "unats (if rest \<noteq> [] then MOD2 (adler_rest t rest) else t) = foldl adler_byte (a, b) buf"
      using t by simp
    from join [OF this] show ?thesis
      using long t(1) by (simp add: em_inflate_adler32_z_def s_def [symmetric] Let_def)
  qed
qed

section \<open>CRC-32 as RFC 1952 defines it\<close>

definition crc_bit :: "uint32 \<Rightarrow> uint32" where
  "crc_bit c = (if bit c 0 then shr c 1 XOR 0xEDB88320 else shr c 1)"

definition crc8 :: "uint32 \<Rightarrow> uint32" where
  "crc8 c = (crc_bit ^^ 8) c"

definition crc_byte :: "uint32 \<Rightarrow> byte \<Rightarrow> uint32" where
  "crc_byte c b = crc8 (c XOR ucast b)"

definition crc32_ref :: "byte list \<Rightarrow> uint32 \<Rightarrow> uint32" where
  "crc32_ref data prev = NOT (foldl crc_byte (NOT prev) data)"

lemma crc_bit_xor: "crc_bit (x XOR y) = crc_bit x XOR crc_bit y"
  by (auto simp: crc_bit_def bit_simps ac_simps xor.left_commute)

lemma crc8_xor: "crc8 (x XOR y) = crc8 x XOR crc8 y"
  by (simp add: crc8_def eval_nat_numeral crc_bit_xor)

lemma crc_bit_even: "\<not> bit x 0 \<Longrightarrow> crc_bit x = shr x 1"
  by (simp add: crc_bit_def)

lemma crc_bits_shr: "take_bit n x = 0 \<Longrightarrow> (crc_bit ^^ n) x = shr x n"
proof (induction n arbitrary: x)
  case (Suc n)
  have b: "\<not> bit x i" if "i < Suc n" for i
    using Suc.prems that by (metis bit_take_bit_iff bit_0_eq bot_apply bot_bool_def)
  have "take_bit n (shr x 1) = 0"
    by (rule bit_eqI) (use b in \<open>auto simp: bit_simps\<close>)
  from Suc.IH [OF this] show ?case
    using b [of 0] by (simp add: funpow_Suc_right crc_bit_even drop_bit_drop_bit del: funpow.simps)
qed simp

lemma and_255: "x AND 0xFF = take_bit 8 (x :: uint32)"
  by (simp add: take_bit_eq_mask mask_eq_exp_minus_1)

lemma crc8_low: "crc8 x = crc8 (x AND 0xFF) XOR shr x 8"
proof -
  have "take_bit 8 (x XOR take_bit 8 x) = 0"
    by (rule bit_eqI) (auto simp: bit_simps)
  then have "crc8 (x XOR take_bit 8 x) = shr (x XOR take_bit 8 x) 8"
    by (simp add: crc8_def crc_bits_shr)
  also have "\<dots> = shr x 8"
    by (rule bit_eqI) (auto simp: bit_simps)
  finally show ?thesis
    using crc8_xor [of "take_bit 8 x" "x XOR take_bit 8 x"] by (simp add: and_255 xor.left_commute)
qed

fun xor_span :: "uint32 list \<Rightarrow> uint32 list \<Rightarrow> uint32 list" where
  "xor_span acc [] = acc"
| "xor_span acc (b # bs) = xor_span (acc @ map (\<lambda>y. y XOR b) acc) bs"

lemma xor_span_linear:
  fixes f :: "uint32 \<Rightarrow> uint32"
  assumes "\<And>x y. f (x XOR y) = f x XOR f y" "n + k \<le> 32"
  shows "xor_span (map (f \<circ> of_nat) [0..<2 ^ n]) (map (\<lambda>i. f (2 ^ i)) [n..<n + k])
       = map (f \<circ> of_nat) [0..<2 ^ (n + k)]"
  using assms(2)
proof (induction k arbitrary: n)
  case (Suc k)
  have x: "of_nat (i + 2 ^ n) = (of_nat i :: uint32) XOR 2 ^ n" if "i < 2 ^ n" for i
  proof -
    have "\<not> bit i n" using that by (simp add: bit_iff_odd)
    then have "(of_nat i :: uint32) AND 2 ^ n = 0"
      by (intro bit_eqI) (auto simp: bit_simps bit_of_nat_iff)
    then show ?thesis by (simp add: disjunctive_add_eq_xor)
  qed
  have u: "[0..<2 ^ Suc n] = [0..<2 ^ n] @ map (\<lambda>i. i + 2 ^ n) [0..<(2::nat) ^ n]"
    using upt_add_eq_append [of 0 "2 ^ n" "2 ^ n"] by (simp add: map_add_upt mult_2)
  have "map (f \<circ> of_nat) [0..<2 ^ Suc n] = map (f \<circ> of_nat) [0..<2 ^ n]
        @ map (\<lambda>y. y XOR f (2 ^ n)) (map (f \<circ> of_nat) [0..<2 ^ n])"
    unfolding u by (auto simp: x assms(1) simp del: of_nat_add)
  note half = this [symmetric]
  have "[n..<n + Suc k] = n # [Suc n..<Suc n + k]" by (simp add: upt_rec [of n] del: upt_Suc)
  then have "xor_span (map (f \<circ> of_nat) [0..<2 ^ n]) (map (\<lambda>i. f (2 ^ i)) [n..<n + Suc k])
      = xor_span (map (f \<circ> of_nat) [0..<2 ^ Suc n]) (map (\<lambda>i. f (2 ^ i)) [Suc n..<Suc n + k])"
    by (simp only: list.map xor_span.simps half)
  moreover have "Suc n + k \<le> 32" using Suc.prems by simp
  ultimately show ?case using Suc.IH [of "Suc n"] by (simp only: add_Suc_right add_Suc)
qed simp

lemma crc8_pow_xor: "(crc8 ^^ n) (x XOR y) = (crc8 ^^ n) x XOR (crc8 ^^ n) y"
  by (induction n) (simp_all add: crc8_xor)

definition pow8 :: "uint32 list" where
  "pow8 = [1, 2, 4, 8, 16, 32, 64, 128]"

lemma table_span:
  "ema_inflate_Crc32Lookup ! 0 = xor_span [0] (map (lookup 0) pow8)"
  "ema_inflate_Crc32Lookup ! 1 = xor_span [0] (map (lookup 1) pow8)"
  "ema_inflate_Crc32Lookup ! 2 = xor_span [0] (map (lookup 2) pow8)"
  "ema_inflate_Crc32Lookup ! 3 = xor_span [0] (map (lookup 3) pow8)"
  by (simp_all add: ema_inflate_Crc32Lookup_def pow8_def)

lemma crc8_steps: "crc8 c = crc_bit (crc_bit (crc_bit (crc_bit (crc_bit (crc_bit (crc_bit (crc_bit c)))))))"
  by (simp add: crc8_def eval_nat_numeral)

lemma table_basis:
  "map (lookup 0) pow8 = map crc8 pow8"
  "map (lookup 1) pow8 = map crc8 (map (lookup 0) pow8)"
  "map (lookup 2) pow8 = map crc8 (map (lookup 1) pow8)"
  "map (lookup 3) pow8 = map crc8 (map (lookup 2) pow8)"
  by (simp_all add: ema_inflate_Crc32Lookup_def pow8_def crc8_steps) (simp_all add: crc_bit_def)

lemma crc8_pows:
  "(crc8 ^^ 1) x = crc8 x" "(crc8 ^^ 2) x = crc8 (crc8 x)" "(crc8 ^^ 3) x = crc8 (crc8 (crc8 x))"
  "(crc8 ^^ 4) x = crc8 (crc8 (crc8 (crc8 x)))"
  by (simp_all add: eval_nat_numeral)

lemma crc8_pow_zero [simp]: "(crc8 ^^ n) 0 = 0"
  using crc8_pow_xor [of n 0 0] by simp

lemma span_crc8: "xor_span [0] (map (crc8 ^^ n) pow8) = map ((crc8 ^^ n) \<circ> of_nat) [0..<256]"
proof -
  have "map (\<lambda>i. (crc8 ^^ n) (2 ^ i)) [0..<8] = map (crc8 ^^ n) pow8"
    by (simp add: upt_rec pow8_def)
  then show ?thesis
    using xor_span_linear [of "crc8 ^^ n" 0 8, OF crc8_pow_xor] by simp
qed

lemma basis_pow:
  "map (lookup 0) pow8 = map (crc8 ^^ 1) pow8" "map (lookup 1) pow8 = map (crc8 ^^ 2) pow8"
  "map (lookup 2) pow8 = map (crc8 ^^ 3) pow8" "map (lookup 3) pow8 = map (crc8 ^^ 4) pow8"
  using table_basis by (simp_all add: eval_nat_numeral)

lemma lookup_crc8:
  assumes "unat i < 256"
  shows "lookup 0 i = crc8 i" "lookup 1 i = (crc8 ^^ 2) i"
    "lookup 2 i = (crc8 ^^ 3) i" "lookup 3 i = (crc8 ^^ 4) i"
proof -
  note rows = table_span [unfolded basis_pow span_crc8]
  show "lookup 0 i = crc8 i" "lookup 1 i = (crc8 ^^ 2) i"
    "lookup 2 i = (crc8 ^^ 3) i" "lookup 3 i = (crc8 ^^ 4) i"
    using assms by (simp_all add: rows crc8_pows del: One_nat_def)
qed

lemma and_255_less [simp]: "unat (x AND 0xFF :: uint32) < 256"
  using take_bit_nat_less_exp [of 8 "unat x"]
  by (simp add: take_bit_eq_mask mask_eq_exp_minus_1 unsigned_and_eq)

lemma crc8_words: "lookup 0 (shr x 24 AND 0xFF) XOR lookup 1 (shr x 16 AND 0xFF)
    XOR lookup 2 (shr x 8 AND 0xFF) XOR lookup 3 (x AND 0xFF) = (crc8 ^^ 4) x"
proof -
  have z: "shr x 32 = 0" by (rule bit_eqI) (simp add: bit_simps)
  have "crc8 (crc8 (crc8 (crc8 x))) = crc8 (crc8 (crc8 (crc8 (x AND 0xFF)))) XOR crc8 (crc8 (crc8 (shr x 8)))"
    by (subst crc8_low) (simp only: crc8_xor)
  also have "crc8 (crc8 (crc8 (shr x 8))) = crc8 (crc8 (crc8 (shr x 8 AND 0xFF))) XOR crc8 (crc8 (shr x 16))"
    by (subst crc8_low) (simp add: crc8_xor drop_bit_drop_bit)
  also have "crc8 (crc8 (shr x 16)) = crc8 (crc8 (shr x 16 AND 0xFF)) XOR crc8 (shr x 24)"
    by (subst crc8_low) (simp add: crc8_xor drop_bit_drop_bit)
  also have "crc8 (shr x 24) = crc8 (shr x 24 AND 0xFF)"
    by (subst crc8_low) (simp add: z drop_bit_drop_bit)
  finally show ?thesis by (simp add: lookup_crc8 crc8_pows ac_simps del: One_nat_def)
qed

lemma byte_bit: "8 \<le> n \<Longrightarrow> \<not> bit (b :: byte) n"
  by (auto dest: bit_imp_le_length)

lemma le_load_xor: "le_load data = ucast (data ! 0) XOR shl (ucast (data ! 1)) 8
    XOR shl (ucast (data ! 2)) 16 XOR shl (ucast (data ! 3)) 24"
proof (rule bit_eqI)
  fix n :: nat
  consider "n < 8" | "8 \<le> n" "n < 16" | "16 \<le> n" "n < 24" | "24 \<le> n" by linarith
  then show "bit (le_load data) n \<longleftrightarrow> bit (ucast (data ! 0) XOR shl (ucast (data ! 1)) 8
      XOR shl (ucast (data ! 2)) 16 XOR shl (ucast (data ! 3)) 24 :: uint32) n"
    by cases (simp_all add: le_load_def bit_or_iff bit_xor_iff bit_push_bit_iff bit_ucast_iff byte_bit conj_ac)
qed

lemma crc8_shl: "crc8 (shl (ucast (b :: byte)) 8) = ucast b"
    "crc8 (shl (ucast b) 16) = shl (ucast b) 8" "crc8 (shl (ucast b) 24) = shl (ucast b) 16"
proof -
  have "crc8 (shl (ucast b) n) = shl (ucast b) (n - 8)" if "8 \<le> n" "n \<le> 24" for n
  proof -
    have "take_bit 8 (shl (ucast b) n :: uint32) = 0"
      using that by (intro bit_eqI) (auto simp: bit_simps)
    then have "crc8 (shl (ucast b) n) = shr (shl (ucast b) n) 8"
      by (simp add: crc8_def crc_bits_shr)
    also have "\<dots> = shl (ucast b) (n - 8)"
      using that by (intro bit_eqI) (auto simp: bit_simps add.commute dest: bit_imp_le_length)
    finally show ?thesis .
  qed
  from this [of 8] this [of 16] this [of 24]
  show "crc8 (shl (ucast (b :: byte)) 8) = ucast b"
    "crc8 (shl (ucast b) 16) = shl (ucast b) 8" "crc8 (shl (ucast b) 24) = shl (ucast b) 16"
    by simp_all
qed

lemma crc_byte_words:
  "foldl crc_byte c [data ! 0, data ! 1, data ! 2, data ! 3] = (crc8 ^^ 4) (le_load data XOR c)"
  by (simp add: crc_byte_def crc8_pows le_load_xor crc8_xor crc8_shl ac_simps)

lemma crc32_bytes_ref: "crc32_bytes c data = foldl crc_byte c data"
proof (induction data arbitrary: c)
  case (Cons b data)
  have "unat ((c AND 0xFF) XOR ucast b) < 256"
  proof -
    have "(c AND 0xFF) XOR ucast b = take_bit 8 (c XOR ucast b)"
      unfolding and_255 by (rule bit_eqI) (auto simp: bit_simps dest: bit_imp_le_length)
    then show ?thesis using and_255_less [of "c XOR ucast b"] by (simp add: and_255)
  qed
  then have "shr c 8 XOR lookup 0 ((c AND 0xFF) XOR ucast b) = crc_byte c b"
    using crc8_low [of c] by (simp add: crc_byte_def lookup_crc8 crc8_xor ac_simps)
  with Cons show ?case by simp
qed simp

lemma crc32_words_ref:
  "\<exists>c' rest. crc32_words c data = (c', rest) \<and> foldl crc_byte c data = foldl crc_byte c' rest"
proof (induction c data rule: crc32_words.induct)
  case (1 c data)
  show ?case
  proof (cases "4 \<le> length data")
    case True
    have "take 4 data = map (\<lambda>i. data ! i) [0..<4]"
      using True by (intro nth_equalityI) simp_all
    also have "\<dots> = [data ! 0, data ! 1, data ! 2, data ! 3]"
      by (simp add: upt_rec numeral_2_eq_2 numeral_3_eq_3)
    finally have "data = [data ! 0, data ! 1, data ! 2, data ! 3] @ drop 4 data"
      by (metis append_take_drop_id)
    then have "foldl crc_byte c data = foldl crc_byte ((crc8 ^^ 4) (le_load data XOR c)) (drop 4 data)"
      using crc_byte_words [of c data] foldl_append [of crc_byte c _ "drop 4 data"] by metis
    moreover note 1 [OF True refl, unfolded crc8_words]
    ultimately show ?thesis
      using True by (subst crc32_words.simps) (simp only: Let_def crc8_words if_True)
  qed (subst crc32_words.simps, simp)
qed

text \<open>
  (C7) The Adler-32 routine, with its runs of 5552 bytes unrolled by sixteen and its delayed reductions,
  over data that comes in two pieces: from its initial value it computes the two sums of RFC 1950,
  reduced after every byte, of the whole data, for pieces of every length.
\<close>

theorem adler32_equiv:
  "em_inflate_adler32_z (em_inflate_adler32_z (em_inflate_adler32_z 0 None) (Some xs)) (Some ys)
     = adler_word (foldl adler_byte (1, 0) (xs @ ys))"
proof -
  obtain a b where ab: "foldl adler_byte (1, 0) xs = (a, b)" by fastforce
  have "a < 65521 \<and> b < 65521" using foldl_adler_byte_less [of "(1, 0)" xs] by (simp add: ab del: One_nat_def)
  then have "em_inflate_adler32_z (adler_word (a, b)) (Some ys) = adler_word (foldl adler_byte (a, b) ys)"
    by (intro adler32_z_fold) simp_all
  then show ?thesis using adler32_z_fold [of 1 0 xs] by (simp add: adler32_z_init ab del: One_nat_def)
qed

text \<open>
  (C8) The table-driven CRC-32 routine, four bytes at a time and then one by one: for every data and
  every previous value it is the CRC of the reflected polynomial 0xEDB88320 taken bit by bit, so each
  of the 1024 constants of its tables is the right one.
\<close>

theorem crc32_equiv: "em_inflate_crc32_4bytes data prev = crc32_ref data prev"
  using crc32_words_ref [of "NOT prev" data]
  by (auto simp: em_inflate_crc32_4bytes_def crc32_ref_def crc32_bytes_ref)

end
