(* ===== verification/Inflate.thy ===== *)
theory Inflate
  imports Huffman Checksum
begin

unbundle bit_operations_syntax

text \<open>
  The decompressor \<^verbatim>\<open>em_inflate\<close> of \<^verbatim>\<open>deps/em_inflate/em_inflate.c\<close>: stored blocks, Huffman blocks with
  their match copies, the gzip and zlib wrappers and the checksum at the end. The output buffer is a
  byte list, every write to it is checked against its length, and it is part of every result, since
  a failing call leaves what it wrote. Local arrays start with zeroes where the source leaves them
  unset: each is written before it is read.
\<close>

section \<open>Stored blocks\<close>

definition blit_at :: "byte list \<Rightarrow> nat \<Rightarrow> byte list \<Rightarrow> byte list res" where
  "blit_at buf off d = (if off + length d \<le> length buf
     then Inr (take off buf @ d @ drop (off + length d) buf) else Inl Out_of_bounds)"

definition slice_at :: "byte list \<Rightarrow> int \<Rightarrow> nat \<Rightarrow> byte list res" where
  "slice_at mem p n = (if 0 \<le> p then slice mem (nat p) n else Inl Out_of_bounds)"

definition rd16 :: "byte list \<Rightarrow> int \<Rightarrow> uint16 res" where
  "rd16 mem p = rbind (rd mem p) (\<lambda>a. rbind (rd mem (p + 1)) (\<lambda>b. Inr (ucast a OR shl (ucast b) 8)))"

text \<open>A block's result: the number of bytes or failure, the reader and the output buffer.\<close>

type_synonym block = "(nat option \<times> bitreader \<times> byte list) res"

definition em_inflate_copy_stored :: "byte list \<Rightarrow> bitreader \<Rightarrow> byte list \<Rightarrow> nat \<Rightarrow> nat \<Rightarrow> block" where
  "em_inflate_copy_stored mem br pOutData nOutDataOffset nBlockMaxSize =
     (let (aligned, br) = em_lsb_bitreader_byte_align br in
      if \<not> aligned then Inr (None, br, pOutData)
      else if pInBlock br + 4 > pInBlockEnd br then Inr (None, br, pOutData)
      else
        rbind (rd16 mem (pInBlock br)) (\<lambda>nStoredLen.
        let br = br\<lparr>pInBlock := pInBlock br + 2\<rparr> in
        rbind (rd16 mem (pInBlock br)) (\<lambda>nNegStoredLen.
        let br = br\<lparr>pInBlock := pInBlock br + 2\<rparr> in
        if nStoredLen \<noteq> NOT nNegStoredLen then Inr (None, br, pOutData)
        else if unat nStoredLen > nBlockMaxSize then Inr (None, br, pOutData)
        else
          rbind (slice_at mem (pInBlock br) (unat nStoredLen)) (\<lambda>d.
          rbind (blit_at pOutData nOutDataOffset d) (\<lambda>out.
          Inr (Some (unat nStoredLen), br\<lparr>pInBlock := pInBlock br + int (unat nStoredLen)\<rparr>, out))))))"

section \<open>Huffman blocks\<close>

abbreviation (input) NCODELENBITS :: nat where "NCODELENBITS \<equiv> 3"
abbreviation (input) NLITERALSYMS :: nat where "NLITERALSYMS \<equiv> 288"
abbreviation (input) NEODMARKERSYM :: uint32 where "NEODMARKERSYM \<equiv> 256"
abbreviation (input) NMATCHLENSYMSTART :: uint32 where "NMATCHLENSYMSTART \<equiv> 257"
abbreviation (input) NMATCHLENSYMS :: nat where "NMATCHLENSYMS \<equiv> 29"
abbreviation (input) NOFFSETSYMS :: nat where "NOFFSETSYMS \<equiv> 32"
abbreviation (input) MIN_MATCH_SIZE :: uint32 where "MIN_MATCH_SIZE \<equiv> 3"

definition MATCHLEN_PAIR :: "uint32 \<Rightarrow> uint32 \<Rightarrow> uint32" where
  "MATCHLEN_PAIR base dispbits = base OR shl dispbits 16 OR 0x8000"

definition OFFSET_PAIR :: "uint32 \<Rightarrow> uint32 \<Rightarrow> uint32" where
  "OFFSET_PAIR base dispbits = base OR shl dispbits 16"

definition em_inflate_matchlen_code :: "uint32 list" where
  "em_inflate_matchlen_code = [
   MATCHLEN_PAIR (MIN_MATCH_SIZE + 0) 0, MATCHLEN_PAIR (MIN_MATCH_SIZE + 1) 0, MATCHLEN_PAIR (MIN_MATCH_SIZE + 2) 0,
   MATCHLEN_PAIR (MIN_MATCH_SIZE + 3) 0, MATCHLEN_PAIR (MIN_MATCH_SIZE + 4) 0, MATCHLEN_PAIR (MIN_MATCH_SIZE + 5) 0,
   MATCHLEN_PAIR (MIN_MATCH_SIZE + 6) 0, MATCHLEN_PAIR (MIN_MATCH_SIZE + 7) 0, MATCHLEN_PAIR (MIN_MATCH_SIZE + 8) 1,
   MATCHLEN_PAIR (MIN_MATCH_SIZE + 10) 1, MATCHLEN_PAIR (MIN_MATCH_SIZE + 12) 1, MATCHLEN_PAIR (MIN_MATCH_SIZE + 14) 1,
   MATCHLEN_PAIR (MIN_MATCH_SIZE + 16) 2, MATCHLEN_PAIR (MIN_MATCH_SIZE + 20) 2, MATCHLEN_PAIR (MIN_MATCH_SIZE + 24) 2,
   MATCHLEN_PAIR (MIN_MATCH_SIZE + 28) 2, MATCHLEN_PAIR (MIN_MATCH_SIZE + 32) 3, MATCHLEN_PAIR (MIN_MATCH_SIZE + 40) 3,
   MATCHLEN_PAIR (MIN_MATCH_SIZE + 48) 3, MATCHLEN_PAIR (MIN_MATCH_SIZE + 56) 3, MATCHLEN_PAIR (MIN_MATCH_SIZE + 64) 4,
   MATCHLEN_PAIR (MIN_MATCH_SIZE + 80) 4, MATCHLEN_PAIR (MIN_MATCH_SIZE + 96) 4, MATCHLEN_PAIR (MIN_MATCH_SIZE + 112) 4,
   MATCHLEN_PAIR (MIN_MATCH_SIZE + 128) 5, MATCHLEN_PAIR (MIN_MATCH_SIZE + 160) 5, MATCHLEN_PAIR (MIN_MATCH_SIZE + 192) 5,
   MATCHLEN_PAIR (MIN_MATCH_SIZE + 224) 5, MATCHLEN_PAIR (MIN_MATCH_SIZE + 255) 0]"

text \<open>The array has 32 entries and 30 initialisers: the last two are zero.\<close>

definition em_inflate_offset_code :: "uint32 list" where
  "em_inflate_offset_code = [
   OFFSET_PAIR 1 0, OFFSET_PAIR 2 0, OFFSET_PAIR 3 0, OFFSET_PAIR 4 0, OFFSET_PAIR 5 1, OFFSET_PAIR 7 1,
   OFFSET_PAIR 9 2, OFFSET_PAIR 13 2, OFFSET_PAIR 17 3, OFFSET_PAIR 25 3, OFFSET_PAIR 33 4, OFFSET_PAIR 49 4,
   OFFSET_PAIR 65 5, OFFSET_PAIR 97 5, OFFSET_PAIR 129 6, OFFSET_PAIR 193 6, OFFSET_PAIR 257 7, OFFSET_PAIR 385 7,
   OFFSET_PAIR 513 8, OFFSET_PAIR 769 8, OFFSET_PAIR 1025 9, OFFSET_PAIR 1537 9, OFFSET_PAIR 2049 10,
   OFFSET_PAIR 3073 10, OFFSET_PAIR 4097 11, OFFSET_PAIR 6145 11, OFFSET_PAIR 8193 12, OFFSET_PAIR 12289 12,
   OFFSET_PAIR 16385 13, OFFSET_PAIR 24577 13, 0, 0]"

text \<open>The prepared literal and offset tables, from the code lengths in the block.\<close>

type_synonym tables = "(huffman_decoder \<times> uint32 list) \<times> (huffman_decoder \<times> uint32 list)"

definition read_dynamic_tables :: "byte list \<Rightarrow> bitreader \<Rightarrow> (tables \<times> bitreader) ret" where
  "read_dynamic_tables mem br =
     rbind (em_lsb_bitreader_get_bits mem 5 br) (\<lambda>(nLiteralSyms, br).
     if nLiteralSyms = -1 then Inr None
     else let nLiteralSyms = nLiteralSyms + 257 in
     if nLiteralSyms > of_nat NLITERALSYMS then Inr None
     else
     rbind (em_lsb_bitreader_get_bits mem 5 br) (\<lambda>(nOffsetSyms, br).
     if nOffsetSyms = -1 then Inr None
     else let nOffsetSyms = nOffsetSyms + 1 in
     if nOffsetSyms > of_nat NOFFSETSYMS then Inr None
     else
     rbind (em_lsb_bitreader_get_bits mem 4 br) (\<lambda>(nCodeLenSyms, br).
     if nCodeLenSyms = -1 then Inr None
     else let nCodeLenSyms = nCodeLenSyms + 4 in
     if nCodeLenSyms > of_nat NCODELENSYMS then Inr None
     else
     obind (em_lsb_huffman_decoder_read_raw_lengths mem NCODELENBITS (uint nCodeLenSyms) (int NCODELENSYMS)
              (replicate (NLITERALSYMS + NOFFSETSYMS) 0) br) (\<lambda>(nCodeLength, br).
     obind (em_lsb_huffman_decoder_prepare_table (replicate (NCODELENSYMS * 2) 0) (int NCODELENSYMS)
              (int NCODELENSYMS) nCodeLength) (\<lambda>(d, t).
     obind (em_lsb_huffman_decoder_finalize_table d t) (\<lambda>(d, t).
     obind (em_lsb_huffman_decoder_read_var_lengths mem d t (uint (nLiteralSyms + nOffsetSyms))
              (int (NLITERALSYMS + NOFFSETSYMS)) nCodeLength br) (\<lambda>(nCodeLength, br).
     obind (em_lsb_huffman_decoder_prepare_table (replicate (NLITERALSYMS * 2) 0) (uint nLiteralSyms)
              (int NLITERALSYMS) nCodeLength) (\<lambda>lit.
     obind (em_lsb_huffman_decoder_prepare_table (replicate (NOFFSETSYMS * 2) 0) (uint nOffsetSyms)
              (int NOFFSETSYMS) (drop (unat nLiteralSyms) nCodeLength)) (\<lambda>off.
     Inr (Some ((lit, off), br)))))))))))"

definition nFixedLiteralCodeLen :: "byte list" where
  "nFixedLiteralCodeLen = replicate 144 8 @ replicate (256 - 144) 9 @ replicate (280 - 256) 7
                          @ replicate (NLITERALSYMS - 280) 8"

definition nFixedOffsetCodeLen :: "byte list" where
  "nFixedOffsetCodeLen = replicate NOFFSETSYMS 5"

definition fixed_tables :: "tables ret" where
  "fixed_tables =
     obind (em_lsb_huffman_decoder_prepare_table (replicate (NLITERALSYMS * 2) 0) (int NLITERALSYMS)
              (int NLITERALSYMS) nFixedLiteralCodeLen) (\<lambda>lit.
     obind (em_lsb_huffman_decoder_prepare_table (replicate (NOFFSETSYMS * 2) 0) (int NOFFSETSYMS)
              (int NOFFSETSYMS) nFixedOffsetCodeLen) (\<lambda>off.
     Inr (Some (lit, off))))"

definition offset_codeword :: "nat \<Rightarrow> uint32 list \<Rightarrow> uint32 list ret" where
  "offset_codeword i t =
     rbind (aget t i) (\<lambda>n.
     if n < of_nat NOFFSETSYMS then
       rbind (aget em_inflate_offset_code (unat n)) (\<lambda>v. rbind (aset t i v) (\<lambda>t. Inr (Some t)))
     else Inr (Some t))"

definition match_codeword :: "nat \<Rightarrow> uint32 list \<Rightarrow> uint32 list ret" where
  "match_codeword i t =
     rbind (aget t i) (\<lambda>n.
     if n \<ge> NMATCHLENSYMSTART \<and> n < of_nat NLITERALSYMS then
       (let index = sint (n - NMATCHLENSYMSTART) in
        rbind (if index \<ge> 0 \<and> index < int NMATCHLENSYMS
               then aget em_inflate_matchlen_code (nat index) else Inr 0) (\<lambda>v.
        rbind (aset t i v) (\<lambda>t. Inr (Some t))))
     else Inr (Some t))"

definition block_tables :: "tables \<Rightarrow> tables ret" where
  "block_tables t =
     (let ((lit, nLiteralsRevSymbolTable), (off, nOffsetRevSymbolTable)) = t in
      obind (for_each offset_codeword [0..<NOFFSETSYMS] nOffsetRevSymbolTable) (\<lambda>nOffsetRevSymbolTable.
      obind (for_each match_codeword [0..<NLITERALSYMS] nLiteralsRevSymbolTable) (\<lambda>nLiteralsRevSymbolTable.
      obind (em_lsb_huffman_decoder_finalize_table lit nLiteralsRevSymbolTable) (\<lambda>lit.
      obind (em_lsb_huffman_decoder_finalize_table off nOffsetRevSymbolTable) (\<lambda>off.
      Inr (Some (lit, off)))))))"

text \<open>The copies of a match: sixteen bytes at a time, past the end of the match, or one by one.\<close>

function copy16 :: "byte list \<Rightarrow> nat \<Rightarrow> nat \<Rightarrow> nat \<Rightarrow> byte list res" where
  "copy16 out pCopySrc pCopyDst pCopyEndDst =
     rbind (slice out pCopySrc 16) (\<lambda>d.
     rbind (blit_at out pCopyDst d) (\<lambda>out.
     if pCopyDst + 16 < pCopyEndDst then copy16 out (pCopySrc + 16) (pCopyDst + 16) pCopyEndDst
     else Inr out))"
  by pat_completeness auto
termination by (relation "measure (\<lambda>(out, s, d, e). e - d)") auto

declare copy16.simps [simp del]

fun copy1 :: "byte list \<Rightarrow> nat \<Rightarrow> nat \<Rightarrow> nat \<Rightarrow> byte list res" where
  "copy1 out pSrc pCurOutData 0 = Inr out"
| "copy1 out pSrc pCurOutData (Suc n) =
     rbind (aget out pSrc) (\<lambda>b.
     rbind (aset out pCurOutData b) (\<lambda>out. copy1 out (pSrc + 1) (pCurOutData + 1) n))"

text \<open>A match copy: where the output goes on, or failure.\<close>

definition copy_match :: "byte list \<Rightarrow> nat \<Rightarrow> nat \<Rightarrow> nat \<Rightarrow> nat \<Rightarrow> (nat option \<times> byte list) res" where
  "copy_match out pCurOutData pOutDataEnd nMatchLen nMatchOffset =
     (if nMatchOffset \<le> pCurOutData then
        (let pSrc = pCurOutData - nMatchOffset in
         if nMatchOffset \<ge> 16 \<and> int (pCurOutData + nMatchLen) \<le> int pOutDataEnd - 15 then
           rbind (copy16 out pSrc pCurOutData (pCurOutData + nMatchLen)) (\<lambda>out.
           Inr (Some (pCurOutData + nMatchLen), out))
         else if pCurOutData + nMatchLen > pOutDataEnd then Inr (None, out)
         else
           rbind (copy1 out pSrc pCurOutData nMatchLen) (\<lambda>out.
           Inr (Some (pCurOutData + nMatchLen), out)))
      else Inr (None, out))"

text \<open>The length and the offset of a match, after its first codeword.\<close>

definition read_match :: "byte list \<Rightarrow> tables \<Rightarrow> uint32 \<Rightarrow> bitreader \<Rightarrow> (nat \<times> nat \<times> bitreader) option res" where
  "read_match mem t nLiteralsCodeword br =
     rbind (em_lsb_bitreader_get_bits mem (unat (shr nLiteralsCodeword 16 AND 15)) br) (\<lambda>(nMatchLen, br).
     if nMatchLen = -1 then Inr None
     else let nMatchLen = nMatchLen + (nLiteralsCodeword AND 0x7fff) in
     rbind (em_lsb_huffman_decoder_read_value mem (fst (snd t)) (snd (snd t)) br) (\<lambda>(nOffsetCodeword, br).
     if nOffsetCodeword = -1 then Inr None
     else
     rbind (em_lsb_bitreader_get_bits mem (unat (shr nOffsetCodeword 16 AND 15)) br) (\<lambda>(nMatchOffset, br).
     if nMatchOffset = -1 then Inr None
     else let nMatchOffset = nMatchOffset + (nOffsetCodeword AND 0x7fff) in
     Inr (Some (unat nMatchLen, unat nMatchOffset, br)))))"

text \<open>The loop of a block. Every turn but the last writes at least one byte or fails, so the room in
  the buffer bounds the turns; the result is where the output goes on.\<close>

fun block_loop :: "nat \<Rightarrow> byte list \<Rightarrow> tables \<Rightarrow> nat \<Rightarrow> bitreader \<Rightarrow> byte list \<Rightarrow> nat \<Rightarrow> block" where
  "block_loop 0 mem t pOutDataEnd br out pCurOutData = Inl Hang"
| "block_loop (Suc fuel) mem t pOutDataEnd br out pCurOutData =
     rbind (em_lsb_huffman_decoder_read_value mem (fst (fst t)) (snd (fst t)) br) (\<lambda>(nLiteralsCodeword, br).
     if nLiteralsCodeword < 256 then
       (if pCurOutData < pOutDataEnd then
          rbind (aset out pCurOutData (ucast nLiteralsCodeword)) (\<lambda>out.
          block_loop fuel mem t pOutDataEnd br out (pCurOutData + 1))
        else Inr (None, br, out))
     else if nLiteralsCodeword = NEODMARKERSYM then Inr (Some pCurOutData, br, out)
     else if nLiteralsCodeword = -1 then Inr (None, br, out)
     else
       rbind (read_match mem t nLiteralsCodeword br) (\<lambda>m.
       case m of None \<Rightarrow> Inr (None, br, out)
       | Some (nMatchLen, nMatchOffset, br) \<Rightarrow>
         rbind (copy_match out pCurOutData pOutDataEnd nMatchLen nMatchOffset) (\<lambda>(r, out).
         case r of None \<Rightarrow> Inr (None, br, out)
         | Some pCurOutData \<Rightarrow> block_loop fuel mem t pOutDataEnd br out pCurOutData)))"

definition em_inflate_decompress_block :: "byte list \<Rightarrow> bitreader \<Rightarrow> bool \<Rightarrow> byte list \<Rightarrow> nat \<Rightarrow> nat \<Rightarrow> block" where
  "em_inflate_decompress_block mem br nDynamicBlock pOutData nOutDataOffset nBlockMaxSize =
     rbind (obind (if nDynamicBlock then read_dynamic_tables mem br
                   else obind fixed_tables (\<lambda>t. Inr (Some (t, br)))) (\<lambda>(t, br).
            obind (block_tables t) (\<lambda>t. Inr (Some (t, br))))) (\<lambda>r.
     case r of None \<Rightarrow> Inr (None, br, pOutData)
     | Some (t, br) \<Rightarrow>
       rbind (block_loop (nBlockMaxSize + 1) mem t (nOutDataOffset + nBlockMaxSize) br pOutData nOutDataOffset)
         (\<lambda>(r, br, out).
       Inr (map_option (\<lambda>cur. cur - nOutDataOffset) r, br, out)))"

section \<open>The wrappers and the blocks\<close>

datatype em_inflate_checksum_type = EM_INFLATE_CHECKSUM_NONE | EM_INFLATE_CHECKSUM_GZIP
  | EM_INFLATE_CHECKSUM_ZLIB

text \<open>The loop over a zero-terminated string: the position after its terminator.\<close>

function skip_string :: "byte list \<Rightarrow> int \<Rightarrow> int \<Rightarrow> int ret" where
  "skip_string mem end p =
     (if p \<ge> end then Inr None
      else rbind (rd mem p) (\<lambda>c. if c \<noteq> 0 then skip_string mem end (p + 1) else Inr (Some (p + 1))))"
  by pat_completeness auto
termination by (relation "measure (\<lambda>(mem, end, p). nat (end - p))") auto

declare skip_string.simps [simp del]

definition gzip_header :: "byte list \<Rightarrow> int \<Rightarrow> int \<Rightarrow> int ret" where
  "gzip_header mem end p =
     (let p = p + 2 in
      if p + 8 > end then Inr None
      else rbind (rd mem p) (\<lambda>method.
      if method \<noteq> 0x08 then Inr None
      else let p = p + 1 in rbind (rd mem p) (\<lambda>flags.
      let p = p + 1 + 6 in
      obind (if flags AND 0x02 \<noteq> 0 then (if p + 2 > end then Inr None else Inr (Some (p + 2)))
             else Inr (Some p)) (\<lambda>p.
      obind (if flags AND 0x04 \<noteq> 0 then
               (if p + 2 > end then Inr None
                else rbind (rd16 mem p) (\<lambda>nExtraFieldLen.
                let p = p + 2 in
                if p + int (unat nExtraFieldLen) > end then Inr None
                else Inr (Some (p + int (unat nExtraFieldLen)))))
             else Inr (Some p)) (\<lambda>p.
      obind (if flags AND 0x08 \<noteq> 0 then skip_string mem end p else Inr (Some p)) (\<lambda>p.
      obind (if flags AND 0x10 \<noteq> 0 then skip_string mem end p else Inr (Some p)) (\<lambda>p.
      if flags AND 0x20 \<noteq> 0 then Inr None else Inr (Some p))))))))"

definition zlib_header :: "byte list \<Rightarrow> int \<Rightarrow> int \<Rightarrow> int ret" where
  "zlib_header mem end p =
     rbind (rd mem p) (\<lambda>CMF.
     rbind (rd mem (p + 1)) (\<lambda>FLG.
     let nCheck = (ucast FLG OR shl (ucast CMF) 8 :: uint16) in
     if shr CMF 4 \<le> 7 \<and> nCheck mod 31 = 0 then
       (let p = p + 2 in
        if FLG AND 0x20 \<noteq> 0 then (if p + 4 > end then Inr None else Inr (Some (p + 4)))
        else Inr (Some p))
     else Inr (Some p)))"

definition read_header :: "byte list \<Rightarrow> int \<Rightarrow> (em_inflate_checksum_type \<times> int) ret" where
  "read_header mem end =
     (if 2 > end then Inr None
      else
        rbind (rd mem 0) (\<lambda>b0.
        rbind (rd mem 1) (\<lambda>b1.
        if b0 = 0x1f \<and> b1 = 0x8b then
          obind (gzip_header mem end 0) (\<lambda>p. Inr (Some (EM_INFLATE_CHECKSUM_GZIP, p)))
        else if b0 AND 0x0f = 0x08 then
          obind (zlib_header mem end 0) (\<lambda>p. Inr (Some (EM_INFLATE_CHECKSUM_ZLIB, p)))
        else Inr (Some (EM_INFLATE_CHECKSUM_NONE, 0)))))"

fun update_checksum :: "em_inflate_checksum_type \<Rightarrow> uint32 \<Rightarrow> byte list \<Rightarrow> uint32" where
  "update_checksum EM_INFLATE_CHECKSUM_GZIP nCheckSum d = em_inflate_crc32_4bytes d nCheckSum"
| "update_checksum EM_INFLATE_CHECKSUM_ZLIB nCheckSum d = em_inflate_adler32_z nCheckSum (Some d)"
| "update_checksum EM_INFLATE_CHECKSUM_NONE nCheckSum d = nCheckSum"

text \<open>
  One block: its header bits and the block routine they select. A block type of 3 fails; at the end
  of the data the type is -1, no case of the switch applies and the result variable is read unset.
\<close>

definition inflate_block :: "byte list \<Rightarrow> bitreader \<Rightarrow> byte list \<Rightarrow> nat \<Rightarrow> nat
    \<Rightarrow> (uint32 \<times> nat option \<times> bitreader \<times> byte list) res" where
  "inflate_block mem br pOutData nCurOutOffset nMaxOutDataSize =
     rbind (em_lsb_bitreader_get_bits mem 1 br) (\<lambda>(nIsFinalBlock, br).
     rbind (em_lsb_bitreader_get_bits mem 2 br) (\<lambda>(nBlockType, br).
     rbind (if nBlockType = 0 then
              em_inflate_copy_stored mem br pOutData nCurOutOffset (nMaxOutDataSize - nCurOutOffset)
            else if nBlockType = 1 then
              em_inflate_decompress_block mem br False pOutData nCurOutOffset (nMaxOutDataSize - nCurOutOffset)
            else if nBlockType = 2 then
              em_inflate_decompress_block mem br True pOutData nCurOutOffset (nMaxOutDataSize - nCurOutOffset)
            else if nBlockType = 3 then Inr (None, br, pOutData)
            else Inl Uninitialised) (\<lambda>(r, br, out).
     Inr (nIsFinalBlock, r, br, out))))"

text \<open>The loop over the blocks. Each block but the last takes at least one bit from the data.\<close>

fun inflate_loop :: "nat \<Rightarrow> byte list \<Rightarrow> em_inflate_checksum_type \<Rightarrow> nat \<Rightarrow> uint32 \<Rightarrow> bitreader
    \<Rightarrow> byte list \<Rightarrow> nat \<Rightarrow> ((uint32 \<times> bitreader \<times> nat) option \<times> byte list) res" where
  "inflate_loop 0 mem ct nMaxOutDataSize nCheckSum br pOutData nCurOutOffset = Inl Hang"
| "inflate_loop (Suc fuel) mem ct nMaxOutDataSize nCheckSum br pOutData nCurOutOffset =
     rbind (inflate_block mem br pOutData nCurOutOffset nMaxOutDataSize)
       (\<lambda>(nIsFinalBlock, nBlockResult, br, out).
     case nBlockResult of None \<Rightarrow> Inr (None, out)
     | Some n \<Rightarrow>
       rbind (slice out nCurOutOffset n) (\<lambda>d.
       let nCheckSum = update_checksum ct nCheckSum d in
       if nIsFinalBlock = 0 then inflate_loop fuel mem ct nMaxOutDataSize nCheckSum br out (nCurOutOffset + n)
       else Inr (Some (nCheckSum, br, nCurOutOffset + n), out)))"

definition be_bytes :: "byte \<Rightarrow> byte \<Rightarrow> byte \<Rightarrow> byte \<Rightarrow> uint32" where
  "be_bytes a b c d = shl (ucast a) 24 OR shl (ucast b) 16 OR shl (ucast c) 8 OR ucast d"

definition check_trailer :: "byte list \<Rightarrow> int \<Rightarrow> em_inflate_checksum_type \<Rightarrow> uint32 \<Rightarrow> int \<Rightarrow> bool res" where
  "check_trailer mem end ct nCheckSum p =
     (if ct = EM_INFLATE_CHECKSUM_NONE then Inr True
      else if p + 4 > end then Inr False
      else
        rbind (rd mem p) (\<lambda>a. rbind (rd mem (p + 1)) (\<lambda>b.
        rbind (rd mem (p + 2)) (\<lambda>c. rbind (rd mem (p + 3)) (\<lambda>d.
        Inr ((if ct = EM_INFLATE_CHECKSUM_GZIP then be_bytes d c b a else be_bytes a b c d) = nCheckSum))))))"

text \<open>
  The whole call, on \<^term>\<open>mem\<close> whose first \<^term>\<open>nCompressedDataSize\<close> bytes are the data. The fuel is the
  number of bits in the data, with some to spare for what the byte alignment gives back. The result
  is the number of bytes or failure, and the output buffer.
\<close>

definition em_inflate :: "byte list \<Rightarrow> nat \<Rightarrow> byte list \<Rightarrow> nat \<Rightarrow> (nat option \<times> byte list) res" where
  "em_inflate mem nCompressedDataSize pOutData nMaxOutDataSize =
     (let end = int nCompressedDataSize in
      rbind (read_header mem end) (\<lambda>h.
      case h of None \<Rightarrow> Inr (None, pOutData)
      | Some (ct, p) \<Rightarrow>
        (let nCheckSum = (if ct = EM_INFLATE_CHECKSUM_ZLIB then em_inflate_adler32_z 0 None else 0) in
         rbind (inflate_loop (16 * nCompressedDataSize + 1) mem ct nMaxOutDataSize nCheckSum
                  (em_lsb_bitreader_init p end) pOutData 0) (\<lambda>(r, out).
         case r of None \<Rightarrow> Inr (None, out)
         | Some (nCheckSum, br, nCurOutOffset) \<Rightarrow>
           rbind (check_trailer mem end ct nCheckSum (pInBlock (snd (em_lsb_bitreader_byte_align br)))) (\<lambda>good.
           Inr (if good then Some nCurOutOffset else None, out))))))"

end
