(* ===== verification/HuffmanProps.thy ===== *)
theory HuffmanProps
  imports Huffman
begin

unbundle bit_operations_syntax

text \<open>
  The Huffman decoder is correct: the counting sort puts the symbols in canonical order, the tables
  describe the canonical code of RFC 1951, and the decoder, by either of its paths, finds the symbol
  whose codeword the stream starts with.
\<close>

section \<open>The counting sort\<close>

text \<open>The symbols of a code length among the first \<^term>\<open>n\<close>, and how many have a length up to \<^term>\<open>l\<close>.\<close>

definition syms :: "byte list \<Rightarrow> nat \<Rightarrow> nat \<Rightarrow> nat list" where
  "syms L n l = filter (\<lambda>i. unat (L ! i) = l) [0..<n]"

fun upto_len :: "byte list \<Rightarrow> nat \<Rightarrow> nat \<Rightarrow> nat" where
  "upto_len L n 0 = 0"
| "upto_len L n (Suc l) = upto_len L n l + length (syms L n (Suc l))"

lemma syms_0 [simp]: "syms L 0 l = []"
  by (simp add: syms_def)

lemma syms_Suc: "syms L (Suc n) l = syms L n l @ (if unat (L ! n) = l then [n] else [])"
  by (simp add: syms_def)

lemma upto_len_mono: "l \<le> m \<Longrightarrow> upto_len L n l \<le> upto_len L n m"
  by (induction m) (auto simp: le_Suc_eq)

lemma upto_len_Suc:
  "upto_len L (Suc n) l = upto_len L n l + (if 1 \<le> unat (L ! n) \<and> unat (L ! n) \<le> l then 1 else 0)"
  by (induction l) (auto simp: syms_Suc)

lemma upto_len_le: "upto_len L n l \<le> n"
proof (induction n)
  case 0
  show ?case by (induction l) simp_all
qed (simp add: upto_len_Suc)

text \<open>Position \<^term>\<open>k\<close> of the canonical order lies in the block of length \<^term>\<open>l\<close>.\<close>

lemma block_unique:
  assumes "upto_len L n (l - 1) \<le> k" "k < upto_len L n l" "upto_len L n (m - 1) \<le> k" "k < upto_len L n m"
  shows "l = m"
proof (rule ccontr)
  assume "l \<noteq> m"
  then consider "l \<le> m - 1" | "m \<le> l - 1" by linarith
  then show False
    using assms upto_len_mono [of l "m - 1" L n] upto_len_mono [of m "l - 1" L n] by cases simp_all
qed

lemma upto_len_block: "1 \<le> l \<Longrightarrow> upto_len L n l = upto_len L n (l - 1) + length (syms L n l)"
  by (cases l) simp_all

declare upto_len.simps(2) [simp del]

lemma count_lengths:
  assumes "n \<le> length L"
  shows "oko (\<lambda>c. c = map (\<lambda>l. length (syms L n l)) [0..<16] \<and> (\<forall>i<n. unat (L ! i) < 16))
    (for_each (count_length L) [0..<n] (replicate 16 0))"
proof (rule for_each_upt [where I = "\<lambda>i c. c = map (\<lambda>l. length (syms L i l)) [0..<16]
      \<and> (\<forall>j<i. unat (L ! j) < 16)"])
  show "replicate 16 0 = map (\<lambda>l. length (syms L 0 l)) [0..<16] \<and> (\<forall>j<0. unat (L ! j) < 16)"
    by (simp add: map_replicate_const)
  fix i c
  assume "0 \<le> i" "i < n" and I: "c = map (\<lambda>l. length (syms L i l)) [0..<16] \<and> (\<forall>j<i. unat (L ! j) < 16)"
  let ?l = "unat (L ! i)"
  show "oko (\<lambda>c. c = map (\<lambda>l. length (syms L (Suc i) l)) [0..<16] \<and> (\<forall>j<Suc i. unat (L ! j) < 16))
    (count_length L i c)"
  proof (cases "?l < 16")
    case True
    have "c[?l := length (syms L i ?l) + 1] = map (\<lambda>l. length (syms L (Suc i) l)) [0..<16]"
      using I by (intro nth_equalityI) (auto simp: nth_list_update syms_Suc)
    with True I \<open>i < n\<close> assms show ?thesis
      by (auto simp: count_length_def word_le_nat_alt less_Suc_eq)
  next
    case False
    with \<open>i < n\<close> assms show ?thesis by (simp add: count_length_def word_le_nat_alt)
  qed
qed simp

lemma place_lengths:
  assumes "c = map (\<lambda>l. length (syms L n l)) [0..<16]"
  shows "oko (\<lambda>(pos, k). length pos = 16 \<and> k = upto_len L n 15
      \<and> (\<forall>l. 1 \<le> l \<and> l < 16 \<longrightarrow> pos ! l = upto_len L n (l - 1)))
    (for_each (place_length c) [1..<16] (replicate 16 0, 0))"
proof -
  have "oko (\<lambda>(pos, k). length pos = 16 \<and> k = upto_len L n (16 - 1)
      \<and> (\<forall>l. 1 \<le> l \<and> l < 16 \<longrightarrow> pos ! l = upto_len L n (l - 1)))
    (for_each (place_length c) [1..<16] (replicate 16 0, 0))"
  proof (rule for_each_upt [where I = "\<lambda>i (pos, k). length pos = 16 \<and> k = upto_len L n (i - 1)
      \<and> (\<forall>l. 1 \<le> l \<and> l < i \<longrightarrow> pos ! l = upto_len L n (l - 1))"])
    fix i s
    assume i: "1 \<le> i" "i < 16" and I: "case s of (pos, k) \<Rightarrow> length pos = 16 \<and> k = upto_len L n (i - 1)
      \<and> (\<forall>l. 1 \<le> l \<and> l < i \<longrightarrow> pos ! l = upto_len L n (l - 1))"
    then show "oko (\<lambda>(pos, k). length pos = 16 \<and> k = upto_len L n (Suc i - 1)
        \<and> (\<forall>l. 1 \<le> l \<and> l < Suc i \<longrightarrow> pos ! l = upto_len L n (l - 1))) (place_length c i s)"
      using assms by (auto simp: place_length_def upto_len_block [of i] nth_list_update)
  qed simp_all
  then show ?thesis by simp
qed

text \<open>While the symbols are placed: where each length stands and what is in the table.\<close>

definition placing :: "byte list \<Rightarrow> nat \<Rightarrow> nat \<Rightarrow> nat \<Rightarrow> nat \<Rightarrow> nat list \<times> uint32 list \<Rightarrow> bool" where
  "placing L n N len i s \<longleftrightarrow> length (fst s) = 16 \<and> length (snd s) = len
     \<and> (\<forall>l. 1 \<le> l \<and> l < 16 \<longrightarrow> fst s ! l = upto_len L n (l - 1) + length (syms L i l))
     \<and> (\<forall>l k. 1 \<le> l \<and> l < 16 \<and> k < length (syms L i l) \<longrightarrow>
          snd s ! (upto_len L n (l - 1) + k) = of_nat (syms L i l ! k))
     \<and> (\<forall>k. upto_len L n 15 \<le> k \<and> k < N \<longrightarrow> snd s ! k = -1)"

lemma syms_length_mono: "i \<le> n \<Longrightarrow> length (syms L i l) \<le> length (syms L n l)"
  by (induction n) (auto simp: syms_Suc le_Suc_eq)

lemma place_symbol_step:
  assumes "placing L n N len i s" "i < n" "n \<le> length L" "n \<le> N" "N \<le> len" "\<forall>i<n. unat (L ! i) < 16"
  shows "oko (placing L n N len (Suc i)) (place_symbol L i s)"
proof (cases "L ! i = 0")
  case True
  then have "syms L (Suc i) l = syms L i l" if "1 \<le> l" for l
    using that by (simp add: syms_Suc)
  with True assms show ?thesis by (auto simp: place_symbol_def placing_def)
next
  case False
  define l where "l = unat (L ! i)"
  define p where "p = upto_len L n (l - 1) + length (syms L i l)"
  obtain pos t where s: "s = (pos, t)" by (cases s)
  have l: "1 \<le> l" "l < 16" using False assms by (auto simp: l_def unat_gt_0 Suc_le_eq)
  have "length (syms L i l) < length (syms L n l)"
    using syms_length_mono [of "Suc i" n L l] assms(2) by (simp add: syms_Suc l_def)
  then have p: "p < upto_len L n l" "upto_len L n (l - 1) \<le> p"
    using l by (simp_all add: p_def upto_len_block [of l])
  then have "p < upto_len L n 15" using upto_len_mono [of l 15 L n] l by simp
  then have pN: "p < N" using upto_len_le [of L n 15] assms by simp
  have other: "upto_len L n (m - 1) + k \<noteq> p" if "1 \<le> m" "k < length (syms L i m)" "m \<noteq> l" for m k
    using that p block_unique [of L n m p l] syms_length_mono [of i n L m] assms(2)
      upto_len_block [of m L n] by fastforce
  have step: "place_symbol L i s = Inr (Some (pos[l := p + 1], t[p := of_nat i]))"
    using assms False l pN by (simp add: place_symbol_def placing_def s l_def [symmetric] p_def)
  have "placing L n N len (Suc i) (pos[l := p + 1], t[p := of_nat i])"
    unfolding placing_def
  proof (intro conjI allI impI)
    fix m k
    assume m: "1 \<le> m \<and> m < 16 \<and> k < length (syms L (Suc i) m)"
    show "snd (pos[l := p + 1], t[p := of_nat i]) ! (upto_len L n (m - 1) + k) = of_nat (syms L (Suc i) m ! k)"
    proof (cases "m = l \<and> k = length (syms L i l)")
      case True
      with pN assms show ?thesis
        by (simp add: p_def [symmetric] syms_Suc l_def [symmetric] placing_def s del: One_nat_def)
    next
      case False
      with m have k: "k < length (syms L i m)" by (auto simp: syms_Suc l_def [symmetric] split: if_splits)
      then have "upto_len L n (m - 1) + k \<noteq> p"
        using other [of m k] m by (cases "m = l") (simp_all add: p_def)
      with k m assms show ?thesis by (simp add: placing_def s syms_Suc nth_append)
    qed
  qed (use assms l p pN \<open>p < upto_len L n 15\<close> in
      \<open>auto simp: placing_def s nth_list_update syms_Suc p_def l_def [symmetric]\<close>)
  then show ?thesis by (simp add: step)
qed

text \<open>
  What preparing gives: the number of symbols, where each length ends in the canonical order, and
  the table of symbols in that order.
\<close>

definition prepared :: "byte list \<Rightarrow> nat \<Rightarrow> nat \<Rightarrow> huffman_decoder \<times> uint32 list \<Rightarrow> bool" where
  "prepared L n N p \<longleftrightarrow> (let (d, t) = p in
     nSymbols d = N \<and> nNumSorted d = upto_len L n 15 \<and> length (nStartingPos d) = 16
     \<and> (\<forall>l. 1 \<le> l \<and> l < 16 \<longrightarrow> nStartingPos d ! l = upto_len L n l)
     \<and> length t = 2 * N \<and> (\<forall>i<n. unat (L ! i) < 16)
     \<and> (\<forall>l k. 1 \<le> l \<and> l < 16 \<and> k < length (syms L n l) \<longrightarrow>
          t ! (upto_len L n (l - 1) + k) = of_nat (syms L n l ! k))
     \<and> (\<forall>k. upto_len L n 15 \<le> k \<and> k < N \<longrightarrow> t ! k = -1))"

lemma fill_table:
  assumes "N \<le> length t"
  shows "oko (\<lambda>t'. length t' = length t \<and> (\<forall>k<N. t' ! k = v) \<and> drop N t' = drop N t)
    (for_each (\<lambda>i t. rbind (aset t i v) (\<lambda>t. Inr (Some t))) [0..<N] t)"
proof (rule for_each_upt [where I = "\<lambda>i t'. length t' = length t \<and> (\<forall>k<i. t' ! k = v) \<and> drop N t' = drop N t"])
qed (use assms in \<open>auto simp: nth_list_update less_Suc_eq\<close>)

lemma prepare_table_spec:
  assumes "n \<le> N" "N \<le> 288" "n \<le> length L" "length t = 2 * N"
  shows "oko (prepared L n N) (em_lsb_huffman_decoder_prepare_table t (int n) (int N) L)"
proof -
  have 1: "oko (\<lambda>s. placing L n N (2 * N) n s) (for_each (place_symbol L) [0..<n] (pos, t'))"
    if "\<forall>l. 1 \<le> l \<and> l < 16 \<longrightarrow> pos ! l = upto_len L n (l - 1)" "length pos = 16"
      "length t' = 2 * N" "\<forall>k<N. t' ! k = -1" "\<forall>i<n. unat (L ! i) < 16" for pos t'
    using that assms
    by (intro for_each_upt [where I = "placing L n N (2 * N)"] place_symbol_step) (auto simp: placing_def)
  have "em_lsb_huffman_decoder_prepare_table t (int n) (int N) L =
      obind (for_each (count_length L) [0..<n] (replicate 16 0)) (\<lambda>c.
      obind (for_each (place_length c) [1..<16] (replicate 16 0, 0)) (\<lambda>(pos, sorted).
      obind (for_each (\<lambda>i t. rbind (aset t i (-1)) (\<lambda>t. Inr (Some t))) [0..<N] t) (\<lambda>tab.
      obind (for_each (place_symbol L) [0..<n] (pos, tab)) (\<lambda>(pos, tab).
      Inr (Some (\<lparr>nFastSymbol = [], nStartIndex = [], nSymbols = N, nNumSorted = sorted,
                  nStartingPos = pos\<rparr>, tab))))))"
    using assms by (simp add: em_lsb_huffman_decoder_prepare_table_def)
  moreover have "oko (prepared L n N) \<dots>"
    using assms
    by (intro oko_obind [OF count_lengths] oko_obind2 [OF place_lengths]
          oko_obind [OF fill_table] oko_obind [OF 1])
      (auto simp: prepared_def placing_def upto_len_block split: prod.splits)
  ultimately show ?thesis by simp
qed

section \<open>The canonical code\<close>

text \<open>The first codeword of each length as RFC 1951 computes it, in section 3.2.2.\<close>

fun first_code :: "byte list \<Rightarrow> nat \<Rightarrow> nat \<Rightarrow> nat" where
  "first_code L n 0 = 0"
| "first_code L n (Suc l) = 2 * (first_code L n l + (if l = 0 then 0 else length (syms L n l)))"

text \<open>The first \<^term>\<open>l\<close> bits of a stream, low bit first, as a codeword, high bit first.\<close>

fun rd_code :: "nat \<Rightarrow> nat \<Rightarrow> nat" where
  "rd_code s 0 = 0"
| "rd_code s (Suc l) = 2 * rd_code s l + s div 2 ^ l mod 2"

text \<open>The stream starts with the codeword of the symbol at position \<^term>\<open>k\<close>, of length \<^term>\<open>l\<close>.\<close>

definition hits :: "byte list \<Rightarrow> nat \<Rightarrow> nat \<Rightarrow> nat \<Rightarrow> nat \<Rightarrow> bool" where
  "hits L n s l k \<longleftrightarrow> 1 \<le> l \<and> l < 16 \<and> upto_len L n (l - 1) \<le> k \<and> k < upto_len L n l
     \<and> rd_code s l = first_code L n l + (k - upto_len L n (l - 1))"

lemma rd_code_less: "rd_code s l < 2 ^ l"
proof (induction l)
  case (Suc l)
  have "s div 2 ^ l mod 2 \<le> 1" by simp
  with Suc show ?case by simp
qed simp

lemma rd_code_div: "rd_code s (l + d) div 2 ^ d = rd_code s l"
proof (induction d)
  case (Suc d)
  have "rd_code s (Suc (l + d)) div 2 ^ Suc d = (2 * rd_code s (l + d) + s div 2 ^ (l + d) mod 2) div 2 div 2 ^ d"
    by (simp add: div_mult2_eq)
  with Suc show ?case by simp
qed simp

lemma bit_rd_code: "bit (rd_code s l) j \<longleftrightarrow> j < l \<and> bit s (l - 1 - j)"
proof (induction l arbitrary: j)
  case (Suc l)
  show ?case
  proof (cases j)
    case 0
    then show ?thesis by (simp add: bit_iff_odd odd_iff_mod_2_eq_one)
  next
    case (Suc i)
    have "bit (rd_code s (Suc l)) (Suc i) = bit (rd_code s l) i"
      by (simp add: bit_Suc)
    with Suc Suc.IH show ?thesis by simp
  qed
qed simp

lemma first_code_le:
  assumes "1 \<le> l"
  shows "2 ^ Suc d * (first_code L n l + length (syms L n l)) \<le> first_code L n (Suc (l + d))"
  using assms by (induction d) (auto simp: algebra_simps)

lemma hits_unique:
  assumes "hits L n s l k" "hits L n s m j"
  shows "l = m \<and> k = j"
proof -
  have less: False if "hits L n s l k" "hits L n s m j" "l < m" for l k m j
  proof -
    obtain d where m: "m = Suc (l + d)" using \<open>l < m\<close> less_iff_Suc_add by blast
    have "first_code L n m \<le> rd_code s m" using that(2) unfolding hits_def by linarith
    moreover have "2 ^ Suc d * (first_code L n l + length (syms L n l)) \<le> first_code L n m"
      unfolding m using that(1) by (intro first_code_le) (simp add: hits_def)
    ultimately have "2 ^ Suc d * (first_code L n l + length (syms L n l)) \<le> rd_code s m"
      by (rule order_trans [rotated])
    then have "first_code L n l + length (syms L n l) \<le> rd_code s m div 2 ^ Suc d"
      by (simp add: less_eq_div_iff_mult_less_eq mult.commute)
    also have "\<dots> = rd_code s l"
      using rd_code_div [of s l "Suc d"] by (simp add: m)
    finally show False
      using that(1) upto_len_block [of l L n] unfolding hits_def by linarith
  qed
  from assms less [of l k m j] less [of m j l k] have "l = m" by (meson linorder_neqE_nat)
  with assms show ?thesis by (auto simp: hits_def)
qed

section \<open>The fast table\<close>

definition swap :: "uint32 \<Rightarrow> uint32 \<Rightarrow> nat \<Rightarrow> uint32 \<Rightarrow> uint32" where
  "swap lo hi k w = shl (w AND lo) k OR shr (w AND hi) k"

lemma below_16: "list_all P [0..<16] \<Longrightarrow> n < 16 \<Longrightarrow> P n"
  by (simp add: list_all_iff)

lemma less_16_cases:
  "n < 16 \<Longrightarrow> (n = 15 \<or> n = 13 \<or> n = 11 \<or> n = 9 \<or> n = 7 \<or> n = 5 \<or> n = 3 \<or> n = (1 :: nat))
    \<or> (n = 14 \<or> n = 12 \<or> n = 10 \<or> n = 8 \<or> n = 6 \<or> n = 4 \<or> n = 2 \<or> n = 0)"
  by arith

lemma bit_masks_low:
  assumes "n < 16"
  shows "bit (0x5555 :: uint32) n = even n" "bit (0xaaaa :: uint32) n = odd n"
    "bit (0x3333 :: uint32) n = even (n div 2)" "bit (0xcccc :: uint32) n = odd (n div 2)"
    "bit (0x0f0f :: uint32) n = even (n div 4)" "bit (0xf0f0 :: uint32) n = odd (n div 4)"
    "bit (0x00ff :: uint32) n = even (n div 8)" "bit (0xff00 :: uint32) n = odd (n div 8)"
  by (rule below_16 [OF _ assms], code_simp)+

lemma bit_low:
  "(n < 16 \<Longrightarrow> bit m n = P) \<Longrightarrow> take_bit 16 m = m \<Longrightarrow> bit (m :: uint32) n = (n < 16 \<and> P)"
  by (metis bit_take_bit_iff)

lemma mask_bits16:
  "take_bit 16 0x5555 = (0x5555 :: uint32)" "take_bit 16 0xaaaa = (0xaaaa :: uint32)"
  "take_bit 16 0x3333 = (0x3333 :: uint32)" "take_bit 16 0xcccc = (0xcccc :: uint32)"
  "take_bit 16 0x0f0f = (0x0f0f :: uint32)" "take_bit 16 0xf0f0 = (0xf0f0 :: uint32)"
  "take_bit 16 0x00ff = (0x00ff :: uint32)" "take_bit 16 0xff00 = (0xff00 :: uint32)"
  by simp_all

lemma bit_masks:
  "bit (0x5555 :: uint32) n = (n < 16 \<and> even n)"
  "bit (0xaaaa :: uint32) n = (n < 16 \<and> odd n)"
  "bit (0x3333 :: uint32) n = (n < 16 \<and> even (n div 2))"
  "bit (0xcccc :: uint32) n = (n < 16 \<and> odd (n div 2))"
  "bit (0x0f0f :: uint32) n = (n < 16 \<and> even (n div 4))"
  "bit (0xf0f0 :: uint32) n = (n < 16 \<and> odd (n div 4))"
  "bit (0x00ff :: uint32) n = (n < 16 \<and> even (n div 8))"
  "bit (0xff00 :: uint32) n = (n < 16 \<and> odd (n div 8))"
  by (rule bit_low; simp only: bit_masks_low mask_bits16)+

lemma bit_swap: "bit (swap lo hi k w) n = (n < 32 \<and> (k \<le> n \<and> bit w (n - k) \<and> bit lo (n - k)
    \<or> bit w (n + k) \<and> bit hi (n + k)))"
  by (auto simp: swap_def bit_simps add.commute dest: bit_imp_le_length)

lemma bit_swaps:
  assumes "n < 16"
  shows "bit (swap 0x5555 0xaaaa 1 w) n = bit w (if even n then n + 1 else n - 1)"
    "bit (swap 0x3333 0xcccc 2 w) n = bit w (if even (n div 2) then n + 2 else n - 2)"
    "bit (swap 0x0f0f 0xf0f0 4 w) n = bit w (if even (n div 4) then n + 4 else n - 4)"
    "bit (swap 0x00ff 0xff00 8 w) n = bit w (if even (n div 8) then n + 8 else n - 8)"
  unfolding bit_swap bit_masks by (rule below_16 [OF _ assms], simp add: upt_rec)+

definition rev16 :: "uint32 \<Rightarrow> uint32" where
  "rev16 w = swap 0x00ff 0xff00 8 (swap 0x0f0f 0xf0f0 4 (swap 0x3333 0xcccc 2 (swap 0x5555 0xaaaa 1 w)))"

lemma bit_rev16: "bit (rev16 w) n = (n < 16 \<and> bit w (15 - n))"
proof (cases "n < 16")
  case True
  then show ?thesis
    unfolding rev16_def
    using less_16_cases [OF True]
    by (elim disjE; simp add: bit_swaps bit_swaps [unfolded One_nat_def];
        simp add: numeral_2_eq_2 numeral_3_eq_3)
next
  case False
  then have "(n - 8) div 8 = 1" if "n - 8 < 16" using that by (intro div_nat_eqI) simp_all
  with False show ?thesis unfolding rev16_def bit_swap [of _ _ 8] bit_masks by auto
qed

lemma bit_reverse_word:
  "l \<le> 16 \<Longrightarrow> bit (reverse_word w l) n = (n < l \<and> bit w (l - 1 - n))"
proof -
  assume l: "l \<le> 16"
  have "reverse_word w l = shr (rev16 w) (16 - l)"
    by (simp only: reverse_word_def rev16_def swap_def Let_def)
  with l show ?thesis by (auto simp: bit_drop_bit_eq bit_rev16)
qed

lemma bit_unat_reverse:
  "l \<le> 16 \<Longrightarrow> bit (unat (reverse_word (of_nat c) l)) j = (j < l \<and> bit c (l - 1 - j))"
  by (auto simp: bit_unsigned_iff bit_reverse_word bit_of_nat_iff)

text \<open>The slots of a codeword are the indices that start with it.\<close>

lemma rd_code_slot:
  assumes "l \<le> 16" "c < 2 ^ l"
  shows "rd_code s l = c \<longleftrightarrow> s mod 2 ^ l = unat (reverse_word (of_nat c) l)"
proof -
  have c: "bit c j = (j < l \<and> bit c j)" for j
    using assms(2) by (metis bit_take_bit_iff take_bit_nat_eq_self)
  note r = bit_unat_reverse [OF assms(1), of c]
  have "rd_code s l = c \<longleftrightarrow> (\<forall>j<l. bit s (l - 1 - j) = bit c j)"
    using c by (auto simp: bit_eq_iff bit_rd_code)
  also have "\<dots> \<longleftrightarrow> (\<forall>j<l. bit s j = bit c (l - 1 - j))"
  proof (rule iffI; intro allI impI)
    fix j
    assume "\<forall>j<l. bit s (l - 1 - j) = bit c j" "j < l"
    then show "bit s j = bit c (l - 1 - j)" by (auto dest!: spec [of _ "l - 1 - j"])
  next
    fix j
    assume "\<forall>j<l. bit s j = bit c (l - 1 - j)" "j < l"
    then show "bit s (l - 1 - j) = bit c j" by (auto dest!: spec [of _ "l - 1 - j"])
  qed
  also have "\<dots> \<longleftrightarrow> take_bit l s = unat (reverse_word (of_nat c) l)"
    unfolding bit_eq_iff bit_take_bit_iff r by (simp, blast)
  finally show ?thesis by (simp add: take_bit_eq_mod)
qed

definition entry :: "nat \<Rightarrow> uint32 \<Rightarrow> uint32" where
  "entry l v = (v AND 0xffffff) OR shl (of_nat l) 24"

lemma reverse_word_less:
  assumes "l \<le> 16"
  shows "unat (reverse_word (of_nat c) l) < 2 ^ l"
proof -
  have "take_bit l (unat (reverse_word (of_nat c) l)) = unat (reverse_word (of_nat c) l)"
    by (rule bit_eqI) (auto simp: bit_take_bit_iff bit_unat_reverse [OF assms])
  then show ?thesis by (metis take_bit_nat_less_exp)
qed

lemma slots_iff:
  fixes s :: nat
  assumes "l \<le> 10" "s < 1024" "r < 2 ^ l"
  shows "(\<exists>j<2 ^ (10 - l). s = r + j * 2 ^ l) \<longleftrightarrow> s mod 2 ^ l = r"
proof
  assume "s mod 2 ^ l = r"
  then have "s = r + s div 2 ^ l * 2 ^ l" using div_mult_mod_eq [of s "2 ^ l"] by simp
  moreover have "s div 2 ^ l < 2 ^ (10 - l)"
    using assms by (simp add: div_less_iff_less_mult flip: power_add)
  ultimately show "\<exists>j<2 ^ (10 - l). s = r + j * 2 ^ l" by blast
qed (use assms in auto)

lemma fill_slots:
  assumes "1 \<le> l" "l \<le> 10" "c < 2 ^ l" "length fast = 1024"
  shows "oko (\<lambda>(fast', w). length fast' = 1024
      \<and> (\<forall>s<1024. fast' ! s = (if rd_code s l = c then v else fast ! s)))
    (for_each (fill_slot l v) [0..<2 ^ (10 - l)] (fast, reverse_word (of_nat c) l))"
proof -
  define r where "r = unat (reverse_word (of_nat c) l)"
  have r: "r < 2 ^ l" using reverse_word_less [of l c] assms by (simp add: r_def)
  have top: "r + j * 2 ^ l < 1024" if "j < 2 ^ (10 - l)" for j
  proof -
    have "r + j * 2 ^ l < (j + 1) * 2 ^ l" using r by simp
    also have "\<dots> \<le> 2 ^ (10 - l) * 2 ^ l" using that by (intro mult_le_mono1) simp
    also have "\<dots> = 1024" using assms by (simp flip: power_add)
    finally show ?thesis .
  qed
  let ?I = "\<lambda>i (fast', w). length fast' = 1024 \<and> w = (of_nat (r + i * 2 ^ l) :: uint32)
    \<and> (\<forall>s<1024. fast' ! s = (if \<exists>j<i. s = r + j * 2 ^ l then v else fast ! s))"
  have "oko (?I (2 ^ (10 - l))) (for_each (fill_slot l v) [0..<2 ^ (10 - l)] (fast, reverse_word (of_nat c) l))"
  proof (rule for_each_upt)
    show "?I 0 (fast, reverse_word (of_nat c) l)" using assms by (simp add: r_def)
    fix i s
    assume "i < 2 ^ (10 - l)" and I: "?I i s"
    then have u: "unat (of_nat (r + i * 2 ^ l) :: uint32) = r + i * 2 ^ l"
      unfolding unsigned_of_nat using top [of i] by (simp add: take_bit_nat_eq_self)
    show "oko (?I (Suc i)) (fill_slot l v i s)"
      using I u top [OF \<open>i < 2 ^ (10 - l)\<close>]
      by (auto simp: fill_slot_def nth_list_update less_Suc_eq push_bit_eq_mult)
  qed simp
  then show ?thesis
    using assms r slots_iff [of l _ r] rd_code_slot [of l c] by (auto elim!: oko_mono simp: r_def)
qed

section \<open>Finalized tables\<close>

text \<open>The tables once the first \<^term>\<open>i\<close> positions are done; \<^term>\<open>t\<close> is the symbol table given.\<close>

definition fast_ok :: "byte list \<Rightarrow> nat \<Rightarrow> uint32 list \<Rightarrow> nat \<Rightarrow> uint32 list \<Rightarrow> bool" where
  "fast_ok L n t i fast \<longleftrightarrow> length fast = 1024 \<and> (\<forall>s<1024.
     (\<forall>l k. k < i \<and> l \<le> 10 \<and> hits L n s l k \<longrightarrow> fast ! s = entry l (t ! k))
     \<and> ((\<forall>l k. k < i \<and> l \<le> 10 \<longrightarrow> \<not> hits L n s l k) \<longrightarrow> fast ! s = 0))"

definition lens_ok :: "byte list \<Rightarrow> nat \<Rightarrow> nat \<Rightarrow> uint32 list \<Rightarrow> nat \<Rightarrow> uint32 list \<Rightarrow> bool" where
  "lens_ok L n N t i tab \<longleftrightarrow> length tab = 2 * N \<and> (\<forall>k<i. tab ! k = t ! k)
     \<and> (\<forall>l k. 1 \<le> l \<and> l < 16 \<and> upto_len L n (l - 1) \<le> k \<and> k < upto_len L n l \<and> k < i \<longrightarrow>
          tab ! (N + k) = of_nat l)"

lemma fast_ok_step:
  assumes "fast_ok L n t i fast" "1 \<le> l" "l < 16" "upto_len L n (l - 1) \<le> i" "i < upto_len L n l"
    "c = first_code L n l + (i - upto_len L n (l - 1))" "length fast' = 1024" "l \<le> 10"
    "\<forall>s<1024. fast' ! s = (if rd_code s l = c then entry l (t ! i) else fast ! s)"
  shows "fast_ok L n t (Suc i) fast'"
  unfolding fast_ok_def
proof (intro conjI allI impI)
  have hit: "hits L n s m i \<longleftrightarrow> m = l \<and> rd_code s l = c" for s m
    using assms block_unique [of L n m i l] by (auto simp: hits_def)
  fix s :: nat
  assume s: "s < 1024"
  {
    fix m k
    assume k: "k < Suc i \<and> m \<le> 10 \<and> hits L n s m k"
    show "fast' ! s = entry m (t ! k)"
    proof (cases "rd_code s l = c")
      case True
      with hit k hits_unique [of L n s m k l i] assms s show ?thesis by auto
    next
      case False
      with hit [of s m] k have "k < i" by (auto simp: less_Suc_eq)
      with False k assms s show ?thesis by (simp add: fast_ok_def)
    qed
  }
  assume none: "\<forall>m k. k < Suc i \<and> m \<le> 10 \<longrightarrow> \<not> hits L n s m k"
  with hit [of s l] assms have "rd_code s l \<noteq> c" by (metis lessI)
  with none assms s show "fast' ! s = 0" by (simp add: fast_ok_def)
qed (use assms in simp)

lemma fast_ok_skip:
  assumes "fast_ok L n t i fast" "10 < l" "upto_len L n (l - 1) \<le> i" "i < upto_len L n l"
  shows "fast_ok L n t (Suc i) fast"
proof -
  have "\<not> hits L n s m i" if "m \<le> 10" for s m
    using assms that block_unique [of L n m i l] by (auto simp: hits_def)
  with assms show ?thesis unfolding fast_ok_def less_Suc_eq by blast
qed

lemma lens_ok_step:
  assumes "lens_ok L n N t i tab" "1 \<le> l" "l < 16" "upto_len L n (l - 1) \<le> i" "i < upto_len L n l"
    "i < N" "tab ! i = t ! i"
  shows "lens_ok L n N t (Suc i) (tab[N + i := of_nat l])"
  unfolding lens_ok_def
proof (intro conjI allI impI)
  fix m k
  assume k: "1 \<le> m \<and> m < 16 \<and> upto_len L n (m - 1) \<le> k \<and> k < upto_len L n m \<and> k < Suc i"
  show "tab[N + i := of_nat l] ! (N + k) = of_nat m"
  proof (cases "k = i")
    case True
    with k assms block_unique [of L n m i l] have "m = l" by simp
    with True assms show ?thesis by (simp add: lens_ok_def)
  next
    case False
    with k assms show ?thesis by (simp add: lens_ok_def)
  qed
qed (use assms in \<open>auto simp: lens_ok_def less_Suc_eq nth_list_update\<close>)

lemma finalize_symbol_step:
  assumes d: "nSymbols d = N" "upto_len L n 15 \<le> N"
    and l: "1 \<le> l" "l < 16" and i: "upto_len L n (l - 1) \<le> i" "i < upto_len L n l"
    and I: "lens_ok L n N t i tab" "fast_ok L n t i fast" "\<forall>k<N. tab ! k = t ! k"
    and c: "c = first_code L n l + (i - upto_len L n (l - 1))" "c \<le> 2 ^ l"
  shows "oko (\<lambda>(tab', fast', code'). lens_ok L n N t (Suc i) tab' \<and> fast_ok L n t (Suc i) fast'
      \<and> (\<forall>k<N. tab' ! k = t ! k) \<and> code' = of_nat (c + 1) \<and> c + 1 \<le> 2 ^ l)
    (finalize_symbol d l i (tab, fast, of_nat c))"
proof -
  have iN: "i < N" using d i upto_len_mono [of l 15 L n] l by simp
  have lens: "lens_ok L n N t (Suc i) (tab[N + i := of_nat l])"
    using assms iN by (intro lens_ok_step) simp_all
  have len: "length tab = 2 * N" using I by (simp add: lens_ok_def)
  have "(2 :: nat) ^ l \<le> 2 ^ 15" using l by (intro power_increasing) simp_all
  with c(2) have u: "unat (of_nat c :: uint32) = c" by (simp add: unsigned_of_nat take_bit_nat_eq_self)
  have "unat (of_nat (2 ^ l) :: uint32) = 2 ^ l"
    unfolding unsigned_of_nat using \<open>(2 :: nat) ^ l \<le> 2 ^ 15\<close> l by (simp add: take_bit_nat_eq_self)
  then have "of_nat c < (2 :: uint32) ^ l \<longleftrightarrow> c < 2 ^ l"
    by (simp add: word_less_nat_alt u)
  then have chk: "(shl 1 l \<le> (of_nat c :: uint32)) = (\<not> c < 2 ^ l)"
    by (simp add: push_bit_eq_mult not_less [symmetric])
  show ?thesis
  proof (cases "c < 2 ^ l \<and> l \<le> 10")
    case True
    have "oko (\<lambda>(fast', w). length fast' = 1024
        \<and> (\<forall>s<1024. fast' ! s = (if rd_code s l = c then entry l (t ! i) else fast ! s)))
      (for_each (fill_slot l (entry l (t ! i))) [0..<2 ^ (10 - l)] (fast, reverse_word (of_nat c) l))"
      using True l I by (intro fill_slots) (simp_all add: fast_ok_def)
    then have "oko (\<lambda>(fast', w). fast_ok L n t (Suc i) fast')
      (for_each (fill_slot l (entry l (t ! i))) [0..<2 ^ (10 - l)] (fast, reverse_word (of_nat c) l))"
      by (rule oko_mono) (use True l i I c in \<open>auto intro!: fast_ok_step [of L n t i fast l c]\<close>)
    then show ?thesis
      using True lens len iN I d chk
      by (auto simp: finalize_symbol_def entry_def obind_assoc nth_list_update elim!: oko_obind)
  next
    case False
    then show ?thesis
      using lens len iN I d chk i fast_ok_skip [of L n t i fast l]
      by (auto simp: finalize_symbol_def nth_list_update)
  qed
qed

lemma finalize_symbols:
  assumes d: "nSymbols d = N" "upto_len L n 15 \<le> N" and l: "1 \<le> l" "l < 16"
    and I: "lens_ok L n N t (upto_len L n (l - 1)) tab" "fast_ok L n t (upto_len L n (l - 1)) fast"
      "\<forall>k<N. tab ! k = t ! k" and f: "first_code L n l \<le> 2 ^ l"
  shows "oko (\<lambda>(tab', fast', code'). lens_ok L n N t (upto_len L n l) tab' \<and> fast_ok L n t (upto_len L n l) fast'
      \<and> (\<forall>k<N. tab' ! k = t ! k) \<and> shl code' 1 = of_nat (first_code L n (Suc l)) \<and> first_code L n (Suc l) \<le> 2 ^ Suc l)
    (for_each (finalize_symbol d l) [upto_len L n (l - 1)..<upto_len L n l] (tab, fast, of_nat (first_code L n l)))"
proof -
  let ?a = "upto_len L n (l - 1)"
  let ?I = "\<lambda>i (tab', fast', code'). lens_ok L n N t i tab' \<and> fast_ok L n t i fast'
    \<and> (\<forall>k<N. tab' ! k = t ! k) \<and> code' = (of_nat (first_code L n l + (i - ?a)) :: uint32)
    \<and> first_code L n l + (i - ?a) \<le> 2 ^ l"
  have "oko (?I (upto_len L n l)) (for_each (finalize_symbol d l) [?a..<upto_len L n l]
      (tab, fast, of_nat (first_code L n l)))"
  proof (rule for_each_upt)
    fix i s
    assume i: "?a \<le> i" "i < upto_len L n l" and I: "?I i s"
    obtain tab' fast' code' where s: "s = (tab', fast', code')" by (cases s)
    define c where "c = first_code L n l + (i - ?a)"
    have "first_code L n l + (Suc i - ?a) = c + 1" using i by (simp add: c_def)
    then show "oko (?I (Suc i)) (finalize_symbol d l i s)"
      using finalize_symbol_step [OF d l i, of t tab' fast' c] I by (simp add: s c_def del: of_nat_add)
  qed (use I f upto_len_mono [of "l - 1" l] in auto)
  then show ?thesis
    using l upto_len_block [of l L n] by (auto elim!: oko_mono simp: push_bit_eq_mult)
qed

text \<open>The start indices, for the lengths below \<^term>\<open>l\<close> that come before the last symbol.\<close>

definition starts_ok :: "byte list \<Rightarrow> nat \<Rightarrow> nat \<Rightarrow> uint32 list \<Rightarrow> bool" where
  "starts_ok L n l start \<longleftrightarrow> length start = 16 \<and> (\<forall>m. 1 \<le> m \<and> m < l \<and> upto_len L n (m - 1) < upto_len L n 15 \<longrightarrow>
     start ! m = of_nat (upto_len L n (m - 1)) - of_nat (first_code L n m) \<and> first_code L n m \<le> 2 ^ m)"

definition building :: "byte list \<Rightarrow> nat \<Rightarrow> nat \<Rightarrow> uint32 list \<Rightarrow> nat
    \<Rightarrow> uint32 list \<times> nat \<times> uint32 list \<times> uint32 list \<times> uint32 \<Rightarrow> bool" where
  "building L n N t l s \<longleftrightarrow> (let (start, i, tab, fast, code) = s in
     i = upto_len L n (min (l - 1) 15) \<and> lens_ok L n N t i tab \<and> fast_ok L n t i fast \<and> starts_ok L n l start
     \<and> (\<forall>k<N. tab ! k = t ! k)
     \<and> (i < upto_len L n 15 \<longrightarrow> code = of_nat (first_code L n l) \<and> first_code L n l \<le> 2 ^ l))"

lemma starts_ok_step:
  assumes "starts_ok L n l start" "l < 16" "first_code L n l \<le> 2 ^ l"
  shows "starts_ok L n (Suc l) (start[l := of_nat (upto_len L n (l - 1)) - of_nat (first_code L n l)])"
  using assms by (auto simp: starts_ok_def nth_list_update less_Suc_eq)

lemma finalize_length_step:
  assumes p: "prepared L n N (d, t0)" and l: "1 \<le> l" "l < 17" and N: "n \<le> N" and b: "building L n N t l s"
  shows "oko (building L n N t (Suc l)) (finalize_length d l s)"
proof -
  obtain start i tab fast code where s: "s = (start, i, tab, fast, code)" by (cases s)
  have d: "nSymbols d = N" "upto_len L n 15 \<le> N" "nNumSorted d = upto_len L n 15" "length (nStartingPos d) = 16"
    "\<forall>l. 1 \<le> l \<and> l < 16 \<longrightarrow> nStartingPos d ! l = upto_len L n l"
    using p upto_len_le [of L n 15] N by (auto simp: prepared_def)
  show ?thesis
  proof (cases "i < upto_len L n 15")
    case True
    have l16: "l < 16" using True b l by (cases "l = 16") (auto simp: building_def s)
    then have i: "i = upto_len L n (l - 1)" and m: "max i (upto_len L n l) = upto_len L n l"
      using b upto_len_mono [of "l - 1" l L n] by (auto simp: building_def s)
    have code: "code = of_nat (first_code L n l)" "first_code L n l \<le> 2 ^ l"
      using b True by (auto simp: building_def s)
    have "oko (\<lambda>(tab', fast', code'). lens_ok L n N t (upto_len L n l) tab' \<and> fast_ok L n t (upto_len L n l) fast'
        \<and> (\<forall>k<N. tab' ! k = t ! k) \<and> shl code' 1 = of_nat (first_code L n (Suc l)) \<and> first_code L n (Suc l) \<le> 2 ^ Suc l)
      (for_each (finalize_symbol d l) [i..<upto_len L n l] (tab, fast, code))"
      unfolding i code(1) using b l16 d l code(2)
      by (intro finalize_symbols) (auto simp: building_def s i)
    moreover have "starts_ok L n (Suc l) (start[l := of_nat i - code])" "length start = 16"
      using b starts_ok_step [of L n l start] code l16 by (auto simp: building_def s i starts_ok_def)
    ultimately show ?thesis
      using True l16 l d m
      by (auto simp: s finalize_length_def building_def elim!: oko_obind)
  next
    case False
    have min: "min (l - 1) 15 = l - 1" using l by simp
    have i: "upto_len L n (l - 1) = upto_len L n 15" "i = upto_len L n 15"
      using False b l upto_len_mono [of "l - 1" 15 L n] by (auto simp: building_def s min)
    moreover have "upto_len L n (min l 15) = upto_len L n 15"
      using i(1) upto_len_mono [of "l - 1" "min l 15" L n] upto_len_mono [of "min l 15" 15 L n] l by simp
    moreover have "starts_ok L n (Suc l) start"
      using b i(1) by (auto simp: building_def s starts_ok_def less_Suc_eq)
    moreover have "lens_ok L n N t i tab \<and> fast_ok L n t i fast \<and> (\<forall>k<N. tab ! k = t ! k)"
      using b by (auto simp: building_def s)
    ultimately have "building L n N t (Suc l) s"
      by (simp add: building_def s)
    moreover have "finalize_length d l s = Inr (Some s)"
      using False d by (simp add: finalize_length_def s)
    ultimately show ?thesis by simp
  qed
qed

text \<open>
  What finalizing gives: the symbol table up to the last symbol, the length of each position, the
  start indices and the fast table.
\<close>

definition finalized :: "byte list \<Rightarrow> nat \<Rightarrow> nat \<Rightarrow> uint32 list \<Rightarrow> huffman_decoder \<times> uint32 list \<Rightarrow> bool" where
  "finalized L n N t p \<longleftrightarrow> (let (d, tab) = p in
     nSymbols d = N \<and> lens_ok L n N t (upto_len L n 15) tab \<and> fast_ok L n t (upto_len L n 15) (nFastSymbol d)
     \<and> starts_ok L n 17 (nStartIndex d) \<and> (\<forall>k. upto_len L n 15 \<le> k \<and> k < N \<longrightarrow> tab ! (N + k) = 0))"

lemma clear_symbols:
  assumes "nSymbols d = N" "length tab = 2 * N" "i \<le> N"
  shows "oko (\<lambda>tab'. length tab' = 2 * N \<and> (\<forall>k<i. tab' ! k = tab ! k \<and> tab' ! (N + k) = tab ! (N + k))
      \<and> (\<forall>k. i \<le> k \<and> k < N \<longrightarrow> tab' ! (N + k) = 0))
    (for_each (clear_symbol d) [i..<N] tab)"
proof (rule for_each_upt [where I = "\<lambda>j tab'. length tab' = 2 * N
      \<and> (\<forall>k<i. tab' ! k = tab ! k \<and> tab' ! (N + k) = tab ! (N + k))
      \<and> (\<forall>k. i \<le> k \<and> k < j \<longrightarrow> tab' ! (N + k) = 0)"])
qed (use assms in \<open>auto simp: clear_symbol_def nth_list_update less_Suc_eq\<close>)

lemma finalize_table_spec:
  assumes p: "prepared L n N (d, t0)" and N: "n \<le> N" and t: "length t = 2 * N"
  shows "oko (finalized L n N t) (em_lsb_huffman_decoder_finalize_table d t)"
proof -
  have E: "upto_len L n 15 \<le> N" using upto_len_le [of L n 15] N by simp
  have "building L n N t 1 (replicate 16 0, 0, t, replicate (2 ^ 10) 0, 0)"
    using t by (auto simp: building_def lens_ok_def fast_ok_def starts_ok_def)
  then have "oko (building L n N t 17)
      (for_each (finalize_length d) [1..<17] (replicate 16 0, 0, t, replicate (2 ^ 10) 0, 0))"
    using p N by (intro for_each_upt [where I = "building L n N t"] finalize_length_step) simp_all
  then show ?thesis
    unfolding em_lsb_huffman_decoder_finalize_table_def
  proof (rule oko_obind)
    fix s
    assume b: "building L n N t 17 s"
    obtain start i tab fast code where s: "s = (start, i, tab, fast, code)" by (cases s)
    have i: "i = upto_len L n 15" and d: "nSymbols d = N" and len: "length tab = 2 * N"
      using b p by (auto simp: building_def prepared_def lens_ok_def s)
    have "oko (\<lambda>tab'. finalized L n N t (d\<lparr>nFastSymbol := fast, nStartIndex := start\<rparr>, tab'))
        (for_each (clear_symbol d) [i..<N] tab)"
      using b E clear_symbols [OF d len, of i]
      by (auto elim!: oko_mono simp: building_def finalized_def lens_ok_def s i d)
    then show "oko (finalized L n N t) (case s of (start, i, tab, fast, code) \<Rightarrow>
        obind (for_each (clear_symbol d) [i..<nSymbols d] tab) (\<lambda>tab.
        Inr (Some (d\<lparr>nFastSymbol := fast, nStartIndex := start\<rparr>, tab))))"
      by (auto simp: s d elim!: oko_obind)
  qed
qed

section \<open>Decoding\<close>

lemma block_exists: "k < upto_len L n m \<Longrightarrow> \<exists>l. 1 \<le> l \<and> l \<le> m \<and> upto_len L n (l - 1) \<le> k \<and> k < upto_len L n l"
proof (induction m)
  case (Suc m)
  show ?case
  proof (cases "k < upto_len L n m")
    case True
    with Suc.IH show ?thesis by (metis le_Suc_eq)
  next
    case False
    with Suc.prems show ?thesis by (intro exI [of _ "Suc m"]) simp
  qed
qed simp

lemma of_nat32 [simp]: "a < 2 ^ 32 \<Longrightarrow> unat (of_nat a :: uint32) = a"
  by (simp add: unsigned_of_nat take_bit_nat_eq_self)

lemma of_nat_inj32:
  assumes "(of_nat a :: uint32) = of_nat b" "a < 2 ^ 32" "b < 2 ^ 32"
  shows "a = b"
  using arg_cong [OF assms(1), of unat] assms(2,3) by simp

text \<open>A hit in the slow path's table lookup is a codeword the stream starts with.\<close>

lemma table_hit:
  assumes f: "finalized L n N t (d, tab)" and N: "n \<le> N" "N \<le> 288" and l: "1 \<le> l" "l < 16"
    and idx: "idx = nStartIndex d ! l + of_nat (rd_code s l)"
  shows "hits L n s l k \<Longrightarrow> unat idx = k \<and> k < N \<and> tab ! (N + k) = of_nat l \<and> tab ! k = t ! k"
    and "unat idx < N \<Longrightarrow> tab ! (N + unat idx) = of_nat l \<Longrightarrow> hits L n s l (unat idx)"
proof -
  have E: "upto_len L n m \<le> 288" for m using upto_len_le [of L n m] N by simp
  have pow: "(2 :: nat) ^ l \<le> 2 ^ 15" using l by (intro power_increasing) simp_all
  have start: "nStartIndex d ! l = of_nat (upto_len L n (l - 1)) - of_nat (first_code L n l)"
      "first_code L n l \<le> 2 ^ l" if "upto_len L n (l - 1) < upto_len L n 15"
    using that f l by (auto simp: finalized_def starts_ok_def)
  {
    assume h: "hits L n s l k"
    then have k: "upto_len L n (l - 1) \<le> k" "k < upto_len L n l" by (auto simp: hits_def)
    then have k15: "k < upto_len L n 15" using upto_len_mono [of l 15 L n] l by simp
    have "idx = of_nat (upto_len L n (l - 1)) + of_nat (k - upto_len L n (l - 1))"
      using start k k15 h by (simp add: idx hits_def)
    also have "\<dots> = of_nat k" using k by (simp flip: of_nat_add)
    finally have "unat idx = k" using k15 E [of 15] by simp
    moreover have "k < N" using k15 upto_len_le [of L n 15] N by simp
    ultimately show "unat idx = k \<and> k < N \<and> tab ! (N + k) = of_nat l \<and> tab ! k = t ! k"
      using f k k15 l by (auto simp: finalized_def lens_ok_def)
  }
  assume j: "unat idx < N" "tab ! (N + unat idx) = of_nat l"
  define j where "j = unat idx"
  have small: "(of_nat a :: uint32) = of_nat b \<longleftrightarrow> a = b" if "a < 100000" "b < 100000" for a b
    using of_nat_inj32 [of a b] that by auto
  have "(of_nat l :: uint32) \<noteq> of_nat 0" using l by (subst small) simp_all
  then have "\<not> (upto_len L n 15 \<le> j \<and> j < N)"
    using j f by (auto simp: finalized_def j_def)
  then have j15: "j < upto_len L n 15" using j by (simp add: j_def)
  then obtain m where m: "1 \<le> m" "m \<le> 15" "upto_len L n (m - 1) \<le> j" "j < upto_len L n m"
    using block_exists by blast
  then have "tab ! (N + j) = of_nat m" using f j15 by (simp add: finalized_def lens_ok_def)
  with j(2) have "(of_nat m :: uint32) = of_nat l" by (simp only: j_def)
  with small [of m l] m(2) l have "m = l" by linarith
  with m have b: "upto_len L n (l - 1) \<le> j" "j < upto_len L n l" by simp_all
  have "of_nat j = idx" by (simp add: j_def)
  also have "\<dots> = of_nat (upto_len L n (l - 1)) - of_nat (first_code L n l) + of_nat (rd_code s l)"
    using start b j15 by (simp add: idx)
  finally have "(of_nat (rd_code s l) :: uint32) = of_nat (first_code L n l + (j - upto_len L n (l - 1)))"
    using b by (simp add: of_nat_diff)
  then have "rd_code s l = first_code L n l + (j - upto_len L n (l - 1))"
    using rd_code_less [of s l] pow start(2) b j15 E [of 15] by (subst (asm) small) simp_all
  with b l show "hits L n s l (unat idx)" by (simp add: hits_def j_def)
qed

lemma rd_code_word:
  assumes "m < 16" "s < 2 ^ 16"
  shows "of_nat (2 * rd_code s m) OR (of_nat (s div 2 ^ m) AND 1) = (of_nat (rd_code s (Suc m)) :: uint32)"
proof -
  have y: "s div 2 ^ m < 2 ^ 32" by (rule le_less_trans [OF div_le_dividend]) (use assms in simp)
  have "(of_nat (s div 2 ^ m) AND 1 :: uint32) = of_nat (s div 2 ^ m mod 2)"
    using y by (simp add: and_one_eq word_unat_eq_iff unat_mod_distrib)
  moreover have "(of_nat (2 * x) OR of_nat (y mod 2) :: uint32) = of_nat (2 * x + y mod 2)" for x y :: nat
    by (cases "even y") (auto simp: odd_iff_mod_2_eq_one even_iff_mod_2_eq_zero or_one_eq)
  ultimately show ?thesis by simp
qed

text \<open>What the decoder is to find in a stream: the position whose codeword the stream starts with.\<close>

definition found :: "byte list \<Rightarrow> nat \<Rightarrow> uint32 list \<Rightarrow> nat \<Rightarrow> nat \<Rightarrow> bitreader \<Rightarrow> (uint32 \<times> bitreader) res \<Rightarrow> bool" where
  "found L n t s m br r \<longleftrightarrow>
     (\<forall>l k. m < l \<and> hits L n s l k \<longrightarrow> r = Inr (t ! k, em_lsb_bitreader_consume_bits l br))
     \<and> ((\<forall>l k. m < l \<longrightarrow> \<not> hits L n s l k) \<longrightarrow> r = Inr (-1, br))"

lemma found_hit:
  assumes "hits L n s l k" "m < l"
  shows "found L n t s m br (Inr (t ! k, em_lsb_bitreader_consume_bits l br))"
proof -
  have "l' = l \<and> k' = k" if "hits L n s l' k'" for l' k' using hits_unique [OF that assms(1)] .
  with assms show ?thesis unfolding found_def by blast
qed

lemma found_skip:
  assumes "found L n t s (Suc m) br r" "\<nexists>k. hits L n s (Suc m) k"
  shows "found L n t s m br r"
proof -
  have "Suc m < l" if "m < l" "hits L n s l k" for l k using that assms(2) by (metis Suc_lessI)
  with assms(1) show ?thesis unfolding found_def by (blast dest: Suc_lessD)
qed

lemma read_slow_found:
  assumes f: "finalized L n N t (d, tab)" and N: "n \<le> N" "N \<le> 288" and s: "s < 2 ^ 16" and m: "m \<le> 15"
  shows "found L n t s m br (read_slow d tab br (of_nat (s div 2 ^ m)) (of_nat (2 * rd_code s m)) [Suc m..<16])"
  using m
proof (induction "15 - m" arbitrary: m)
  case 0
  then show ?case by (auto simp: found_def hits_def)
next
  case (Suc x)
  then have m: "m < 15" by simp
  let ?l = "Suc m"
  define idx where "idx = nStartIndex d ! ?l + of_nat (rd_code s ?l)"
  have u: "[?l..<16] = ?l # [Suc ?l..<16]" using m by (simp add: upt_rec)
  have len: "length (nStartIndex d) = 16" "length tab = 2 * N" "nSymbols d = N"
    using f by (auto simp: finalized_def starts_ok_def lens_ok_def)
  have code: "of_nat (2 * rd_code s m) OR (of_nat (s div 2 ^ m) AND 1) = (of_nat (rd_code s ?l) :: uint32)"
    using m s by (intro rd_code_word) simp_all
  have "shr (of_nat y :: uint32) 1 = of_nat (y div 2)" if "y < 2 ^ 32" for y
    using that by (simp add: drop_bit_eq_div word_unat_eq_iff unat_div_distrib)
  moreover have "s div 2 ^ m < 2 ^ 32" by (rule le_less_trans [OF div_le_dividend]) (use s in simp)
  ultimately have nx: "shr (of_nat (s div 2 ^ m) :: uint32) 1 = of_nat (s div 2 ^ ?l)"
    "shl (of_nat (rd_code s ?l) :: uint32) 1 = of_nat (2 * rd_code s ?l)"
    by (simp_all only: power_Suc2 div_mult2_eq) (simp add: push_bit_eq_mult)
  have IH: "found L n t s ?l br (read_slow d tab br (of_nat (s div 2 ^ ?l)) (of_nat (2 * rd_code s ?l)) [Suc ?l..<16])"
    using Suc by (intro Suc.hyps(1)) simp_all
  note hit = table_hit [OF f N, of ?l idx s, OF _ _ idx_def]
  show ?case
  proof (cases "\<exists>k. hits L n s ?l k")
    case True
    then obtain k where k: "hits L n s ?l k" by blast
    with hit(1) [of k] m len have "read_slow d tab br (of_nat (s div 2 ^ m)) (of_nat (2 * rd_code s m)) [?l..<16]
        = Inr (t ! k, em_lsb_bitreader_consume_bits ?l br)"
      unfolding u read_slow.simps code Let_def by (simp add: idx_def)
    with k show ?thesis by (simp only:) (rule found_hit, simp_all)
  next
    case False
    with hit(2) m have "\<not> (unat idx < N \<and> tab ! (N + unat idx) = of_nat ?l)" by auto
    then have "read_slow d tab br (of_nat (s div 2 ^ m)) (of_nat (2 * rd_code s m)) [?l..<16]
        = read_slow d tab br (of_nat (s div 2 ^ ?l)) (of_nat (2 * rd_code s ?l)) [Suc ?l..<16]"
      unfolding u read_slow.simps code Let_def nx using m len by (auto simp: idx_def)
    with found_skip [OF IH] False show ?thesis by simp
  qed
qed

lemma rd_code_mod: "l \<le> m \<Longrightarrow> rd_code (s mod 2 ^ m) l = rd_code s l"
proof (induction l)
  case (Suc l)
  have "s mod 2 ^ m div 2 ^ l mod 2 = s div 2 ^ l mod 2"
    using Suc.prems by (metis Suc_le_lessD bit_iff_odd bit_take_bit_iff mod2_eq_if take_bit_eq_mod)
  with Suc show ?case by simp
qed simp

lemma hits_mod: "l \<le> 10 \<Longrightarrow> hits L n (s mod 1024) l k = hits L n s l k"
  using rd_code_mod [of l 10 s] by (simp add: hits_def)

lemma entry_parts:
  assumes "v < 2 ^ 24" "1 \<le> l" "l \<le> 10"
  shows "entry l v \<noteq> 0" "entry l v AND 0xffffff = v" "unat (shr (entry l v) 24) = l"
proof -
  have "take_bit 24 v = v" using less_mask_eq [OF assms(1)] by (simp add: take_bit_eq_mask)
  then have v: "bit v j \<Longrightarrow> j < 24" for j by (metis bit_take_bit_iff)
  have "take_bit 8 (of_nat l :: uint32) = of_nat l"
    using assms by (simp add: take_bit_eq_mod word_unat_eq_iff unat_mod_distrib)
  then have l: "bit (of_nat l :: uint32) j \<Longrightarrow> j < 8" for j by (metis bit_take_bit_iff)
  have m: "(0xffffff :: uint32) = mask 24" by (simp add: mask_eq_exp_minus_1)
  have b: "bit (entry l v) j = (if j < 24 then bit v j else j < 32 \<and> bit (of_nat l :: uint32) (j - 24))" for j
    using v [of j] by (auto simp: entry_def m bit_simps)
  show "entry l v AND 0xffffff = v"
    by (rule bit_eqI) (auto simp: b m bit_simps dest: v)
  have "shr (entry l v) 24 = of_nat l"
    by (rule bit_eqI) (auto simp: b bit_drop_bit_eq dest: l)
  then show "unat (shr (entry l v) 24) = l" using assms by simp
  then show "entry l v \<noteq> 0" using assms by auto
qed

text \<open>
  Both paths together: with tables for code lengths \<^term>\<open>L\<close>, the decoder finds the position whose
  codeword the next sixteen bits start with, and takes that codeword's bits.
\<close>

lemma read_value_found:
  assumes f: "finalized L n N t (d, tab)" and N: "n \<le> N" "N \<le> 288"
    and t: "\<forall>k<upto_len L n 15. t ! k < 2 ^ 24"
    and p: "em_lsb_bitreader_peek_16bits mem br = Inr (v, br')" "unat v < 2 ^ 16"
  shows "found L n t (unat v) 0 br' (em_lsb_huffman_decoder_read_value mem d tab br)"
proof -
  define s where "s = unat v"
  have v: "v = of_nat s" by (simp add: s_def)
  have i: "unat (v AND (shl 1 10 - 1)) = s mod 1024"
  proof -
    have "v AND (shl 1 10 - 1) = take_bit 10 v" by (simp add: take_bit_eq_mask mask_eq_exp_minus_1)
    then have "unat (v AND (shl 1 10 - 1)) = take_bit 10 s" by (simp only: unsigned_take_bit_eq s_def)
    then show ?thesis by (simp add: take_bit_eq_mod)
  qed
  have fast: "fast_ok L n t (upto_len L n 15) (nFastSymbol d)" using f by (simp add: finalized_def)
  then have len: "length (nFastSymbol d) = 1024" by (simp add: fast_ok_def)
  show ?thesis
  proof (cases "\<exists>l k. l \<le> 10 \<and> hits L n s l k")
    case True
    then obtain l k where h: "l \<le> 10" "hits L n s l k" by blast
    then have k: "k < upto_len L n 15" "1 \<le> l"
      using upto_len_mono [of l 15 L n] by (auto simp: hits_def)
    with h fast have "nFastSymbol d ! (s mod 1024) = entry l (t ! k)"
      by (simp add: fast_ok_def hits_mod)
    then have "em_lsb_huffman_decoder_read_value mem d tab br = Inr (t ! k, em_lsb_bitreader_consume_bits l br')"
      using p t k h(1) entry_parts [of "t ! k" l] len
      by (simp add: em_lsb_huffman_decoder_read_value_def i [simplified])
    with found_hit [OF h(2)] k show ?thesis by (simp add: s_def)
  next
    case False
    then have "nFastSymbol d ! (s mod 1024) = 0" using fast by (simp add: fast_ok_def hits_mod)
    then have "em_lsb_huffman_decoder_read_value mem d tab br = read_slow d tab br' v 0 [1..<16]"
      using p len by (simp add: em_lsb_huffman_decoder_read_value_def i [simplified])
    with read_slow_found [OF f N, of s 0 br'] p show ?thesis by (simp add: s_def)
  qed
qed

section \<open>The decoder implements the canonical code\<close>

text \<open>
  The codeword of symbol \<^term>\<open>i\<close> in RFC 1951: the first of its length, plus the number of smaller symbols
  of that length.
\<close>

definition rfc_code :: "byte list \<Rightarrow> nat \<Rightarrow> nat \<Rightarrow> nat" where
  "rfc_code L n i = first_code L n (unat (L ! i)) + length (filter (\<lambda>j. L ! j = L ! i) [0..<i])"

definition starts_with :: "byte list \<Rightarrow> nat \<Rightarrow> nat \<Rightarrow> nat \<Rightarrow> bool" where
  "starts_with L n s i \<longleftrightarrow> i < n \<and> L ! i \<noteq> 0 \<and> rd_code s (unat (L ! i)) = rfc_code L n i"

lemma syms_nth:
  assumes "i < n"
  shows "length (syms L i (unat (L ! i))) < length (syms L n (unat (L ! i)))"
    "syms L n (unat (L ! i)) ! length (syms L i (unat (L ! i))) = i"
proof -
  have "[0..<n] = [0..<i] @ i # [Suc i..<n]" 
    using upt_add_eq_append [of 0 i "n - i"] upt_conv_Cons [OF assms] assms by simp
  then have "syms L n (unat (L ! i)) = syms L i (unat (L ! i)) @ i # filter (\<lambda>j. unat (L ! j) = unat (L ! i)) [Suc i..<n]"
    by (simp add: syms_def)
  then show "length (syms L i (unat (L ! i))) < length (syms L n (unat (L ! i)))"
    "syms L n (unat (L ! i)) ! length (syms L i (unat (L ! i))) = i" by (simp_all add: nth_append)
qed

text \<open>A symbol's codeword is met exactly at the symbol's position in the canonical order.\<close>

lemma starts_with_hits:
  assumes "\<forall>i<n. unat (L ! i) < 16" "starts_with L n s i"
  shows "hits L n s (unat (L ! i)) (upto_len L n (unat (L ! i) - 1) + length (syms L i (unat (L ! i))))"
proof -
  have l: "1 \<le> unat (L ! i)" "unat (L ! i) < 16" "i < n"
    using assms by (auto simp: starts_with_def Suc_le_eq unat_gt_0)
  have "filter (\<lambda>j. L ! j = L ! i) [0..<i] = syms L i (unat (L ! i))"
    by (simp add: syms_def word_unat_eq_iff)
  with l assms syms_nth(1) [of i n L] upto_len_block [of "unat (L ! i)" L n] show ?thesis
    by (simp add: hits_def starts_with_def rfc_code_def)
qed

lemma hits_starts_with:
  assumes "hits L n s l k"
  shows "starts_with L n s (syms L n l ! (k - upto_len L n (l - 1))) \<and> k - upto_len L n (l - 1) < length (syms L n l)
    \<and> unat (L ! (syms L n l ! (k - upto_len L n (l - 1)))) = l"
proof -
  define j where "j = k - upto_len L n (l - 1)"
  define i where "i = syms L n l ! j"
  have l: "1 \<le> l" "j < length (syms L n l)" "rd_code s l = first_code L n l + j"
    using assms upto_len_block [of l L n] by (auto simp: hits_def j_def)
  then have "i \<in> set (syms L n l)" by (simp add: i_def)
  then have i: "i < n" "unat (L ! i) = l" by (auto simp: syms_def)
  have d: "distinct (syms L n l)" by (simp add: syms_def)
  have "length (syms L i l) < length (syms L n l)" "syms L n l ! length (syms L i l) = syms L n l ! j"
    using syms_nth [OF i(1), of L] unfolding i(2) by (simp_all add: i_def)
  with l d have "length (syms L i l) = j" by (simp add: nth_eq_iff_index_eq)
  moreover have "filter (\<lambda>j. L ! j = L ! i) [0..<i] = syms L i l"
    by (simp add: syms_def word_unat_eq_iff i(2))
  ultimately have "starts_with L n s i"
    using l i by (auto simp: starts_with_def rfc_code_def unat_gt_0 [symmetric])
  with l i show ?thesis by (simp add: j_def i_def)
qed

lemma prepared_values:
  assumes "prepared L n N (d, t)" "k < upto_len L n 15"
  shows "\<exists>i<n. t ! k = of_nat i"
proof -
  obtain l where l: "1 \<le> l" "l \<le> 15" "upto_len L n (l - 1) \<le> k" "k < upto_len L n l"
    using assms(2) block_exists by blast
  define j where "j = k - upto_len L n (l - 1)"
  have j: "j < length (syms L n l)" using l upto_len_block [of l L n] by (simp add: j_def)
  then have "syms L n l ! j \<in> set (syms L n l)" by simp
  then have "syms L n l ! j < n" by (simp add: syms_def)
  moreover have "t ! (upto_len L n (l - 1) + j) = of_nat (syms L n l ! j)"
    using assms(1) l j by (simp add: prepared_def)
  then have "t ! k = of_nat (syms L n l ! j)" using l by (simp add: j_def)
  ultimately show ?thesis by blast
qed

lemma prepared_position:
  assumes "prepared L n N (d, t)" "starts_with L n s i"
  defines "l \<equiv> unat (L ! i)"
  shows "\<exists>k<upto_len L n 15. hits L n s l k \<and> t ! k = of_nat i"
proof (intro exI conjI)
  let ?k = "upto_len L n (l - 1) + length (syms L i l)"
  show h: "hits L n s l ?k"
    unfolding l_def using assms by (intro starts_with_hits) (simp_all add: prepared_def)
  then show "?k < upto_len L n 15"
    using upto_len_mono [of l 15 L n] by (simp add: hits_def)
  have "i < n" using assms by (simp add: starts_with_def)
  with syms_nth [of i n L] assms h show "t ! ?k = of_nat i"
    by (simp add: prepared_def hits_def)
qed

text \<open>
  The value found for a symbol whose codeword the stream starts with, for a table \<^term>\<open>t\<close> that \<^term>\<open>g\<close>
  makes from the symbols.
\<close>

lemma read_value_symbol:
  assumes p: "prepared L n N (d0, t0)" and f: "finalized L n N t (d, tab)" and N: "n \<le> N" "N \<le> 288"
    and g: "\<forall>k<upto_len L n 15. t ! k = g (t0 ! k)" "\<And>i. i < n \<Longrightarrow> g (of_nat i) < 2 ^ 24"
    and pk: "em_lsb_bitreader_peek_16bits mem br = Inr (v, br')" "unat v < 2 ^ 16"
  shows "starts_with L n (unat v) i \<Longrightarrow> em_lsb_huffman_decoder_read_value mem d tab br
      = Inr (g (of_nat i), em_lsb_bitreader_consume_bits (unat (L ! i)) br')"
    and "\<nexists>i. starts_with L n (unat v) i \<Longrightarrow> em_lsb_huffman_decoder_read_value mem d tab br = Inr (-1, br')"
proof -
  have "\<forall>k<upto_len L n 15. t ! k < 2 ^ 24"
    using prepared_values [OF p] g by fastforce
  note fd = read_value_found [OF f N this pk]
  {
    assume st: "starts_with L n (unat v) i"
    then obtain k where k: "k < upto_len L n 15" "hits L n (unat v) (unat (L ! i)) k" "t0 ! k = of_nat i"
      using prepared_position [OF p] by blast
    moreover have "0 < unat (L ! i)" using st by (simp add: starts_with_def unat_gt_0)
    ultimately have "em_lsb_huffman_decoder_read_value mem d tab br
        = Inr (t ! k, em_lsb_bitreader_consume_bits (unat (L ! i)) br')"
      using fd unfolding found_def by blast
    with g(1) k show "em_lsb_huffman_decoder_read_value mem d tab br
        = Inr (g (of_nat i), em_lsb_bitreader_consume_bits (unat (L ! i)) br')" by simp
  }
  assume "\<nexists>i. starts_with L n (unat v) i"
  with fd hits_starts_with [of L n "unat v"] show "em_lsb_huffman_decoder_read_value mem d tab br = Inr (-1, br')"
    unfolding found_def by blast
qed

lemma peek_value:
  assumes "em_lsb_bitreader_peek_16bits mem br = Inr (v, br')"
  shows "unat v < 2 ^ 16"
proof -
  obtain x where "v = take_bit 16 x"
    using assms by (auto simp: em_lsb_bitreader_peek_16bits_def take_bit_eq_mask mask_eq_exp_minus_1
        rbind_Inr_iff)
  then show ?thesis using take_bit_nat_less_exp [of 16 "unat x"] by (simp add: unsigned_take_bit_eq)
qed

text \<open>
  (C4) The Huffman decoder is the canonical code of RFC 1951. For code lengths \<^term>\<open>L\<close> of \<^term>\<open>n\<close> symbols that
  the table routines accept, reading a symbol gives the symbol whose codeword the next bits of the
  stream start with and takes exactly the bits of that codeword; when the stream starts with no
  codeword it gives -1 and takes nothing.
\<close>

theorem huffman_read_value_canonical:
  assumes "n \<le> N" "N \<le> 288" "n \<le> length L" "length t = 2 * N"
    and "em_lsb_huffman_decoder_prepare_table t (int n) (int N) L = Inr (Some (d0, t0))"
    and "em_lsb_huffman_decoder_finalize_table d0 t0 = Inr (Some (d, tab))"
    and "em_lsb_bitreader_peek_16bits mem br = Inr (v, br')"
  shows "(\<forall>i<n. L ! i \<noteq> 0 \<and> rd_code (unat v) (unat (L ! i)) = rfc_code L n i \<longrightarrow>
        em_lsb_huffman_decoder_read_value mem d tab br
          = Inr (of_nat i, em_lsb_bitreader_consume_bits (unat (L ! i)) br'))
    \<and> ((\<forall>i<n. L ! i \<noteq> 0 \<longrightarrow> rd_code (unat v) (unat (L ! i)) \<noteq> rfc_code L n i) \<longrightarrow>
        em_lsb_huffman_decoder_read_value mem d tab br = Inr (-1, br'))"
proof -
  have p: "prepared L n N (d0, t0)"
    using prepare_table_spec [OF assms(1-4)] assms(5) by simp
  then have "length t0 = 2 * N" by (simp add: prepared_def)
  then have f: "finalized L n N t0 (d, tab)"
    using finalize_table_spec [OF p assms(1), of t0] assms(6) by simp
  have small: "of_nat i < (2 :: uint32) ^ 24" if "i < n" for i
    using that assms by (simp add: word_less_nat_alt)
  note rv = read_value_symbol [OF p f assms(1,2) _ _ assms(7) peek_value [OF assms(7)], where g = "\<lambda>x. x"]
  show ?thesis using rv small by (auto simp: starts_with_def)
qed

text \<open>The decoder for a single symbol of length 11, before and after finalizing.\<close>

definition one_symbol0 :: huffman_decoder where
  "one_symbol0 = \<lparr>nFastSymbol = [], nStartIndex = [], nSymbols = 1, nNumSorted = 1,
     nStartingPos = [0, 0, 0, 0, 0, 0, 0, 0, 0, 0, 0, 1, 1, 1, 1, 1]\<rparr>"

definition one_symbol :: huffman_decoder where
  "one_symbol = one_symbol0\<lparr>nFastSymbol := replicate 1024 0, nStartIndex := replicate 16 0\<rparr>"

lemma one_symbol_tables:
  "em_lsb_huffman_decoder_prepare_table [0, 0] 1 1 [11] = Inr (Some (one_symbol0, [0, 0]))"
  "em_lsb_huffman_decoder_finalize_table one_symbol0 [0, 0] = Inr (Some (one_symbol, [0, 11]))"
  by code_simp+

lemma one_symbol_peek:
  "em_lsb_bitreader_peek_16bits [0, 0] (em_lsb_bitreader_init 0 2) = Inr (0,
     \<lparr>nDecShifterBitCount = 16, nDecShifterData = 0, pInBlock = 2, pInBlockEnd = 2, pInBlockStart = 0\<rparr>)"
  by code_simp

theorem huffman_read_value_canonical_witness:
  "em_lsb_huffman_decoder_prepare_table [0, 0] 1 1 [11] = Inr (Some (one_symbol0, [0, 0]))
     \<and> em_lsb_huffman_decoder_finalize_table one_symbol0 [0, 0] = Inr (Some (one_symbol, [0, 11]))
     \<and> em_lsb_huffman_decoder_read_value [0, 0] one_symbol [0, 11] (em_lsb_bitreader_init 0 2)
       = Inr (0, em_lsb_bitreader_consume_bits 11
           \<lparr>nDecShifterBitCount = 16, nDecShifterData = 0, pInBlock = 2, pInBlockEnd = 2, pInBlockStart = 0\<rparr>)"
proof -
  have "rd_code (unat (0 :: uint32)) (unat ([11] ! 0 :: byte)) = rfc_code [11] 1 0" by code_simp
  with huffman_read_value_canonical [of 1 1 "[11]" "[0, 0]" one_symbol0 "[0, 0]" one_symbol "[0, 11]",
      OF _ _ _ _ _ _ one_symbol_peek] one_symbol_tables
  show ?thesis by simp
qed

end
