(* ===== verification/InflateProps.thy ===== *)
theory InflateProps
  imports Inflate HuffmanProps
begin

unbundle bit_operations_syntax

text \<open>
  The blocks of the decompressor on any data: reading the code lengths, building the tables, the loop
  over the code words and the copy of a stored block return, write only to the part of the output
  buffer that is theirs, and read outside the compressed data only in a stored block longer than it.
\<close>

section \<open>Reading symbols and code lengths\<close>

text \<open>What a step of the reader keeps.\<close>

definition advanced :: "byte list \<Rightarrow> bitreader \<Rightarrow> bitreader \<Rightarrow> bool" where
  "advanced mem br br' \<longleftrightarrow> br_inv mem br' \<and> started br' \<and> same_block br br' \<and> budget br' \<le> budget br"

lemma advanced_refl: "br_inv mem br \<Longrightarrow> started br \<Longrightarrow> advanced mem br br"
  by (simp add: advanced_def same_block_def)

lemma advanced_trans: "advanced mem a b \<Longrightarrow> advanced mem b c \<Longrightarrow> advanced mem a c"
  by (auto simp: advanced_def same_block_def)

lemma advancedD: "advanced mem a b \<Longrightarrow> br_inv mem b \<and> started b"
  by (simp add: advanced_def)

lemma get_bits_advanced:
  assumes "br_inv mem br" "started br" "n \<le> 15"
  shows "ok (\<lambda>(v, br'). advanced mem br br' \<and> (v \<noteq> -1 \<longrightarrow> unat v < 2 ^ n))
    (em_lsb_bitreader_get_bits mem n br)"
  using get_bits_inv [OF assms(1,3)] assms
  by (auto elim!: ok_mono simp: advanced_def same_block_def split: if_splits)

lemma read_value_advanced:
  assumes f: "finalized L n N t (d, tab)" and N: "n \<le> N" "N \<le> 288"
    and t: "\<forall>k<upto_len L n 15. t ! k < 2 ^ 24" and br: "br_inv mem br" "started br"
  shows "ok (\<lambda>(v, br'). advanced mem br br' \<and> (v = -1 \<or> (\<exists>k<upto_len L n 15. v = t ! k)))
    (em_lsb_huffman_decoder_read_value mem d tab br)"
proof -
  obtain v br' where p: "em_lsb_bitreader_peek_16bits mem br = Inr (v, br')"
    and v: "unat v < 2 ^ 16" and a: "advanced mem br br'"
    and c: "16 \<le> nDecShifterBitCount br' \<or> pInBlockEnd br' \<le> pInBlock br'"
    using peek_inv [OF br] by (cases "em_lsb_bitreader_peek_16bits mem br") (auto simp: advanced_def)
  note fd = read_value_found [OF f N t p v]
  show ?thesis
  proof (cases "\<exists>l k. hits L n (unat v) l k")
    case True
    then obtain l k where h: "hits L n (unat v) l k" by blast
    then have l: "0 < l" "l < 16" "k < upto_len L n 15"
      using upto_len_mono [of l 15 L n] by (auto simp: hits_def)
    then have "em_lsb_huffman_decoder_read_value mem d tab br
        = Inr (t ! k, em_lsb_bitreader_consume_bits l br')"
      using fd h unfolding found_def by blast
    moreover have "advanced mem br' (em_lsb_bitreader_consume_bits l br')"
      using consume_inv [of mem br' l] a c l by (auto simp: advanced_def)
    ultimately show ?thesis using advanced_trans [OF a] l by auto
  next
    case False
    then have "em_lsb_huffman_decoder_read_value mem d tab br = Inr (-1, br')"
      using fd unfolding found_def by blast
    with a show ?thesis by simp
  qed
qed

lemma raw_lengths_safe:
  assumes "br_inv mem br" "started br" "length lens = 320" "0 \<le> n" "n \<le> 19"
  shows "oko (\<lambda>(lens', br'). length lens' = 320 \<and> advanced mem br br')
    (em_lsb_huffman_decoder_read_raw_lengths mem 3 n 19 lens br)"
proof -
  have idx: "i < 19 \<Longrightarrow> nCodeLenSymIndex ! i < 320" and len: "length nCodeLenSymIndex = 19" for i
    by (auto simp: nCodeLenSymIndex_def nth_Cons' )
  have 1: "oko (\<lambda>(lens', br'). length lens' = 320 \<and> advanced mem br br')
      (for_each (read_raw_length mem 3) [0..<nat n] (lens, br))"
  proof (rule for_each_inv)
    fix i and s :: "byte list \<times> bitreader"
    assume i: "i \<in> set [0..<nat n]" and I: "case s of (lens', br') \<Rightarrow> length lens' = 320 \<and> advanced mem br br'"
    obtain lens' br' where s: "s = (lens', br')" by (cases s)
    have "ok (\<lambda>(v, br''). advanced mem br' br'' \<and> (v \<noteq> -1 \<longrightarrow> unat v < 2 ^ 3)) (em_lsb_bitreader_get_bits mem 3 br')"
      using I by (intro get_bits_advanced) (auto simp: s advanced_def)
    then show "oko (\<lambda>(lens', br'). length lens' = 320 \<and> advanced mem br br') (read_raw_length mem 3 i s)"
      unfolding read_raw_length_def s snd_conv fst_conv
      by (rule oko_rbind2) (use I i idx len assms in \<open>auto simp: s intro: advanced_trans\<close>)
  qed (use assms in \<open>auto intro: advanced_refl\<close>)
  have 2: "oko (\<lambda>t'. length t' = 320) (for_each (\<lambda>i t. rbind (aget nCodeLenSymIndex i) (\<lambda>k.
      rbind (aset t k 0) (\<lambda>t. Inr (Some t)))) [nat n..<19] t)" if "length t = 320" for t :: "byte list"
    using that by (intro for_each_inv) (auto simp: len idx)
  show ?thesis
    unfolding em_lsb_huffman_decoder_read_raw_lengths_def using assms
    by (auto intro!: oko_obind2 [OF 1] oko_obind [OF 2])
qed

lemma read_len_run_safe:
  assumes "br_inv mem br" "started br" "nLength = 16 \<or> nLength = 17 \<or> nLength = 18"
  shows "oko (\<lambda>(run, prev, br'). 3 \<le> unat run \<and> advanced mem br br') (read_len_run mem nLength nPrev br)"
proof -
  have sum: "3 \<le> unat (3 + x :: uint32)" "3 \<le> unat (11 + x :: uint32)" if "unat x < 128" for x
    using that by (simp_all add: unat_word_ariths)
  have 1: "oko (\<lambda>(run, prev, br'). 3 \<le> unat run \<and> advanced mem br br')
      (rbind (em_lsb_bitreader_get_bits mem n br) (\<lambda>(e, br).
       if e = -1 then Inr None else Inr (Some (c + e, p, br))))"
    if "n \<le> 7" "c = 3 \<or> c = 11" for n c p
  proof (rule oko_rbind2 [OF get_bits_advanced])
    fix v :: uint32 and br'
    assume v: "advanced mem br br' \<and> (v \<noteq> -1 \<longrightarrow> unat v < 2 ^ n)"
    have "(2 :: nat) ^ n \<le> 2 ^ 7" using that by (intro power_increasing) simp_all
    with v that sum [of v] show "oko (\<lambda>(run, prev, br'). 3 \<le> unat run \<and> advanced mem br br')
        (if v = -1 then Inr None else Inr (Some (c + v, p, br')))" by auto
  qed (use assms that in simp_all)
  from assms(3) show ?thesis
    using 1 [of 2 3 nPrev] 1 [of 3 3 0] 1 [of 7 11 0] by (elim disjE) (simp_all add: read_len_run_def)
qed

lemma codelen_cases:
  assumes "\<exists>i<19. v = (of_nat i :: uint32)"
  shows "v < 16 \<or> v = 16 \<or> v = 17 \<or> v = 18"
proof -
  obtain i where i: "i < 19" "v = of_nat i" using assms by blast
  then have "i < 16 \<or> i = 16 \<or> i = 17 \<or> i = 18" by linarith
  with i show ?thesis by (auto simp: word_less_nat_alt)
qed

lemma store_run:
  "length t = 320 \<Longrightarrow> b \<le> 320 \<Longrightarrow>
    oko (\<lambda>t'. length t' = 320) (for_each (\<lambda>k t. rbind (aset t k x) (\<lambda>t. Inr (Some t))) [a..<b] t)"
  by (intro for_each_inv) auto

text \<open>The code lengths: the decoder gives the symbols 0 to 18, so every turn stores a length.\<close>

lemma var_lengths_safe:
  assumes f: "finalized L 19 19 t (d, tab)" "\<forall>k<upto_len L 19 15. \<exists>i<19. t ! k = of_nat i"
    and "br_inv mem br" "started br" "length lens = 320" "i \<le> n" "n \<le> 320" "n - i \<le> fuel"
  shows "oko (\<lambda>(lens', br'). length lens' = 320 \<and> advanced mem br br')
    (var_lengths fuel mem d tab n i prev lens br)"
  using assms(3-)
proof (induction fuel arbitrary: i prev lens br)
  case 0
  then show ?case by (subst var_lengths.simps) (auto intro: advanced_refl)
next
  case (Suc fuel)
  show ?case
  proof (cases "i < n")
    case True
    have small: "\<forall>k<upto_len L 19 15. t ! k < 2 ^ 24"
      using f(2) by (auto simp: word_less_nat_alt)
    have IH: "oko (\<lambda>(lens', br''). length lens' = 320 \<and> advanced mem br br'')
        (var_lengths fuel mem d tab n j p lens' br')"
      if a: "advanced mem br br'" "length lens' = 320" "j \<le> n" "i < j" for j p lens' br'
    proof -
      have "oko (\<lambda>(lens', br''). length lens' = 320 \<and> advanced mem br' br'')
          (var_lengths fuel mem d tab n j p lens' br')"
        using a Suc.prems by (intro Suc.IH) (auto simp: advanced_def)
      then show ?thesis by (rule oko_mono) (auto intro: advanced_trans [OF a(1)])
    qed
    define body where "body v br' =
      (if v = -1 then Inr None else if v < 16 then
         rbind (aset lens i (ucast v)) (\<lambda>lens. var_lengths fuel mem d tab n (i + 1) v lens br')
       else obind (read_len_run mem v prev br') (\<lambda>(nRunLen, nPrevLength, br).
         obind (for_each (\<lambda>k t. rbind (aset t k (ucast nPrevLength)) (\<lambda>t. Inr (Some t)))
                  [i..<min (i + unat nRunLen) n] lens)
           (\<lambda>lens. var_lengths fuel mem d tab n (min (i + unat nRunLen) n) nPrevLength lens br)))" for v br'
    have "var_lengths (Suc fuel) mem d tab n i prev lens br
        = rbind (em_lsb_huffman_decoder_read_value mem d tab br) (\<lambda>(v, br'). body v br')"
      unfolding var_lengths.simps [of "Suc fuel"] body_def Let_def using True by simp
    also have "oko (\<lambda>(lens', br'). length lens' = 320 \<and> advanced mem br br') \<dots>"
    proof (rule oko_rbind2 [OF read_value_advanced [OF f(1) _ _ small, of mem br]])
      fix v br'
      assume v: "advanced mem br br' \<and> (v = -1 \<or> (\<exists>k<upto_len L 19 15. v = t ! k))"
      then consider "v = -1" | "v < 16" | "v = 16 \<or> v = 17 \<or> v = 18"
        using f(2) codelen_cases by blast
      then show "oko (\<lambda>(lens', br'). length lens' = 320 \<and> advanced mem br br') (body v br')"
      proof cases
        case 3
        then have "v \<noteq> -1" "\<not> v < 16" by auto
        moreover have "oko (\<lambda>(run, p, b). 3 \<le> unat run \<and> advanced mem br' b) (read_len_run mem v prev br')"
          using v 3 by (intro read_len_run_safe) (auto simp: advanced_def)
        ultimately show ?thesis
          unfolding body_def using v True Suc.prems
          by (auto elim!: oko_obind intro!: oko_obind [OF store_run] IH intro: advanced_trans)
      qed (use v IH Suc.prems True in \<open>auto simp: body_def\<close>)
    qed (use Suc.prems in auto)
    finally show ?thesis .
  next
    case False
    with Suc.prems show ?thesis by (subst var_lengths.simps) (auto intro: advanced_refl)
  qed
qed

section \<open>The tables of a block\<close>

definition offset_value :: "uint32 \<Rightarrow> uint32" where
  "offset_value n = (if n < 32 then em_inflate_offset_code ! unat n else n)"

definition match_value :: "uint32 \<Rightarrow> uint32" where
  "match_value n = (if 257 \<le> n \<and> n < 288 then
     (if unat n - 257 < 29 then em_inflate_matchlen_code ! (unat n - 257) else 0) else n)"

text \<open>The values a literal table may have: a literal, the end marker, or a match of length 3 or more.\<close>

definition lit_value :: "uint32 \<Rightarrow> bool" where
  "lit_value v \<longleftrightarrow> v < 256 \<or> v = 256 \<or> 3 \<le> unat (v AND 0x7fff)"

lemma code_tables:
  "length em_inflate_offset_code = 32" "length em_inflate_matchlen_code = 29"
  "list_all (\<lambda>v. v < 2 ^ 24) em_inflate_offset_code"
  "list_all (\<lambda>v. v < 2 ^ 24 \<and> 3 \<le> unat (v AND 0x7fff)) em_inflate_matchlen_code"
  by (simp_all add: em_inflate_offset_code_def em_inflate_matchlen_code_def OFFSET_PAIR_def MATCHLEN_PAIR_def)

lemma small_of_nat: "i < 288 \<Longrightarrow> unat (of_nat i :: uint32) = i"
  by simp

lemma offset_values:
  assumes "i < 32"
  shows "offset_value (of_nat i) < 2 ^ 24"
  using assms code_tables(1,3) by (simp add: offset_value_def word_less_nat_alt list_all_length)

lemma match_values:
  assumes "i < 288"
  shows "match_value (of_nat i) < 2 ^ 24 \<and> lit_value (match_value (of_nat i))"
proof -
  have w: "unat (of_nat i :: uint32) = i" using assms by simp
  consider "i < 257" | "257 \<le> i" "i - 257 < 29" | "257 \<le> i" "\<not> i - 257 < 29" by linarith
  then show ?thesis
  proof cases
    case 2
    with assms code_tables(2,4) show ?thesis
      by (simp add: match_value_def lit_value_def word_less_nat_alt word_le_nat_alt list_all_length)
  qed (use assms in \<open>auto simp: match_value_def lit_value_def word_less_nat_alt word_le_nat_alt word_unat_eq_iff\<close>)
qed

lemma offset_codeword_eq:
  assumes "i < length t"
  shows "offset_codeword i t = Inr (Some (t[i := offset_value (t ! i)]))"
  using assms code_tables(1) by (simp add: offset_codeword_def offset_value_def word_less_nat_alt)

lemma sint_small:
  assumes "unat (x :: uint32) = j" "j < 2 ^ 31"
  shows "sint x = int j"
proof -
  have u: "uint x = int j" by (simp flip: assms(1))
  show ?thesis unfolding sint_uint u using assms(2) by (simp add: signed_take_bit_int_eq_self)
qed

lemma match_codeword_eq:
  assumes "i < length t"
  shows "match_codeword i t = Inr (Some (t[i := match_value (t ! i)]))"
proof (cases "257 \<le> t ! i \<and> t ! i < 288")
  case True
  define j where "j = unat (t ! i) - 257"
  have u: "257 \<le> unat (t ! i)" "unat (t ! i) < 288" using True by (simp_all add: word_le_nat_alt word_less_nat_alt)
  then have "unat (t ! i - 257) = j" using True by (simp add: unat_sub j_def)
  then have "sint (t ! i - 257) = int j" by (rule sint_small) (use u in \<open>simp add: j_def\<close>)
  with True assms code_tables(2) show ?thesis
    by (auto simp: match_codeword_def match_value_def Let_def j_def [symmetric])
next
  case False
  with assms show ?thesis by (auto simp: match_codeword_def match_value_def)
qed

lemma map_codewords:
  assumes "\<And>i t. i < length t \<Longrightarrow> f i t = Inr (Some (t[i := g (t ! i)]))" "m \<le> length t"
  shows "oko (\<lambda>t'. length t' = length t \<and> (\<forall>k<m. t' ! k = g (t ! k))) (for_each f [0..<m] t)"
proof -
  have "oko (\<lambda>t'. length t' = length t \<and> (\<forall>k<length t. t' ! k = (if k < m then g (t ! k) else t ! k)))
      (for_each f [0..<m] t)"
    by (rule for_each_upt [where I = "\<lambda>i t'. length t' = length t
          \<and> (\<forall>k<length t. t' ! k = (if k < i then g (t ! k) else t ! k))"])
      (use assms in \<open>auto simp: nth_list_update less_Suc_eq\<close>)
  then show ?thesis by (rule oko_mono) (use assms(2) in auto)
qed

definition prepared_tables :: "tables \<Rightarrow> bool" where
  "prepared_tables t \<longleftrightarrow> (\<exists>L n. n \<le> 288 \<and> prepared L n 288 (fst t)) \<and> (\<exists>L n. n \<le> 32 \<and> prepared L n 32 (snd t))"

definition ready_tables :: "tables \<Rightarrow> bool" where
  "ready_tables t \<longleftrightarrow>
     (\<exists>L n v. n \<le> 288 \<and> finalized L n 288 v (fst t) \<and> (\<forall>k<upto_len L n 15. v ! k < 2 ^ 24 \<and> lit_value (v ! k)))
     \<and> (\<exists>L n v. n \<le> 32 \<and> finalized L n 32 v (snd t) \<and> (\<forall>k<upto_len L n 15. v ! k < 2 ^ 24))"

lemma finalize_mapped:
  assumes p: "prepared L n N (d, t)" and N: "n \<le> N" and t': "length t' = 2 * N" "\<forall>k<N. t' ! k = g (t ! k)"
    and g: "\<And>i. i < n \<Longrightarrow> P (g (of_nat i))"
  shows "oko (\<lambda>r. finalized L n N t' r \<and> (\<forall>k<upto_len L n 15. P (t' ! k)))
    (em_lsb_huffman_decoder_finalize_table d t')"
proof (rule oko_mono [OF finalize_table_spec [OF p N t'(1)]])
  fix r
  assume "finalized L n N t' r"
  moreover have "P (t' ! k)" if "k < upto_len L n 15" for k
    using that prepared_values [OF p that] t'(2) g upto_len_le [of L n 15] N by auto
  ultimately show "finalized L n N t' r \<and> (\<forall>k<upto_len L n 15. P (t' ! k))" by blast
qed

lemma block_tables_safe:
  assumes "prepared_tables t"
  shows "oko ready_tables (block_tables t)"
proof -
  obtain lit ltab off otab where t: "t = ((lit, ltab), (off, otab))" by (metis surj_pair)
  obtain Ll nl Lo no where l: "nl \<le> 288" "prepared Ll nl 288 (lit, ltab)"
    and o: "no \<le> 32" "prepared Lo no 32 (off, otab)"
    using assms by (auto simp: prepared_tables_def t)
  have len: "length ltab = 576" "length otab = 64"
    using l o by (auto simp: prepared_def)
  have 1: "oko (\<lambda>t'. length t' = 64 \<and> (\<forall>k<32. t' ! k = offset_value (otab ! k)))
      (for_each offset_codeword [0..<32] otab)"
    using map_codewords [of offset_codeword offset_value 32 otab] offset_codeword_eq len by simp
  have 2: "oko (\<lambda>t'. length t' = 576 \<and> (\<forall>k<288. t' ! k = match_value (ltab ! k)))
      (for_each match_codeword [0..<288] ltab)"
    using map_codewords [of match_codeword match_value 288 ltab] match_codeword_eq len by simp
  show ?thesis
    unfolding block_tables_def t Let_def prod.case
  proof (rule oko_obind [OF 1], rule oko_obind [OF 2])
    fix ot lt
    assume ot: "length ot = 64 \<and> (\<forall>k<32. ot ! k = offset_value (otab ! k))"
      and lt: "length lt = 576 \<and> (\<forall>k<288. lt ! k = match_value (ltab ! k))"
    have 3: "oko (\<lambda>r. finalized Ll nl 288 lt r \<and> (\<forall>k<upto_len Ll nl 15. lt ! k < 2 ^ 24 \<and> lit_value (lt ! k)))
        (em_lsb_huffman_decoder_finalize_table lit lt)"
      using lt l match_values by (intro finalize_mapped [OF l(2), where g = match_value]) simp_all
    have 4: "oko (\<lambda>r. finalized Lo no 32 ot r \<and> (\<forall>k<upto_len Lo no 15. ot ! k < 2 ^ 24))
        (em_lsb_huffman_decoder_finalize_table off ot)"
      using ot o offset_values by (intro finalize_mapped [OF o(2), where g = offset_value]) simp_all
    show "oko ready_tables (obind (em_lsb_huffman_decoder_finalize_table lit lt) (\<lambda>lit.
        obind (em_lsb_huffman_decoder_finalize_table off ot) (\<lambda>off. Inr (Some (lit, off)))))"
      using l o by (intro oko_obind [OF 3] oko_obind [OF 4]) (auto simp: ready_tables_def)
  qed
qed

lemma prepare_safe:
  assumes "n \<le> N" "N \<le> 288" "n \<le> length L"
  shows "oko (prepared L n N) (em_lsb_huffman_decoder_prepare_table (replicate (N * 2) 0) (int n) (int N) L)"
  using assms by (intro prepare_table_spec) simp_all

lemma fixed_tables_safe: "oko prepared_tables fixed_tables"
proof -
  have "oko (prepared nFixedLiteralCodeLen 288 288)
      (em_lsb_huffman_decoder_prepare_table (replicate (288 * 2) 0) (int 288) (int 288) nFixedLiteralCodeLen)"
    by (intro prepare_safe) (simp_all add: nFixedLiteralCodeLen_def)
  moreover have "oko (prepared nFixedOffsetCodeLen 32 32)
      (em_lsb_huffman_decoder_prepare_table (replicate (32 * 2) 0) (int 32) (int 32) nFixedOffsetCodeLen)"
    by (intro prepare_safe) (simp_all add: nFixedOffsetCodeLen_def)
  ultimately show ?thesis
    unfolding fixed_tables_def by (auto elim!: oko_obind simp: prepared_tables_def) (meson order_refl)+
qed

lemma read_var_lengths_safe:
  assumes "finalized L 19 19 t (d, tab)" "\<forall>k<upto_len L 19 15. \<exists>i<19. t ! k = of_nat i"
    and "br_inv mem br" "started br" "length lens = 320" "0 \<le> n" "n \<le> 320"
  shows "oko (\<lambda>(lens', br'). length lens' = 320 \<and> advanced mem br br')
    (em_lsb_huffman_decoder_read_var_lengths mem d tab n 320 lens br)"
proof -
  have 1: "oko (\<lambda>(lens', br'). length lens' = 320 \<and> advanced mem br br')
      (var_lengths (nat n) mem d tab (nat n) 0 0 lens br)"
    using assms by (intro var_lengths_safe [OF assms(1,2)]) simp_all
  show ?thesis
    unfolding em_lsb_huffman_decoder_read_var_lengths_def using assms
    by (auto intro!: oko_obind2 [OF 1] oko_obind [OF store_run])
qed

text \<open>A count read from the block: the bits plus a base, checked against a maximum.\<close>

lemma read_count:
  assumes "br_inv mem br" "started br" "n \<le> 5" "unat base \<le> 257"
    and "\<And>v br'. advanced mem br br' \<Longrightarrow> unat v \<le> unat m \<Longrightarrow> oko P (f v br')"
  shows "oko P (rbind (em_lsb_bitreader_get_bits mem n br) (\<lambda>(v, br').
    if v = -1 then Inr None else if v + base > m then Inr None else f (v + base) br'))"
  using assms by (intro oko_rbind2 [OF get_bits_advanced]) (auto simp: word_le_nat_alt not_less)

lemma code_length_tables:
  assumes "length lens = 320"
  shows "oko (\<lambda>(d, tab). \<exists>t. finalized lens 19 19 t (d, tab) \<and> (\<forall>k<upto_len lens 19 15. \<exists>i<19. t ! k = of_nat i))
    (obind (em_lsb_huffman_decoder_prepare_table (replicate (19 * 2) 0) 19 19 lens) (\<lambda>(d, t).
     em_lsb_huffman_decoder_finalize_table d t))"
proof -
  have 1: "oko (prepared lens 19 19) (em_lsb_huffman_decoder_prepare_table (replicate (19 * 2) 0) 19 19 lens)"
    using prepare_safe [of 19 19 lens] assms by simp
  show ?thesis
  proof (rule oko_obind [OF 1])
    fix p
    assume p: "prepared lens 19 19 p"
    obtain d t where dt: "p = (d, t)" by (cases p)
    have "oko (finalized lens 19 19 t) (em_lsb_huffman_decoder_finalize_table d t)"
      using p by (intro finalize_table_spec) (auto simp: dt prepared_def)
    then show "oko (\<lambda>(d, tab). \<exists>t. finalized lens 19 19 t (d, tab)
        \<and> (\<forall>k<upto_len lens 19 15. \<exists>i<19. t ! k = of_nat i))
      (case p of (d, t) \<Rightarrow> em_lsb_huffman_decoder_finalize_table d t)"
      using prepared_values [of lens 19 19 d t] p by (auto elim!: oko_mono simp: dt)
  qed
qed

lemma dynamic_tables_lengths:
  fixes nl no nc :: uint32
  assumes b: "br_inv mem br" "started br" and n: "unat nl \<le> 288" "unat no \<le> 32" "unat nc \<le> 19"
  shows "oko (\<lambda>(t, br'). prepared_tables t \<and> advanced mem br br')
    (obind (em_lsb_huffman_decoder_read_raw_lengths mem 3 (uint nc) (int 19) (replicate (288 + 32) 0) br)
      (\<lambda>(lens, br).
     obind (em_lsb_huffman_decoder_prepare_table (replicate (19 * 2) 0) (int 19) (int 19) lens) (\<lambda>(d, t).
     obind (em_lsb_huffman_decoder_finalize_table d t) (\<lambda>(d, t).
     obind (em_lsb_huffman_decoder_read_var_lengths mem d t (uint (nl + no)) (int (288 + 32)) lens br)
       (\<lambda>(lens, br).
     obind (em_lsb_huffman_decoder_prepare_table (replicate (288 * 2) 0) (uint nl) (int 288) lens) (\<lambda>lit.
     obind (em_lsb_huffman_decoder_prepare_table (replicate (32 * 2) 0) (uint no) (int 32)
              (drop (unat nl) lens)) (\<lambda>off.
     Inr (Some ((lit, off), br)))))))))"
    (is "oko ?P (obind ?raw ?rest)")
proof -
  define l k c m where "l = unat nl" and "k = unat no" and "c = unat nc" and "m = unat (nl + no)"
  have u: "uint nl = int l" "uint no = int k" "uint nc = int c" "uint (nl + no) = int m" "unat nl = l"
    by (simp_all add: l_def k_def c_def m_def)
  have n': "l \<le> 288" "k \<le> 32" "c \<le> 19" "m \<le> 320"
    using n by (simp_all add: l_def k_def c_def m_def unat_word_ariths)
  have raw: "oko (\<lambda>(lens', br'). length lens' = 320 \<and> advanced mem br br') ?raw"
    using raw_lengths_safe [OF b, of "replicate 320 0" "int c"] n' by (simp add: u)
  show ?thesis
  proof (rule oko_obind2 [OF raw])
    fix lens :: "byte list" and br1
    assume 1: "length lens = 320 \<and> advanced mem br br1"
    have var: "oko (\<lambda>(lens', br'). length lens' = 320 \<and> advanced mem br br')
        (em_lsb_huffman_decoder_read_var_lengths mem d tab (int m) 320 lens br1)"
      if "\<exists>t. finalized lens 19 19 t (d, tab) \<and> (\<forall>k<upto_len lens 19 15. \<exists>i<19. t ! k = of_nat i)" for d tab
    proof -
      have "oko (\<lambda>(lens', br'). length lens' = 320 \<and> advanced mem br1 br')
          (em_lsb_huffman_decoder_read_var_lengths mem d tab (int m) 320 lens br1)"
        using that 1 n' advancedD [of mem br br1] by (elim exE conjE) (intro read_var_lengths_safe, auto)
      then show ?thesis by (rule oko_mono) (use 1 in \<open>auto intro: advanced_trans\<close>)
    qed
    have lit: "oko (prepared lens' l 288) (em_lsb_huffman_decoder_prepare_table (replicate (288 * 2) 0) (int l) 288 lens')"
      and off: "oko (prepared (drop l lens') k 32)
        (em_lsb_huffman_decoder_prepare_table (replicate (32 * 2) 0) (int k) 32 (drop l lens'))"
      if "length lens' = 320" for lens'
      using prepare_safe [of l 288 lens'] prepare_safe [of k 32 "drop l lens'"] that n' by simp_all
    have "oko ?P (obind (obind (em_lsb_huffman_decoder_prepare_table (replicate (19 * 2) 0) 19 19 lens) (\<lambda>(d, t).
         em_lsb_huffman_decoder_finalize_table d t)) (\<lambda>(d, t).
       obind (em_lsb_huffman_decoder_read_var_lengths mem d t (int m) 320 lens br1) (\<lambda>(lens, br).
       obind (em_lsb_huffman_decoder_prepare_table (replicate (288 * 2) 0) (int l) 288 lens) (\<lambda>lit.
       obind (em_lsb_huffman_decoder_prepare_table (replicate (32 * 2) 0) (int k) 32 (drop l lens)) (\<lambda>off.
       Inr (Some ((lit, off), br)))))))"
      using 1 n'
      by (intro oko_obind2 [OF code_length_tables] oko_obind2 [OF var] oko_obind [OF lit] oko_obind [OF off])
        (auto simp: prepared_tables_def)
    then show "oko ?P
       (obind (em_lsb_huffman_decoder_prepare_table (replicate (19 * 2) 0) (int 19) (int 19) lens) (\<lambda>(d, t).
        obind (em_lsb_huffman_decoder_finalize_table d t) (\<lambda>(d, t).
        obind (em_lsb_huffman_decoder_read_var_lengths mem d t (uint (nl + no)) (int (288 + 32)) lens br1)
          (\<lambda>(lens, br).
        obind (em_lsb_huffman_decoder_prepare_table (replicate (288 * 2) 0) (uint nl) (int 288) lens) (\<lambda>lit.
        obind (em_lsb_huffman_decoder_prepare_table (replicate (32 * 2) 0) (uint no) (int 32)
                 (drop (unat nl) lens)) (\<lambda>off.
        Inr (Some ((lit, off), br))))))))"
      unfolding u obind_assoc case_prod_unfold by simp
  qed
qed

lemma dynamic_tables_safe:
  assumes "br_inv mem br" "started br"
  shows "oko (\<lambda>(t, br'). prepared_tables t \<and> advanced mem br br') (read_dynamic_tables mem br)"
  unfolding read_dynamic_tables_def Let_def
proof (rule read_count [OF assms], goal_cases)
  case (3 nl br1)
  show ?case
  proof (rule read_count, goal_cases)
    case (5 no br2)
    show ?case
    proof (rule read_count, goal_cases)
      case (5 nc br3)
      have "advanced mem br br3"
        using advanced_trans [OF advanced_trans] 3(1) \<open>advanced mem br1 br2\<close> 5(1) by blast
      then show ?case
        using 3(2) 5(2) \<open>unat no \<le> _\<close>
        by (intro oko_mono [OF dynamic_tables_lengths]) (auto simp: advanced_def same_block_def)
    qed (use 5 in \<open>simp_all add: advanced_def\<close>)
  qed (use 3 in \<open>simp_all add: advanced_def\<close>)
qed simp_all

section \<open>Writing the output\<close>

text \<open>A buffer of the same length, the same but for the bytes from \<^term>\<open>a\<close> up to \<^term>\<open>b\<close>.\<close>

definition only_within :: "nat \<Rightarrow> nat \<Rightarrow> byte list \<Rightarrow> byte list \<Rightarrow> bool" where
  "only_within a b out out' \<longleftrightarrow> length out' = length out
     \<and> (\<forall>j<length out. j < a \<or> b \<le> j \<longrightarrow> out' ! j = out ! j)"

lemma only_within_refl [simp]: "only_within a b out out"
  by (simp add: only_within_def)

lemma only_within_trans:
  "only_within a b x y \<Longrightarrow> only_within c d y z \<Longrightarrow> a \<le> c \<Longrightarrow> d \<le> b \<Longrightarrow> only_within a b x z"
  by (auto simp: only_within_def)

lemma only_within_update: "a \<le> i \<Longrightarrow> i < b \<Longrightarrow> only_within a b out (out[i := v])"
  by (auto simp: only_within_def nth_list_update)

lemma blit_at_safe:
  assumes "off + length d \<le> length out" "a \<le> off" "off + length d \<le> b"
  shows "ok (only_within a b out) (blit_at out off d)"
  using assms by (auto simp: blit_at_def only_within_def nth_append)

lemma copy1_safe:
  assumes "src \<le> cur" "cur + n \<le> length out"
  shows "ok (only_within cur (cur + n) out) (copy1 out src cur n)"
  using assms
proof (induction n arbitrary: out src cur)
  case (Suc n)
  have "ok (only_within (cur + 1) (cur + 1 + n) (out[cur := out ! src]))
      (copy1 (out[cur := out ! src]) (src + 1) (cur + 1) n)"
    using Suc.prems by (intro Suc.IH) simp_all
  then have "ok (only_within cur (cur + Suc n) out) (copy1 (out[cur := out ! src]) (src + 1) (cur + 1) n)"
    by (rule ok_mono) (auto intro: only_within_trans [OF only_within_update])
  with Suc.prems show ?case by simp
qed simp

lemma copy16_safe:
  assumes "src + 16 \<le> dst" "dst < e" "e + 15 \<le> b" "b \<le> length out"
  shows "ok (only_within dst b out) (copy16 out src dst e)"
  using assms
proof (induction out src dst e rule: copy16.induct)
  case (1 out src dst e)
  define d where "d = take 16 (drop src out)"
  have d: "slice out src 16 = Inr d" "length d = 16"
    using "1.prems" by (simp_all add: slice_def d_def)
  obtain out' where out': "blit_at out dst d = Inr out'" "only_within dst b out out'"
    using blit_at_safe [of dst d out dst b] "1.prems" d by (cases "blit_at out dst d") auto
  show ?case
  proof (cases "dst + 16 < e")
    case True
    have "ok (only_within (dst + 16) b out') (copy16 out' (src + 16) (dst + 16) e)"
      using "1.prems" out'(2) True by (intro "1.IH" [OF d(1) out'(1) True]) (simp_all add: only_within_def)
    then have "ok (only_within dst b out) (copy16 out' (src + 16) (dst + 16) e)"
      by (rule ok_mono) (auto intro: only_within_trans [OF out'(2)])
    with True d out' show ?thesis by (subst copy16.simps) simp
  next
    case False
    with d out' show ?thesis by (subst copy16.simps) simp
  qed
qed

lemma copy_match_safe:
  assumes "cur \<le> end" "end \<le> length out" "1 \<le> n"
  shows "ok (\<lambda>(r, out'). only_within cur end out out' \<and> (\<forall>c. r = Some c \<longrightarrow> cur < c \<and> c \<le> end))
    (copy_match out cur end n off)"
proof -
  have 1: "ok (only_within cur end out) (copy16 out (cur - off) cur (cur + n))"
    if "off \<le> cur" "16 \<le> off" "int (cur + n) \<le> int end - 15"
    using that assms by (intro copy16_safe) simp_all
  have 2: "ok (only_within cur (cur + n) out) (copy1 out (cur - off) cur n)" if "cur + n \<le> end"
    using that assms by (intro copy1_safe) simp_all
  have mono: "only_within cur (cur + n) out x \<Longrightarrow> cur + n \<le> end \<Longrightarrow> only_within cur end out x" for x
    by (auto simp: only_within_def)
  show ?thesis
    unfolding copy_match_def Let_def using assms
    by (auto intro!: ok_rbind [OF 1] ok_rbind [OF 2] mono)
qed

section \<open>Blocks\<close>

lemma and_15: "unat (x AND 15 :: uint32) \<le> 15"
proof -
  have "x AND 15 = take_bit 4 x" by (simp add: take_bit_eq_mask mask_eq_exp_minus_1)
  then show ?thesis using take_bit_nat_less_exp [of 4 "unat x"] by (simp add: unsigned_take_bit_eq)
qed

lemma and_7fff: "unat (x AND 0x7fff :: uint32) < 2 ^ 15"
proof -
  have "x AND 0x7fff = take_bit 15 x" by (simp add: take_bit_eq_mask mask_eq_exp_minus_1)
  then show ?thesis using take_bit_nat_less_exp [of 15 "unat x"] by (simp add: unsigned_take_bit_eq)
qed

lemma read_literal:
  assumes "ready_tables t" "br_inv mem br" "started br"
  shows "ok (\<lambda>(v, br'). advanced mem br br' \<and> (v = -1 \<or> lit_value v))
    (em_lsb_huffman_decoder_read_value mem (fst (fst t)) (snd (fst t)) br)"
proof -
  obtain L n v where t: "n \<le> 288" "finalized L n 288 v (fst (fst t), snd (fst t))"
    "\<forall>k<upto_len L n 15. v ! k < 2 ^ 24" "\<forall>k<upto_len L n 15. lit_value (v ! k)"
    using assms(1) by (auto simp: ready_tables_def)
  show ?thesis
    by (rule ok_mono [OF read_value_advanced [OF t(2,1) _ t(3) assms(2,3)]]) (use t(4) in auto)
qed

lemma read_offset:
  assumes "ready_tables t" "br_inv mem br" "started br"
  shows "ok (\<lambda>(v, br'). advanced mem br br')
    (em_lsb_huffman_decoder_read_value mem (fst (snd t)) (snd (snd t)) br)"
proof -
  obtain L n v where t: "n \<le> 32" "finalized L n 32 v (fst (snd t), snd (snd t))"
    "\<forall>k<upto_len L n 15. v ! k < 2 ^ 24"
    using assms(1) by (auto simp: ready_tables_def)
  show ?thesis
    by (rule ok_mono [OF read_value_advanced [OF t(2,1) _ t(3) assms(2,3)]]) auto
qed

lemma read_match_safe:
  assumes t: "ready_tables t" and b: "br_inv mem br" "started br" and v: "3 \<le> unat (v AND 0x7fff)"
  shows "oko (\<lambda>(n, off, br'). 3 \<le> n \<and> advanced mem br br') (read_match mem t v br)"
  unfolding read_match_def Let_def
proof (rule oko_rbind2 [OF get_bits_advanced [OF b and_15]])
  fix l :: uint32 and br1
  assume 1: "advanced mem br br1 \<and> (l \<noteq> -1 \<longrightarrow> unat l < 2 ^ unat (shr v 16 AND 15))"
  have "(2 :: nat) ^ unat (shr v 16 AND 15) \<le> 2 ^ 15" by (rule power_increasing [OF and_15]) simp
  with 1 v and_7fff [of v] have len: "3 \<le> unat (l + (v AND 0x7fff))" if "l \<noteq> -1"
    using that by (simp add: unat_word_ariths)
  have 2: "ok (\<lambda>(v, br'). advanced mem br br')
      (em_lsb_huffman_decoder_read_value mem (fst (snd t)) (snd (snd t)) br1)"
    by (rule ok_mono [OF read_offset [OF t]]) (use 1 advancedD in \<open>auto intro: advanced_trans\<close>)
  have 3: "ok (\<lambda>(v, br'). advanced mem br br') (em_lsb_bitreader_get_bits mem (unat (x AND 15)) br2)"
    if "advanced mem br br2" for x :: uint32 and br2
    by (rule ok_mono [OF get_bits_advanced [OF _ _ and_15]]) (use that advancedD in \<open>auto intro: advanced_trans\<close>)
  show "oko (\<lambda>(n, off, br'). 3 \<le> n \<and> advanced mem br br')
     (if l = -1 then Inr None
      else rbind (em_lsb_huffman_decoder_read_value mem (fst (snd t)) (snd (snd t)) br1)
        (\<lambda>(nOffsetCodeword, br).
           if nOffsetCodeword = -1 then Inr None
           else rbind (em_lsb_bitreader_get_bits mem (unat (shr nOffsetCodeword 16 AND 15)) br)
             (\<lambda>(nMatchOffset, br). if nMatchOffset = -1 then Inr None
                else Inr (Some (unat (l + (v AND 0x7fff)), unat (nMatchOffset + (nOffsetCodeword AND 0x7fff)), br)))))"
    using len by (auto intro!: oko_rbind2 [OF 2] oko_rbind2 [OF 3])
qed

lemma match_turn:
  assumes t: "ready_tables t" and b: "br_inv mem br" "started br" and v: "3 \<le> unat (v AND 0x7fff)"
    and room: "cur \<le> end" "end \<le> length out"
    and fail: "\<And>br' out'. only_within cur end out out' \<Longrightarrow> P (None, br', out')"
    and go: "\<And>br' out' c. advanced mem br br' \<Longrightarrow> only_within cur end out out' \<Longrightarrow> cur < c \<Longrightarrow> c \<le> end
      \<Longrightarrow> ok P (loop br' out' c)"
  shows "ok P (rbind (read_match mem t v br) (\<lambda>m. case m of None \<Rightarrow> Inr (None, br, out)
    | Some (n, off, br) \<Rightarrow> rbind (copy_match out cur end n off) (\<lambda>(r, out). case r of None \<Rightarrow> Inr (None, br, out)
      | Some c \<Rightarrow> loop br out c)))"
proof (rule ok_option [OF read_match_safe [OF t b v]])
  fix m :: "nat \<times> nat \<times> bitreader"
  assume m: "case m of (n, off, br') \<Rightarrow> 3 \<le> n \<and> advanced mem br br'"
  obtain n off br2 where mm: "m = (n, off, br2)" by (cases m)
  have "ok (\<lambda>(r, out'). only_within cur end out out' \<and> (\<forall>c. r = Some c \<longrightarrow> cur < c \<and> c \<le> end))
      (copy_match out cur end n off)"
    using room m by (intro copy_match_safe) (auto simp: mm)
  then show "ok P (case Some m of None \<Rightarrow> Inr (None, br, out)
      | Some (n, off, br) \<Rightarrow> rbind (copy_match out cur end n off) (\<lambda>(r, out). case r of None \<Rightarrow> Inr (None, br, out)
        | Some c \<Rightarrow> loop br out c))"
    using m by (auto simp: mm elim!: ok_rbind split: option.splits intro!: fail go)
qed (simp add: fail)

text \<open>
  The loop of a block: with more fuel than room it ends, it writes between its start and the end of
  the buffer only, and it never goes past the end.
\<close>

lemma block_loop_safe:
  assumes t: "ready_tables t" and "br_inv mem br" "started br" "cur \<le> end" "end \<le> length out" "end - cur < fuel"
  shows "ok (\<lambda>(r, br', out'). only_within cur end out out' \<and> (\<forall>c. r = Some c \<longrightarrow> cur \<le> c \<and> c \<le> end \<and> advanced mem br br'))
    (block_loop fuel mem t end br out cur)"
  using assms(2-)
proof (induction fuel arbitrary: br out cur)
  case (Suc fuel)
  let ?P = "\<lambda>(r, br', out'). only_within cur end out out'
    \<and> (\<forall>c. r = Some c \<longrightarrow> cur \<le> c \<and> c \<le> end \<and> advanced mem br br')"
  have IH: "ok ?P (block_loop fuel mem t end br' out' cur')"
    if a: "advanced mem br br'" "only_within cur end out out'" "cur < cur'" "cur' \<le> end" for br' out' cur'
  proof -
    have "ok (\<lambda>(r, br'', out''). only_within cur' end out' out''
        \<and> (\<forall>c. r = Some c \<longrightarrow> cur' \<le> c \<and> c \<le> end \<and> advanced mem br' br'')) (block_loop fuel mem t end br' out' cur')"
      using a advancedD Suc.prems by (intro Suc.IH) (auto simp: only_within_def)
    then show ?thesis
      by (rule ok_mono) (use a in \<open>auto intro: only_within_trans advanced_trans\<close>)
  qed
  show ?case
    unfolding block_loop.simps
  proof (rule ok_rbind2 [OF read_literal [OF t Suc.prems(1,2)]])
    fix v br1
    assume v: "advanced mem br br1 \<and> (v = -1 \<or> lit_value v)"
    have lit: "ok ?P (rbind (aset out cur x) (\<lambda>out. block_loop fuel mem t end br1 out (cur + 1)))"
      if "cur < end" for x
      using that v Suc.prems by (auto intro!: IH only_within_update)
    have match: "ok ?P (rbind (read_match mem t v br1) (\<lambda>m. case m of None \<Rightarrow> Inr (None, br1, out)
        | Some (n, off, br) \<Rightarrow> rbind (copy_match out cur end n off) (\<lambda>(r, out). case r of None \<Rightarrow> Inr (None, br, out)
          | Some c \<Rightarrow> block_loop fuel mem t end br out c)))" if "\<not> v < 256" "v \<noteq> 256" "v \<noteq> -1"
      using that v Suc.prems advancedD
      by (intro match_turn [OF t]) (auto simp: lit_value_def intro!: IH intro: advanced_trans)
    show "ok ?P (if v < 256 then if cur < end
           then rbind (aset out cur (ucast v)) (\<lambda>out. block_loop fuel mem t end br1 out (cur + 1))
           else Inr (None, br1, out)
         else if v = 256 then Inr (Some cur, br1, out) else if v = -1 then Inr (None, br1, out)
         else rbind (read_match mem t v br1) (\<lambda>m. case m of None \<Rightarrow> Inr (None, br1, out)
          | Some (n, off, br) \<Rightarrow> rbind (copy_match out cur end n off) (\<lambda>(r, out). case r of None \<Rightarrow> Inr (None, br, out)
            | Some c \<Rightarrow> block_loop fuel mem t end br out c)))"
      using v lit match Suc.prems by simp
  qed
qed simp

text \<open>
  What a block routine guarantees: it writes within the room it is given, and a result fits in it.
  A stored block may rewind the reader over the bytes it has not used, but not by more than it reads.
\<close>

definition block_done :: "byte list \<Rightarrow> bitreader \<Rightarrow> nat \<Rightarrow> nat \<Rightarrow> byte list \<Rightarrow> nat option \<times> bitreader \<times> byte list \<Rightarrow> bool" where
  "block_done mem br off room out = (\<lambda>(r, br', out'). only_within off (off + room) out out'
     \<and> (\<forall>n. r = Some n \<longrightarrow> n \<le> room \<and> advanced mem br br'))"

lemma decompress_block_safe:
  assumes "br_inv mem br" "started br" "off + room \<le> length out"
  shows "ok (block_done mem br off room out) (em_inflate_decompress_block mem br dyn out off room)"
proof -
  have 1: "oko (\<lambda>(t, br'). prepared_tables t \<and> advanced mem br br')
      (if dyn then read_dynamic_tables mem br else obind fixed_tables (\<lambda>t. Inr (Some (t, br))))"
    using dynamic_tables_safe [OF assms(1,2)] fixed_tables_safe advanced_refl [OF assms(1,2)]
    by (auto elim!: oko_obind)
  have 2: "oko (\<lambda>(t, br'). ready_tables t \<and> advanced mem br br')
      (obind (if dyn then read_dynamic_tables mem br else obind fixed_tables (\<lambda>t. Inr (Some (t, br))))
        (\<lambda>(t, br). obind (block_tables t) (\<lambda>t. Inr (Some (t, br)))))"
    by (rule oko_obind2 [OF 1]) (auto intro!: oko_obind [OF block_tables_safe])
  show ?thesis
    unfolding em_inflate_decompress_block_def
  proof (rule ok_option [OF 2])
    fix x
    assume x: "case x of (t, br') \<Rightarrow> ready_tables t \<and> advanced mem br br'"
    obtain t br' where tb: "x = (t, br')" by (cases x)
    have loop: "ok (\<lambda>(r, br'', out'). only_within off (off + room) out out'
        \<and> (\<forall>c. r = Some c \<longrightarrow> off \<le> c \<and> c \<le> off + room \<and> advanced mem br' br''))
      (block_loop (room + 1) mem t (off + room) br' out off)"
      using x assms advancedD by (intro block_loop_safe) (auto simp: tb)
    have "ok (block_done mem br off room out) (rbind (block_loop (room + 1) mem t (off + room) br' out off)
           (\<lambda>(r, br, out). Inr (map_option (\<lambda>cur. cur - off) r, br, out)))"
    proof (rule ok_rbind [OF loop], clarify)
      fix r br'' out'
      assume out': "only_within off (off + room) out out'"
        and c: "\<forall>c. r = Some c \<longrightarrow> off \<le> c \<and> c \<le> off + room \<and> advanced mem br' br''"
      have "advanced mem br br''" if "r = Some c" for c
        using that c x by (auto simp: tb intro: advanced_trans)
      with out' c show "ok (block_done mem br off room out) (Inr (map_option (\<lambda>cur. cur - off) r, br'', out'))"
        by (cases r) (simp_all add: block_done_def le_diff_conv add.commute)
    qed
    then show "ok (block_done mem br off room out) (case Some x of None \<Rightarrow> Inr (None, br, out)
       | Some (t, br) \<Rightarrow> rbind (block_loop (room + 1) mem t (off + room) br out off)
           (\<lambda>(r, br, out). Inr (map_option (\<lambda>cur. cur - off) r, br, out)))"
      by (simp add: tb)
  qed (simp add: block_done_def)
qed

lemma rd_ok [simp]: "0 \<le> p \<Longrightarrow> p < int (length mem) \<Longrightarrow> rd mem p = Inr (mem ! nat p)"
  by (simp add: rd_def)

lemma rd16_ok:
  "0 \<le> p \<Longrightarrow> p + 2 \<le> int (length mem) \<Longrightarrow>
    rd16 mem p = Inr (ucast (mem ! nat p) OR shl (ucast (mem ! nat (p + 1))) 8)"
  by (simp add: rd16_def)

text \<open>
  A stored block reads at most 65535 bytes past the end of the data. It may leave the reader before
  where it was by three bytes, but has then stepped over four.
\<close>

lemma copy_stored_safe:
  assumes b: "br_inv mem br" "started br" and room: "off + room \<le> length out"
    and slack: "pInBlockEnd br + 65535 \<le> int (length mem)"
  shows "ok (block_done mem br off room out) (em_inflate_copy_stored mem br out off room)"
proof -
  define q where "q = pInBlock br - max 0 (nDecShifterBitCount br) div 8"
  define br1 where "br1 = br\<lparr>nDecShifterBitCount := 0, nDecShifterData := 0, pInBlock := q\<rparr>"
  have align: "em_lsb_bitreader_byte_align br = (True, br1)" and q: "pInBlockStart br \<le> q"
    and count: "q < pInBlockEnd br \<longrightarrow> 0 \<le> nDecShifterBitCount br"
    unfolding br1_def q_def by (fact byte_align_eq [OF b])+
  show ?thesis
  proof (cases "q + 4 > pInBlockEnd br")
    case True
    then show ?thesis
      by (simp add: em_inflate_copy_stored_def align br1_def block_done_def)
  next
    case False
    have q0: "0 \<le> q" "q + 4 \<le> int (length mem)" using False q b by (simp_all add: br_inv_def)
    define l where "l = (ucast (mem ! nat q) OR shl (ucast (mem ! nat (q + 1))) 8 :: uint16)"
    have r1: "rd16 mem q = Inr l" using q0 by (simp only: rd16_ok l_def)
    obtain m where r2: "rd16 mem (q + 2) = Inr m" using q0 rd16_ok [of "q + 2" mem] by simp
    have len: "unat l \<le> 65535" using unsigned_less [of l, where ?'a = nat] by simp
    define d where "d = take (unat l) (drop (nat (q + 4)) mem)"
    have slice: "slice_at mem (q + 4) (unat l) = Inr d" and ld: "length d = unat l"
      using q0 False slack len by (simp_all add: slice_at_def slice_def d_def nat_le_iff)
    have c0: "0 \<le> nDecShifterBitCount br" using False count by simp
    define k where "k = nDecShifterBitCount br div 8"
    have k: "8 * k \<le> nDecShifterBitCount br" "q = pInBlock br - k"
      using c0 by (simp_all add: k_def q_def)
    have adv: "advanced mem br (br1\<lparr>pInBlock := q + 4 + int n\<rparr>)" for n
      using False q b k by (auto simp: advanced_def br_defs br1_def)
    have tail: "ok (block_done mem br off room out) (rbind (blit_at out off d)
        (\<lambda>out. Inr (Some (unat l), br1\<lparr>pInBlock := q + 4 + int (unat l)\<rparr>, out)))" if "unat l \<le> room"
      using that room ld adv [of "unat l"]
      by (intro ok_rbind [OF blit_at_safe [of off d out off "off + room"]]) (simp_all add: block_done_def)
    have br1: "pInBlock br1 = q" "pInBlockEnd br1 = pInBlockEnd br" by (simp_all add: br1_def)
    have fail: "block_done mem br off room out (None, br', out)" for br' by (simp add: block_done_def)
    have body: "em_inflate_copy_stored mem br out off room =
        (if l \<noteq> NOT m \<or> room < unat l then Inr (None, br1\<lparr>pInBlock := q + 4\<rparr>, out)
         else rbind (blit_at out off d)
           (\<lambda>out. Inr (Some (unat l), br1\<lparr>pInBlock := q + 4 + int (unat l)\<rparr>, out)))"
      using False slice
      by (cases "l = NOT m")
         (simp_all add: em_inflate_copy_stored_def align Let_def br1 r1 r2 add.commute [of _ q])
    show ?thesis unfolding body using tail fail by (auto split: if_split)
  qed
qed

end
