(* ===== verification/InflateSafe.thy ===== *)
theory InflateSafe
  imports InflateProps
begin

text \<open>
  The whole of em_inflate.c on any input whatever: the wrapper, the blocks and the trailer. The
  routine terminates, writes nothing outside the output buffer it is given and reads nothing outside
  the input, but for two exceptions that are theorems too: a truncated stream makes it read a result
  variable it never set, and a stored block is copied without asking whether the data still holds it.
\<close>

section \<open>Computations whose only fault is the unset variable\<close>

definition okU :: "('a \<Rightarrow> bool) \<Rightarrow> 'a res \<Rightarrow> bool" where
  "okU P m = (case m of Inl e \<Rightarrow> e = Uninitialised | Inr x \<Rightarrow> P x)"

lemma okU_simps [simp]: "okU P (Inr x) = P x" "okU P (Inl e) = (e = Uninitialised)"
  by (simp_all add: okU_def)

lemma okU_rbind: "okU P m \<Longrightarrow> (\<And>x. P x \<Longrightarrow> okU Q (f x)) \<Longrightarrow> okU Q (rbind m f)"
  by (cases m) auto

lemma ok_okU: "ok P m \<Longrightarrow> okU P m"
  by (cases m) auto

lemma oko_okU_rbind:
  "oko P m \<Longrightarrow> okU Q (f None) \<Longrightarrow> (\<And>x. P x \<Longrightarrow> okU Q (f (Some x))) \<Longrightarrow> okU Q (rbind m f)"
  unfolding oko_def by (erule okU_rbind [OF ok_okU]) (auto split: option.splits)

lemma okE: "ok P m \<Longrightarrow> (\<And>x. m = Inr x \<Longrightarrow> P x \<Longrightarrow> C) \<Longrightarrow> C"
  by (cases m) auto

section \<open>The blocks\<close>

definition blocks_inv :: "byte list \<Rightarrow> bitreader \<Rightarrow> nat \<Rightarrow> nat \<Rightarrow> byte list \<Rightarrow> bool" where
  "blocks_inv mem br cur nMax out \<longleftrightarrow> br_inv mem br \<and> pInBlockEnd br + 65535 \<le> int (length mem)
     \<and> cur \<le> nMax \<and> nMax \<le> length out"

definition one_block :: "byte list \<Rightarrow> bitreader \<Rightarrow> nat \<Rightarrow> nat \<Rightarrow> byte list
    \<Rightarrow> uint32 \<times> nat option \<times> bitreader \<times> byte list \<Rightarrow> bool" where
  "one_block mem br cur nMax out = (\<lambda>(fin, r, br', out'). only_within cur nMax out out'
     \<and> (\<forall>n. r = Some n \<longrightarrow> cur + n \<le> nMax \<and> advanced mem br br'
         \<and> 2 \<le> budget br \<and> budget br' < budget br))"

lemma block_body_safe:
  assumes b: "br_inv mem br" "started br" and "pInBlockEnd br + 65535 \<le> int (length mem)"
    "off + room \<le> length out"
  shows "okU (block_done mem br off room out)
    (if t = 0 then em_inflate_copy_stored mem br out off room
     else if t = 1 then em_inflate_decompress_block mem br False out off room
     else if t = 2 then em_inflate_decompress_block mem br True out off room
     else if t = 3 then Inr (None, br, out) else Inl Uninitialised)"
  using copy_stored_safe [OF b assms(4,3)] decompress_block_safe [OF b assms(4)]
  by (auto intro!: ok_okU simp: block_done_def)

lemma inflate_block_safe:
  assumes "blocks_inv mem br cur nMax out"
  shows "okU (one_block mem br cur nMax out) (inflate_block mem br out cur nMax)"
proof -
  have inv: "br_inv mem br" and room: "cur + (nMax - cur) \<le> length out" "cur + (nMax - cur) = nMax"
    and slack: "pInBlockEnd br + 65535 \<le> int (length mem)"
    using assms by (simp_all add: blocks_inv_def)
  obtain v br1 where 1: "em_lsb_bitreader_get_bits mem 1 br = Inr (v, br1)"
    "br_inv mem br1" "same_block br br1" "budget br1 \<le> budget br"
    using get_bits_inv [OF inv, of 1, simplified] by (elim okE) (auto split: if_splits)
  obtain t br2 where 2: "em_lsb_bitreader_get_bits mem 2 br1 = Inr (t, br2)"
    "t \<noteq> -1 \<Longrightarrow> br_inv mem br2 \<and> same_block br1 br2 \<and> budget br2 \<le> budget br1 - 2 \<and> started br2"
    using get_bits_inv [OF 1(2), of 2, simplified] by (elim okE) (auto split: if_splits)
  show ?thesis
  proof (cases "t = -1")
    case True
    then show ?thesis by (simp add: inflate_block_def 1(1) 2(1) del: One_nat_def)
  next
    case False
    note t = 2(2) [OF False]
    have two: "2 \<le> budget br1" using get_bits_budget [OF 1(2) _ _ 2(1) False] by simp
    have slack2: "pInBlockEnd br2 + 65535 \<le> int (length mem)"
      using slack t 1(3) by (simp add: same_block_def)
    have body: "okU (block_done mem br2 cur (nMax - cur) out)
      (if t = 0 then em_inflate_copy_stored mem br2 out cur (nMax - cur)
       else if t = 1 then em_inflate_decompress_block mem br2 False out cur (nMax - cur)
       else if t = 2 then em_inflate_decompress_block mem br2 True out cur (nMax - cur)
       else if t = 3 then Inr (None, br2, out) else Inl Uninitialised)"
      using t slack2 room(1) by (intro block_body_safe) auto
    have after: "one_block mem br cur nMax out (v, r)" if "block_done mem br2 cur (nMax - cur) out r" for r
      using that t two 1(3,4) room(2) assms
      by (auto simp: block_done_def one_block_def advanced_def same_block_def blocks_inv_def split: prod.splits)
    show ?thesis
      by (simp only: inflate_block_def 1(1) 2(1) rbind_simps prod.case, rule okU_rbind [OF body]) (auto dest: after)
  qed
qed

text \<open>
  Every block but the last takes its three header bits from what is left, so the fuel of the loop,
  one more than what a reader at the start of the data can spend, never runs out.
\<close>

definition all_blocks :: "byte list \<Rightarrow> bitreader \<Rightarrow> nat \<Rightarrow> nat \<Rightarrow> byte list
    \<Rightarrow> (uint32 \<times> bitreader \<times> nat) option \<times> byte list \<Rightarrow> bool" where
  "all_blocks mem br cur nMax out = (\<lambda>(r, out'). only_within cur nMax out out'
     \<and> (\<forall>c br' n. r = Some (c, br', n) \<longrightarrow> n \<le> nMax \<and> advanced mem br br'))"

lemma inflate_loop_safe:
  assumes "blocks_inv mem br cur nMax out" "budget br < int fuel" "0 < fuel"
  shows "okU (all_blocks mem br cur nMax out) (inflate_loop fuel mem ct nMax chk br out cur)"
  using assms
proof (induction fuel arbitrary: chk br out cur)
  case (Suc fuel)
  show ?case
    unfolding inflate_loop.simps
  proof (rule okU_rbind [OF inflate_block_safe [OF Suc.prems(1)]], clarify)
    fix fin r br' out'
    assume one: "one_block mem br cur nMax out (fin, r, br', out')"
    show "okU (all_blocks mem br cur nMax out)
      (case r of None \<Rightarrow> Inr (None, out')
       | Some n \<Rightarrow> rbind (slice out' cur n) (\<lambda>d. let nCheckSum = update_checksum ct chk d in
           if fin = 0 then inflate_loop fuel mem ct nMax nCheckSum br' out' (cur + n)
           else Inr (Some (nCheckSum, br', cur + n), out')))"
    proof (cases r)
      case None
      then show ?thesis using one by (simp add: all_blocks_def one_block_def)
    next
      case (Some n)
      have n: "cur + n \<le> nMax" "advanced mem br br'" "2 \<le> budget br" "budget br' < budget br"
        "only_within cur nMax out out'"
        using one Some by (simp_all add: one_block_def)
      have inv: "blocks_inv mem br' (cur + n) nMax out'"
        using n Suc.prems(1) by (simp add: blocks_inv_def advanced_def same_block_def only_within_def)
      have "slice out' cur n = Inr (take n (drop cur out'))"
        using n(1) inv by (simp add: slice_def blocks_inv_def)
      moreover have "okU (all_blocks mem br cur nMax out)
        (inflate_loop fuel mem ct nMax chk' br' out' (cur + n))" for chk'
        using Suc.IH [OF inv, of chk'] n Suc.prems(2)
        by (auto simp: okU_def all_blocks_def split: sum.splits
            intro: only_within_trans [OF n(5), of "cur + n" nMax] advanced_trans [OF n(2)])
      ultimately show ?thesis using Some n by (simp add: Let_def all_blocks_def)
    qed
  qed
qed simp

section \<open>The wrapper and the trailer\<close>

lemma skip_string_safe:
  assumes "0 \<le> p" "end \<le> int (length mem)"
  shows "oko (\<lambda>p'. 0 \<le> p' \<and> p' \<le> end) (skip_string mem end p)"
  using assms
proof (induction mem "end" p rule: skip_string.induct)
  case (1 mem "end" p)
  then show ?case by (subst skip_string.simps) simp
qed

lemma gzip_header_safe:
  assumes "end \<le> int (length mem)"
  shows "oko (\<lambda>p. 0 \<le> p \<and> p \<le> end) (gzip_header mem end 0)"
proof -
  define I where "I p \<longleftrightarrow> 0 \<le> p \<and> p \<le> end" for p
  have str: "oko I (if c then skip_string mem end p else Inr (Some p))" if "I p" for p c
    using that skip_string_safe [OF _ assms, of p] by (simp add: I_def [abs_def])
  have part: "oko I (if c then (if p + 2 > end then Inr None else Inr (Some (p + 2))) else Inr (Some p))"
    if "I p" for p c
    using that by (simp add: I_def)
  have extra: "oko I (if c then (if p + 2 > end then Inr None
      else rbind (rd16 mem p) (\<lambda>nExtraFieldLen. let p = p + 2 in
        if p + int (unat nExtraFieldLen) > end then Inr None else Inr (Some (p + int (unat nExtraFieldLen)))))
      else Inr (Some p))" if "I p" for p c
    using that assms rd16_ok [of p mem] by (auto simp: I_def Let_def)
  define R where "R p c1 c2 c3 c4 c5 =
      obind (if c1 then (if p + 2 > end then Inr None else Inr (Some (p + 2))) else Inr (Some p)) (\<lambda>p.
      obind (if c2 then (if p + 2 > end then Inr None
          else rbind (rd16 mem p) (\<lambda>nExtraFieldLen. let p = p + 2 in
            if p + int (unat nExtraFieldLen) > end then Inr None else Inr (Some (p + int (unat nExtraFieldLen)))))
        else Inr (Some p)) (\<lambda>p.
      obind (if c3 then skip_string mem end p else Inr (Some p)) (\<lambda>p.
      obind (if c4 then skip_string mem end p else Inr (Some p)) (\<lambda>p.
      if c5 then Inr None else Inr (Some p)))))" for p c1 c2 c3 c4 c5
  have rest: "oko I (R p c1 c2 c3 c4 c5)" if "I p" for p c1 c2 c3 c4 c5
    unfolding R_def
    by (rule oko_obind [OF part [OF that]], rule oko_obind [OF extra], assumption,
        (rule oko_obind [OF str], assumption)+) simp
  show ?thesis
  proof (cases "10 \<le> end")
    case True
    have "rd mem 2 = Inr (mem ! 2)" "rd mem 3 = Inr (mem ! 3)" using True assms by (simp_all add: rd_def)
    then have "gzip_header mem end 0 = (if mem ! 2 \<noteq> 8 then Inr None
      else R 10 (mem ! 3 AND 0x02 \<noteq> 0) (mem ! 3 AND 0x04 \<noteq> 0) (mem ! 3 AND 0x08 \<noteq> 0)
        (mem ! 3 AND 0x10 \<noteq> 0) (mem ! 3 AND 0x20 \<noteq> 0))"
      using True by (simp add: gzip_header_def R_def Let_def)
    then show ?thesis using True rest [of 10] by (simp add: I_def [abs_def])
  next
    case False
    then show ?thesis by (simp add: gzip_header_def)
  qed
qed

lemma read_header_safe:
  assumes "end \<le> int (length mem)"
  shows "oko (\<lambda>(ct, p). 0 \<le> p \<and> p \<le> end) (read_header mem end)"
proof -
  have bytes: "rd mem 0 = Inr (mem ! 0)" "rd mem 1 = Inr (mem ! 1)" if "2 \<le> end"
    using that assms by (auto simp: rd_def)
  have zlib: "oko (\<lambda>p. 0 \<le> p \<and> p \<le> end) (zlib_header mem end 0)" if "2 \<le> end"
    using that bytes by (simp add: zlib_header_def Let_def)
  show ?thesis
  proof (cases "2 \<le> end")
    case True
    then show ?thesis
      using bytes by (auto simp: read_header_def intro!: oko_obind [OF gzip_header_safe [OF assms]] oko_obind [OF zlib])
  qed (simp add: read_header_def)
qed

lemma check_trailer_safe:
  assumes "0 \<le> p" "end \<le> int (length mem)"
  shows "ok (\<lambda>_. True) (check_trailer mem end ct s p)"
  using assms by (simp add: check_trailer_def)

section \<open>The whole routine\<close>

definition inflated :: "nat \<Rightarrow> byte list \<Rightarrow> nat option \<times> byte list \<Rightarrow> bool" where
  "inflated nMax out = (\<lambda>(r, out'). only_within 0 nMax out out' \<and> (\<forall>n. r = Some n \<longrightarrow> n \<le> nMax))"

lemma init_inv:
  assumes "0 \<le> p" "end \<le> int (length mem)"
  shows "br_inv mem (em_lsb_bitreader_init p end)"
  using assms by (simp add: em_lsb_bitreader_init_def br_defs)

lemma only_within_length: "only_within a b out out' \<Longrightarrow> length out' = length out"
  by (simp add: only_within_def)

lemma only_within_drop: "only_within a b out out' \<Longrightarrow> drop b out' = drop b out"
  by (auto simp: only_within_def intro!: nth_equalityI)

lemma em_inflate_okU:
  assumes slack: "nSize + 65535 \<le> length mem" and room: "nMax \<le> length out"
  shows "okU (inflated nMax out) (em_inflate mem nSize out nMax)"
  unfolding em_inflate_def Let_def
proof (rule oko_okU_rbind [OF read_header_safe], goal_cases)
  case 1
  then show ?case using slack by simp
next
  case 2
  then show ?case by (simp add: inflated_def)
next
  case (3 x)
  obtain ct p where x: "x = (ct, p)" by (cases x)
  with 3 have p: "0 \<le> p" "p \<le> int nSize" by simp_all
  define br where "br = em_lsb_bitreader_init p (int nSize)"
  have inv: "blocks_inv mem br 0 nMax out"
    using init_inv [of p "int nSize" mem] p slack room
    by (simp add: br_def blocks_inv_def) (simp add: em_lsb_bitreader_init_def)
  have fuel: "budget br < int (16 * nSize + 1)"
    using p by (simp add: br_def em_lsb_bitreader_init_def budget_def)
  have after: "okU (inflated nMax out) (case r of None \<Rightarrow> Inr (None, out')
      | Some (nCheckSum, br, n) \<Rightarrow>
        rbind (check_trailer mem (int nSize) ct nCheckSum (pInBlock (snd (em_lsb_bitreader_byte_align br))))
          (\<lambda>good. Inr (if good then Some n else None, out')))"
    if all: "all_blocks mem br 0 nMax out (r, out')" for r out'
  proof (cases r)
    case None
    then show ?thesis using all by (simp add: all_blocks_def inflated_def)
  next
    case (Some a)
    obtain c br' n where a: "a = (c, br', n)" by (cases a)
    have n: "only_within 0 nMax out out'" "n \<le> nMax" and br': "br_inv mem br'" "started br'"
      using all Some a by (simp_all add: all_blocks_def advanced_def)
    have "0 \<le> pInBlock (snd (em_lsb_bitreader_byte_align br'))"
      using byte_align_eq(2) [OF br'] br'(1) by (simp add: byte_align_eq(1) [OF br'] br_inv_def)
    then have "ok (\<lambda>_. True) (check_trailer mem (int nSize) ct c (pInBlock (snd (em_lsb_bitreader_byte_align br'))))"
      using slack by (intro check_trailer_safe) simp_all
    then show ?thesis using n by (simp add: Some a inflated_def okU_rbind [OF ok_okU])
  qed
  show ?case
    unfolding x option.case prod.case br_def [symmetric]
    using after by (intro okU_rbind [OF inflate_loop_safe [OF inv fuel]]) (auto split: prod.splits)
qed

text \<open>
  (C2) em_inflate on any compressed data whatsoever, with the 65535 bytes behind it readable: the call
  returns (no loop runs on for ever, no shift, table or buffer access is out of bounds), with the one
  exception of the result variable it may read unset; it changes nothing of the output buffer from
  nMaxOutDataSize on, and the size it reports is at most nMaxOutDataSize.
\<close>

theorem em_inflate_safe:
  assumes "nCompressedDataSize + 65535 \<le> length mem" "nMaxOutDataSize \<le> length pOutData"
  shows "em_inflate mem nCompressedDataSize pOutData nMaxOutDataSize = Inl Uninitialised
    \<or> (\<exists>r out. em_inflate mem nCompressedDataSize pOutData nMaxOutDataSize = Inr (r, out)
        \<and> length out = length pOutData \<and> drop nMaxOutDataSize out = drop nMaxOutDataSize pOutData
        \<and> (\<forall>n. r = Some n \<longrightarrow> n \<le> nMaxOutDataSize))"
  using em_inflate_okU [OF assms]
  by (auto simp: okU_def inflated_def only_within_length only_within_drop split: sum.splits)

theorem em_inflate_safe_witness:
  "em_inflate ([1, 2, 0, 0xfd, 0xff, 65, 66] @ replicate 65535 0) 7 [7, 7, 7, 7] 3 = Inl Uninitialised
    \<or> (\<exists>r out. em_inflate ([1, 2, 0, 0xfd, 0xff, 65, 66] @ replicate 65535 0) 7 [7, 7, 7, 7] 3 = Inr (r, out)
        \<and> length out = length ([7, 7, 7, 7] :: byte list) \<and> drop 3 out = drop 3 [7, 7, 7, 7]
        \<and> (\<forall>n. r = Some n \<longrightarrow> n \<le> 3))"
  by (rule em_inflate_safe) simp_all

end
