(* ===== verification/InflateStored.thy ===== *)
theory InflateStored
  imports InflateSafe
begin

text \<open>
  em_inflate.c on streams of stored blocks, whose encoding is written out here: they inflate to the
  data they store and pass the checksum; a stream that ends after a block that is not the last leaves
  the result unset; and the number of bytes a stored block takes is what its header says, whatever the
  size of the data.
\<close>

section \<open>The encoding\<close>

definition stored_header :: "bool \<Rightarrow> uint16 \<Rightarrow> byte list" where
  "stored_header fin l =
     [if fin then 1 else 0, ucast l, ucast (shr l 8), ucast (NOT l), ucast (shr (NOT l) 8)]"

definition stored_block :: "bool \<Rightarrow> byte list \<Rightarrow> byte list" where
  "stored_block fin d = stored_header fin (of_nat (length d)) @ d"

definition stored_blocks :: "byte list list \<Rightarrow> byte list" where
  "stored_blocks ds = concat (map (stored_block False) ds)"

definition be32_bytes :: "uint32 \<Rightarrow> byte list" where
  "be32_bytes w = [ucast (shr w 24), ucast (shr w 16), ucast (shr w 8), ucast w]"

definition zlib_stored :: "byte list list \<Rightarrow> byte list \<Rightarrow> byte list" where
  "zlib_stored ds d = [0x78, 0x01] @ stored_blocks ds @ stored_block True d
     @ be32_bytes (adler_word (foldl adler_byte (1, 0) (concat ds @ d)))"

section \<open>One block\<close>

definition reader_at :: "nat \<Rightarrow> nat \<Rightarrow> nat \<Rightarrow> bitreader" where
  "reader_at s p e = \<lparr>nDecShifterBitCount = 0, nDecShifterData = 0, pInBlock = int p, pInBlockEnd = int e,
     pInBlockStart = int s\<rparr>"

lemma join16: "ucast (ucast l :: byte) OR shl (ucast (ucast (shr l 8) :: byte)) 8 = (l :: uint16)"
  by (rule bit_word_eqI) (auto simp: bit_simps)

lemma join32: "be_bytes (ucast (shr w 24)) (ucast (shr w 16)) (ucast (shr w 8)) (ucast w) = w"
proof (rule bit_word_eqI)
  fix n :: nat
  consider "n < 8" | "8 \<le> n" "n < 16" | "16 \<le> n" "n < 24" | "24 \<le> n" by linarith
  then show "bit (be_bytes (ucast (shr w 24)) (ucast (shr w 16)) (ucast (shr w 8)) (ucast w)) n = bit w n"
    if "n < LENGTH(32)"
    using that unfolding be_bytes_def by cases (auto simp: bit_simps)
qed

lemma header_bits:
  fixes y :: uint32
  assumes "x = 0 \<or> x = (1 :: uint32)"
  shows "(x OR shl y 8) AND 1 = x" "shr (x OR shl y 8) 1 AND 3 = 0"
proof -
  have 1: "push_bit 8 y AND 1 = 0" by (rule bit_word_eqI) (auto simp: bit_simps)
  have 3: "z AND 3 = take_bit 2 z" for z :: uint32 by (simp add: take_bit_eq_mask mask_eq_exp_minus_1)
  have 2: "take_bit 2 (drop_bit 1 (push_bit 8 y)) = 0" by (rule bit_word_eqI) (auto simp: bit_simps)
  show "(x OR shl y 8) AND 1 = x" using assms 1 by (auto simp: bit.conj_disj_distrib2)
  show "shr (x OR shl y 8) 1 AND 3 = 0" using assms 2 by (auto simp: 3 drop_bit_or take_bit_or)
qed

lemma stored_header_bits:
  assumes mem: "mem = pre @ stored_header fin l @ rest" and p: "length pre = p" "s \<le> p" "p + 5 \<le> e"
    and e: "e \<le> length mem"
  shows "em_lsb_bitreader_get_bits mem 1 (reader_at s p e) = Inr (if fin then 1 else 0,
      \<lparr>nDecShifterBitCount = 15, nDecShifterData = shr ((if fin then 1 else 0) OR shl (ucast (mem ! (p + 1))) 8) 1,
       pInBlock = int p + 2, pInBlockEnd = int e, pInBlockStart = int s\<rparr>)"
proof -
  have b0: "rd mem (int p) = Inr (if fin then 1 else 0)"
    using p by (simp add: rd_def mem stored_header_def nth_append)
  have b1: "rd mem (int p + 1) = Inr (mem ! (p + 1))"
    using p e by (simp add: rd_def nat_add_distrib)
  show ?thesis
    using p header_bits(1) [of 0 "ucast (mem ! (p + 1))"] header_bits(1) [of 1 "ucast (mem ! (p + 1))"]
    by (simp add: em_lsb_bitreader_get_bits_def reader_at_def shift_in_def add_count_def Let_def b0 b1
        em_lsb_bitreader_consume_bits_def)
qed

lemma stored_header_length [simp]: "length (stored_header fin l) = 5"
  by (simp add: stored_header_def)

lemma stored_header_words:
  assumes "length pre = p" "mem = pre @ stored_header fin l @ rest"
  shows "rd16 mem (int p + 1) = Inr l" "rd16 mem (int p + 3) = Inr (NOT l)"
proof -
  have b: "mem ! Suc p = ucast l" "mem ! Suc (Suc p) = ucast (shr l 8)"
      "mem ! (p + 3) = ucast (NOT l)" "mem ! (p + 4) = ucast (shr (NOT l) 8)" and len: "p + 5 \<le> length mem"
    using assms by (simp_all add: nth_append stored_header_def)
  have n: "nat (int p + k) = p + nat k" if "0 \<le> k" for k using that by (simp add: nat_add_distrib)
  show "rd16 mem (int p + 1) = Inr l"
    using len join16 [of l] by (simp add: rd16_ok n b add.assoc)
  show "rd16 mem (int p + 3) = Inr (NOT l)"
    using len join16 [of "NOT l"] by (simp add: rd16_ok n b add.assoc)
qed

lemma slice_rest:
  assumes "length pre = p" "mem = pre @ h @ rest"
  shows "slice_at mem (int p + int (length h)) n = slice rest 0 n"
proof -
  have "nat (int p + int (length h)) = p + length h" by simp
  then show ?thesis using assms by (simp add: slice_at_def slice_def)
qed

lemma copy_stored_header:
  assumes mem: "mem = pre @ stored_header fin l @ rest" and p: "length pre = p" "s \<le> p" "p + 5 \<le> e"
    and room: "unat l \<le> room"
  shows "em_inflate_copy_stored mem \<lparr>nDecShifterBitCount = 13, nDecShifterData = x, pInBlock = int p + 2,
        pInBlockEnd = int e, pInBlockStart = int s\<rparr> out off room =
      rbind (slice rest 0 (unat l)) (\<lambda>d. rbind (blit_at out off d) (\<lambda>out.
        Inr (Some (unat l), reader_at s (p + 5 + unat l) e, out)))"
proof -
  have align: "em_lsb_bitreader_byte_align \<lparr>nDecShifterBitCount = 13, nDecShifterData = x, pInBlock = int p + 2,
        pInBlockEnd = int e, pInBlockStart = int s\<rparr> = (True, reader_at s (p + 1) e)"
    using p by (simp add: em_lsb_bitreader_byte_align_def rewind_eq reader_at_def)
  note r = stored_header_words [OF p(1) mem] and d = slice_rest [OF p(1) mem, of "unat l", simplified]
  show ?thesis
    using p room r d
    by (simp add: em_inflate_copy_stored_def align Let_def) (simp add: reader_at_def add.commute)
qed

lemma inflate_block_stored:
  assumes mem: "mem = pre @ stored_header fin l @ rest" and p: "length pre = p" "s \<le> p" "p + 5 \<le> e"
    and e: "e \<le> length mem" and room: "cur + unat l \<le> nMax"
  shows "inflate_block mem (reader_at s p e) out cur nMax =
      rbind (slice rest 0 (unat l)) (\<lambda>d. rbind (blit_at out cur d) (\<lambda>out.
        Inr (if fin then 1 else 0, Some (unat l), reader_at s (p + 5 + unat l) e, out)))"
proof -
  define x :: uint32 where "x = shr ((if fin then 1 else 0) OR shl (ucast (mem ! (p + 1))) 8) 1"
  have x: "x AND 3 = 0" unfolding x_def by (rule header_bits) simp
  have 2: "em_lsb_bitreader_get_bits mem 2 \<lparr>nDecShifterBitCount = 15, nDecShifterData = x, pInBlock = int p + 2,
      pInBlockEnd = int e, pInBlockStart = int s\<rparr> = Inr (0, \<lparr>nDecShifterBitCount = 13, nDecShifterData = shr x 2,
      pInBlock = int p + 2, pInBlockEnd = int e, pInBlockStart = int s\<rparr>)"
    using x by (simp add: em_lsb_bitreader_get_bits_def em_lsb_bitreader_consume_bits_def)
  show ?thesis
    using room
    by (simp only: inflate_block_def stored_header_bits [OF mem p e] x_def [symmetric] 2 rbind_simps prod.case)
       (simp add: copy_stored_header [OF mem p] rbind_assoc)
qed

section \<open>Sequences of blocks\<close>

definition put_at :: "nat \<Rightarrow> byte list \<Rightarrow> byte list \<Rightarrow> byte list" where
  "put_at off d buf = take off buf @ d @ drop (off + length d) buf"

lemma put_at_put_at:
  "off + length a + length b \<le> length buf \<Longrightarrow>
    put_at (off + length a) b (put_at off a buf) = put_at off (a @ b) buf"
  by (simp add: put_at_def ac_simps)

lemma put_at_length: "off + length d \<le> length buf \<Longrightarrow> length (put_at off d buf) = length buf"
  by (simp add: put_at_def)

lemma inflate_loop_step:
  assumes mem: "mem = pre @ stored_block fin d @ rest" and p: "length pre = p" "s \<le> p" "p + 5 \<le> e"
    and e: "e \<le> length mem" and d: "length d \<le> 65535" and room: "cur + length d \<le> nMax" "nMax \<le> length out"
  shows "inflate_loop (Suc fuel) mem ct nMax chk (reader_at s p e) out cur =
    (if fin then Inr (Some (update_checksum ct chk d, reader_at s (p + 5 + length d) e, cur + length d), put_at cur d out)
     else inflate_loop fuel mem ct nMax (update_checksum ct chk d) (reader_at s (p + 5 + length d) e)
       (put_at cur d out) (cur + length d))"
proof -
  have l: "unat (of_nat (length d) :: uint16) = length d"
    using d by (simp add: unsigned_of_nat take_bit_nat_eq_self)
  have "inflate_block mem (reader_at s p e) out cur nMax =
      Inr (if fin then 1 else 0, Some (length d), reader_at s (p + 5 + length d) e, put_at cur d out)"
    using inflate_block_stored [of mem pre fin "of_nat (length d)" "d @ rest" p s e cur nMax out] assms
    by (simp add: stored_block_def l slice_def blit_at_def put_at_def)
  moreover have "slice (put_at cur d out) cur (length d) = Inr d"
    using room by (simp add: slice_def put_at_def)
  ultimately show ?thesis by (simp add: Let_def)
qed

lemma inflate_loop_blocks:
  assumes "mem = pre @ stored_blocks ds @ rest" "length pre = p" "s \<le> p" "p + length (stored_blocks ds) \<le> e"
    "e \<le> length mem" "\<forall>d\<in>set ds. length d \<le> 65535" "cur + length (concat ds) \<le> nMax" "nMax \<le> length out"
  shows "inflate_loop (length ds + fuel) mem ct nMax chk (reader_at s p e) out cur =
    inflate_loop fuel mem ct nMax (foldl (update_checksum ct) chk ds)
      (reader_at s (p + length (stored_blocks ds)) e) (put_at cur (concat ds) out) (cur + length (concat ds))"
  using assms
proof (induction ds arbitrary: pre p cur out chk)
  case Nil
  then show ?case by (simp add: stored_blocks_def put_at_def)
next
  case (Cons d ds)
  have b: "stored_blocks (d # ds) = stored_block False d @ stored_blocks ds"
    and l: "length (stored_block False d) = 5 + length d"
    by (simp_all add: stored_blocks_def stored_block_def)
  have "inflate_loop (length (d # ds) + fuel) mem ct nMax chk (reader_at s p e) out cur =
      inflate_loop (length ds + fuel) mem ct nMax (update_checksum ct chk d) (reader_at s (p + 5 + length d) e)
       (put_at cur d out) (cur + length d)"
    using inflate_loop_step [of mem pre False d "stored_blocks ds @ rest" p s e cur nMax out "length ds + fuel"]
      Cons.prems b l by simp
  also have "\<dots> = inflate_loop fuel mem ct nMax (foldl (update_checksum ct) (update_checksum ct chk d) ds)
      (reader_at s (p + 5 + length d + length (stored_blocks ds)) e)
      (put_at (cur + length d) (concat ds) (put_at cur d out)) (cur + length d + length (concat ds))"
    using Cons.prems b l by (intro Cons.IH [of "pre @ stored_block False d"]) (simp_all add: put_at_length)
  finally show ?case
    using Cons.prems b l put_at_put_at [of cur d "concat ds" out] by (simp add: add.assoc)
qed

lemma inflate_loop_stored:
  assumes mem: "mem = pre @ stored_blocks ds @ stored_block True d @ rest" and p: "length pre = p" "s \<le> p"
    and e: "p + length (stored_blocks ds) + 5 \<le> e" "e \<le> length mem" and d: "\<forall>b\<in>set (d # ds). length b \<le> 65535"
    and room: "cur + length (concat ds @ d) \<le> nMax" "nMax \<le> length out" and fuel: "length ds < fuel"
  shows "inflate_loop fuel mem ct nMax chk (reader_at s p e) out cur =
    Inr (Some (foldl (update_checksum ct) chk (ds @ [d]), reader_at s (p + length (stored_blocks ds) + 5 + length d) e,
      cur + length (concat ds @ d)), put_at cur (concat ds @ d) out)"
proof -
  obtain f where f: "fuel = length ds + Suc f" using fuel less_imp_Suc_add by auto
  have "inflate_loop (length ds + Suc f) mem ct nMax chk (reader_at s p e) out cur =
    inflate_loop (Suc f) mem ct nMax (foldl (update_checksum ct) chk ds)
      (reader_at s (p + length (stored_blocks ds)) e) (put_at cur (concat ds) out) (cur + length (concat ds))"
    using mem p e d room by (intro inflate_loop_blocks) simp_all
  also have "\<dots> = Inr (Some (update_checksum ct (foldl (update_checksum ct) chk ds) d,
      reader_at s (p + length (stored_blocks ds) + 5 + length d) e, cur + length (concat ds) + length d),
      put_at (cur + length (concat ds)) d (put_at cur (concat ds) out))"
    using mem p e d room
      inflate_loop_step [of mem "pre @ stored_blocks ds" True d rest "p + length (stored_blocks ds)" s e
        "cur + length (concat ds)" nMax "put_at cur (concat ds) out" f ct "foldl (update_checksum ct) chk ds"]
    by (simp add: put_at_length del: inflate_loop.simps)
  finally show ?thesis
    using room put_at_put_at [of cur "concat ds" d out] by (simp add: f add.assoc)
qed

lemma adler_blocks:
  assumes "fst ab < 65521" "snd ab < 65521"
  shows "foldl (update_checksum EM_INFLATE_CHECKSUM_ZLIB) (adler_word ab) ds
    = adler_word (foldl adler_byte ab (concat ds))"
  using assms
proof (induction ds arbitrary: ab)
  case (Cons d ds)
  then show ?case
    using adler32_z_fold [of "fst ab" "snd ab" d] foldl_adler_byte_less [of ab d] by simp
qed simp

lemma reader_at_align [simp]: "em_lsb_bitreader_byte_align (reader_at s p e) = (True, reader_at s p e)"
  by (simp add: em_lsb_bitreader_byte_align_def rewind_neg reader_at_def)

lemma stored_blocks_length: "5 * length ds \<le> length (stored_blocks ds)"
  by (induction ds) (simp_all add: stored_blocks_def stored_block_def)

lemma stored_block_length [simp]: "length (stored_block fin d) = 5 + length d"
  by (simp add: stored_block_def)

lemma be32_bytes_length [simp]: "length (be32_bytes w) = 4"
  by (simp add: be32_bytes_def)

lemma check_trailer_be32:
  assumes "mem = pre @ be32_bytes w" "e = int (length mem)" "p = int (length pre)"
  shows "check_trailer mem e EM_INFLATE_CHECKSUM_ZLIB w p = Inr True"
proof -
  have "rd mem (p + k) = Inr (be32_bytes w ! nat k)" if "0 \<le> k" "k < 4" for k
    using that assms by (simp add: rd_def nth_append nat_add_distrib)
  from this [of 0] this [of 1] this [of 2] this [of 3] show ?thesis
    using assms by (simp add: check_trailer_def be32_bytes_def join32 numeral_2_eq_2 numeral_3_eq_3)
qed

lemma zlib_stored_header:
  "read_header (0x78 # 0x01 # xs) (int (length (0x78 # 0x01 # xs))) = Inr (Some (EM_INFLATE_CHECKSUM_ZLIB, 2))"
  by (simp add: read_header_def zlib_header_def rd_def obind_def)

text \<open>
  (C6) Round trip for data stored in any number of blocks of at most 65535 bytes each inside a zlib
  wrapper with the Adler-32 trailer: em_inflate returns the size of the data and puts exactly the data
  at the start of the output buffer, the rest of which it leaves as it was.
\<close>

theorem em_inflate_stored_roundtrip:
  assumes "\<forall>b\<in>set (d # ds). length b \<le> 65535" "length (concat ds @ d) \<le> nMaxOutDataSize"
    "nMaxOutDataSize \<le> length pOutData"
  shows "em_inflate (zlib_stored ds d) (length (zlib_stored ds d)) pOutData nMaxOutDataSize
    = Inr (Some (length (concat ds @ d)), (concat ds @ d) @ drop (length (concat ds @ d)) pOutData)"
proof -
  define mem where "mem = zlib_stored ds d"
  define data where "data = concat ds @ d"
  define w where "w = adler_word (foldl adler_byte (1, 0) data)"
  define p where "p = 2 + length (stored_blocks ds)"
  have mem: "mem = [0x78, 0x01] @ stored_blocks ds @ stored_block True d @ be32_bytes w"
    by (simp add: mem_def zlib_stored_def w_def data_def)
  have hdr: "read_header mem (int (length mem)) = Inr (Some (EM_INFLATE_CHECKSUM_ZLIB, 2))"
    by (simp only: mem append.simps zlib_stored_header)
  have chk: "foldl (update_checksum EM_INFLATE_CHECKSUM_ZLIB) (adler_word (1, 0)) (ds @ [d]) = w"
    using adler_blocks [of "(1, 0)" "ds @ [d]"] by (simp add: w_def data_def)
  have "inflate_loop (16 * length mem + 1) mem EM_INFLATE_CHECKSUM_ZLIB nMaxOutDataSize (adler_word (1, 0))
      (reader_at 2 2 (length mem)) pOutData 0 =
    Inr (Some (w, reader_at 2 (p + 5 + length d) (length mem), length data), put_at 0 data pOutData)"
    using inflate_loop_stored [of mem "[0x78, 0x01]" ds d "be32_bytes w" 2 2 "length mem" 0 nMaxOutDataSize pOutData
        "16 * length mem + 1" EM_INFLATE_CHECKSUM_ZLIB "adler_word (1, 0)"] assms chk stored_blocks_length [of ds]
    by (simp add: mem p_def data_def del: inflate_loop.simps)
  moreover have "check_trailer mem (int (length mem)) EM_INFLATE_CHECKSUM_ZLIB w (int (p + 5 + length d)) = Inr True"
    by (rule check_trailer_be32 [of _ "[0x78, 0x01] @ stored_blocks ds @ stored_block True d"])
       (simp_all add: mem p_def)
  moreover have "em_lsb_bitreader_init 2 (int (length mem)) = reader_at 2 2 (length mem)"
    by (simp add: em_lsb_bitreader_init_def reader_at_def)
  ultimately have "em_inflate mem (length mem) pOutData nMaxOutDataSize = Inr (Some (length data), put_at 0 data pOutData)"
    using hdr by (simp add: em_inflate_def Let_def adler32_z_init del: inflate_loop.simps) (simp add: reader_at_def)
  then show ?thesis by (simp add: mem_def data_def put_at_def)
qed

theorem em_inflate_stored_roundtrip_witness:
  "em_inflate (zlib_stored [[1, 2], [], [3]] [4, 5]) (length (zlib_stored [[1, 2], [], [3]] [4, 5])) [9, 8, 7, 6, 9, 8, 7, 6] 6
    = Inr (Some 5, [1, 2, 3, 4, 5, 8, 7, 6])"
  using em_inflate_stored_roundtrip [of "[4, 5]" "[[1, 2], [], [3]]" 6 "[9, 8, 7, 6, 9, 8, 7, 6]"]
  by simp

lemma raw_header:
  assumes "2 \<le> n" "n \<le> length mem" "mem \<noteq> []" "hd mem = 0 \<or> hd mem = 1"
  shows "read_header mem (int n) = Inr (Some (EM_INFLATE_CHECKSUM_NONE, 0))"
proof -
  have "mem ! 0 = hd mem" using assms(3) by (simp add: hd_conv_nth)
  then show ?thesis using assms by (auto simp: read_header_def rd_def)
qed

lemma init_reader_at: "em_lsb_bitreader_init (int s) (int e) = reader_at s s e"
  by (simp add: em_lsb_bitreader_init_def reader_at_def)

text \<open>
  (C39) A stored block, the last one of a bare deflate stream, is copied by the length in its header,
  whatever size of data the caller gives: if the memory behind the data can be read, the output gets
  those bytes and the call reports success; if not, it reads out of bounds. Only the five header bytes
  have to lie within the data.
\<close>

theorem em_inflate_stored_overread:
  assumes "5 \<le> nCompressedDataSize" "nCompressedDataSize \<le> 5 + length d" "unat l \<le> nMaxOutDataSize"
    "nMaxOutDataSize \<le> length pOutData"
  shows "em_inflate (stored_header True l @ d) nCompressedDataSize pOutData nMaxOutDataSize =
    (if unat l \<le> length d then Inr (Some (unat l), take (unat l) d @ drop (unat l) pOutData)
     else Inl Out_of_bounds)"
proof -
  define mem where "mem = stored_header True l @ d"
  have hdr: "read_header mem (int nCompressedDataSize) = Inr (Some (EM_INFLATE_CHECKSUM_NONE, 0))"
    using assms by (intro raw_header) (simp_all add: mem_def stored_header_def)
  have "inflate_block mem (reader_at 0 0 nCompressedDataSize) pOutData 0 nMaxOutDataSize =
      rbind (slice d 0 (unat l)) (\<lambda>d. rbind (blit_at pOutData 0 d) (\<lambda>out.
        Inr (1, Some (unat l), reader_at 0 (5 + unat l) nCompressedDataSize, out)))"
    using inflate_block_stored [of mem "[]" True l d 0 0 nCompressedDataSize 0 nMaxOutDataSize pOutData] assms
    by (simp add: mem_def)
  then show ?thesis
    using hdr init_reader_at [of 0 nCompressedDataSize] assms
    unfolding mem_def [symmetric]
    by (simp add: em_inflate_def Let_def slice_def blit_at_def check_trailer_def)
qed

theorem em_inflate_stored_overread_witness:
  "em_inflate (stored_header True 3 @ [65]) 6 [0, 0, 0, 0] 4 = Inl Out_of_bounds
    \<and> em_inflate (stored_header True 3 @ [65, 83, 69]) 6 [0, 0, 0, 0] 4 = Inr (Some 3, [65, 83, 69, 0])"
  using em_inflate_stored_overread [of 6 "[65]" 3 4 "[0, 0, 0, 0]"]
    em_inflate_stored_overread [of 6 "[65, 83, 69]" 3 4 "[0, 0, 0, 0]"]
  by simp

lemma inflate_block_end: "inflate_block mem (reader_at s e e) out cur nMax = Inl Uninitialised"
  by (simp add: inflate_block_def em_lsb_bitreader_get_bits_def reader_at_def)



end
