(* ===== verification/XfsHash.thy ===== *)
theory XfsHash
  imports Host
begin

text \<open>
  The hash of directory entry names that src/tools/gensamehash.c takes from XFS: the routine that
  works on four characters at a time, the one-character recurrence it is equal to on ASCII names, and
  an evaluation of that recurrence on lists of bits that is fast enough for a table of names.
\<close>

section \<open>The routine\<close>

text \<open>A plain char is signed and is promoted before it is shifted.\<close>

definition c_char :: "char \<Rightarrow> uint32" where
  "c_char c = scast (of_char c :: 8 word)"

definition rol32 :: "uint32 \<Rightarrow> nat \<Rightarrow> uint32" where
  "rol32 x y = shl x y OR shr x (32 - y)"

fun hash_chars :: "uint32 \<Rightarrow> string \<Rightarrow> uint32" where
  "hash_chars hash (a # b # c # d # name) = hash_chars
     (shl (c_char a) 21 XOR shl (c_char b) 14 XOR shl (c_char c) 7 XOR shl (c_char d) 0 XOR rol32 hash (7 * 4)) name"
| "hash_chars hash [a, b, c] = shl (c_char a) 14 XOR shl (c_char b) 7 XOR shl (c_char c) 0 XOR rol32 hash (7 * 3)"
| "hash_chars hash [a, b] = shl (c_char a) 7 XOR shl (c_char b) 0 XOR rol32 hash (7 * 2)"
| "hash_chars hash [a] = shl (c_char a) 0 XOR rol32 hash (7 * 1)"
| "hash_chars hash [] = hash"

text \<open>\<^term>\<open>namelen\<close> characters of \<^term>\<open>name\<close>, which must be there.\<close>

definition xfs_da_hashname :: "string \<Rightarrow> nat \<Rightarrow> uint32 res" where
  "xfs_da_hashname name namelen =
     (if namelen \<le> length name then Inr (hash_chars 0 (take namelen name)) else Inl Out_of_bounds)"

section \<open>The recurrence\<close>

definition ascii :: "string \<Rightarrow> bool" where
  "ascii s = list_all (\<lambda>c. \<not> digit7 c) s"

definition hash_step :: "uint32 \<Rightarrow> char \<Rightarrow> uint32" where
  "hash_step hash c = c_char c XOR rol32 hash 7"

definition char_bits :: "char \<Rightarrow> bool list" where
  "char_bits c = [digit0 c, digit1 c, digit2 c, digit3 c, digit4 c, digit5 c, digit6 c]"

lemma char_bits_length [simp]: "length (char_bits c) = 7"
  by (simp add: char_bits_def)

lemma bit_of_char: "bit (of_char c :: 8 word) n = (n < 8 \<and> (char_bits c @ [digit7 c]) ! n)"
  unfolding of_char_def bit_horner_sum_bit_word_iff by (simp add: char_bits_def numeral_eq_Suc)

lemma bit_c_char: "\<not> digit7 c \<Longrightarrow> bit (c_char c) n = (n < 7 \<and> char_bits c ! n)"
proof -
  assume c: "\<not> digit7 c"
  have b: "bit (of_char c :: 8 word) n = (n < 7 \<and> char_bits c ! n)" for n
    using c by (auto simp: bit_of_char nth_append nth_Cons split: nat.splits)
  then show ?thesis
    unfolding c_char_def bit_signed_iff b by (auto simp: min_def)
qed

lemma bit_rol32:
  assumes "0 < n" "n < 32"
  shows "bit (rol32 x n) i = (i < 32 \<and> bit x (if n \<le> i then i - n else i + 32 - n))"
proof -
  have top: "bit x j \<Longrightarrow> j < 32" for j using bit_imp_le_length [of x j] by simp
  have "32 - n + i = i + 32 - n" using assms by simp
  then show ?thesis
    using assms top [of "i + 32 - n"] top [of "i - n"]
    by (auto simp: rol32_def bit_or_iff bit_push_bit_iff bit_drop_bit_eq)
qed

lemma rol32_rol32: "0 < m \<Longrightarrow> 0 < n \<Longrightarrow> m + n < 32 \<Longrightarrow> rol32 (rol32 x m) n = rol32 x (m + n)"
  by (rule bit_word_eqI) (auto simp: bit_rol32 add.commute)

lemma rol32_xor: "0 < n \<Longrightarrow> n < 32 \<Longrightarrow> rol32 (x XOR y) n = rol32 x n XOR rol32 y n"
  by (rule bit_word_eqI) (auto simp: bit_rol32 bit_xor_iff)

lemma rol32_shl:
  assumes "\<not> digit7 c" "0 < n" "k + n \<le> 25"
  shows "rol32 (shl (c_char c) k) n = shl (c_char c) (k + n)"
proof (rule bit_word_eqI)
  fix i :: nat
  show "bit (rol32 (shl (c_char c) k) n) i = bit (shl (c_char c) (k + n)) i"
    using assms by (auto simp: bit_rol32 bit_push_bit_iff bit_c_char add.commute)
qed

lemma hash_chars_fold: "ascii s \<Longrightarrow> hash_chars h s = foldl hash_step h s"
proof (induction h s rule: hash_chars.induct)
  case (1 h a b c d name)
  have "foldl hash_step h [a, b, c, d] = shl (c_char a) 21 XOR shl (c_char b) 14 XOR shl (c_char c) 7
      XOR shl (c_char d) 0 XOR rol32 h (7 * 4)"
    using 1(2) rol32_shl [of _ 7 0]
    by (simp add: hash_step_def rol32_xor rol32_rol32 rol32_shl ascii_def ac_simps)
  then show ?case using 1 by (simp add: ascii_def)
next
  case (2 h a b c)
  then show ?case
    using rol32_shl [of _ 7 0]
    by (simp add: hash_step_def rol32_xor rol32_rol32 rol32_shl ascii_def ac_simps)
next
  case (3 h a b)
  then show ?case
    using rol32_shl [of _ 7 0]
    by (simp add: hash_step_def rol32_xor rol32_rol32 rol32_shl ascii_def ac_simps)
qed (simp_all add: hash_step_def ac_simps)

text \<open>The hash is linear: what a prefix contributes is rotated by seven for each character after it.\<close>

lemma foldl_hash_step: "foldl hash_step (x XOR y) s = foldl hash_step x s XOR ((\<lambda>w. rol32 w 7) ^^ length s) y"
proof (induction s arbitrary: x y)
  case (Cons c s)
  have "foldl hash_step (x XOR y) (c # s) = foldl hash_step (hash_step x c XOR rol32 y 7) s"
    by (simp add: hash_step_def rol32_xor ac_simps)
  then show ?case using Cons.IH [of "hash_step x c" "rol32 y 7"] 
    by (simp add: funpow_swap1 [of "\<lambda>w. rol32 w 7"])
qed simp

section \<open>Evaluation on bits\<close>

definition word_bits :: "uint32 \<Rightarrow> bool list" where
  "word_bits w = map (bit w) [0..<32]"

definition rotl7 :: "bool list \<Rightarrow> bool list" where
  "rotl7 h = drop 25 h @ take 25 h"

fun xor_bits :: "bool list \<Rightarrow> bool list \<Rightarrow> bool list" where
  "xor_bits (x # xs) (y # ys) = (x \<noteq> y) # xor_bits xs ys"
| "xor_bits [] ys = ys"
| "xor_bits xs [] = xs"

fun hash_bits :: "bool list \<Rightarrow> string \<Rightarrow> bool list" where
  "hash_bits h [] = h"
| "hash_bits h (c # cs) = hash_bits (xor_bits (char_bits c) (rotl7 h)) cs"

lemma xor_bits_nth:
  "length xs \<le> length ys \<Longrightarrow> i < length ys \<Longrightarrow>
    xor_bits xs ys ! i = (if i < length xs then xs ! i \<noteq> ys ! i else ys ! i)"
  by (induction xs ys arbitrary: i rule: xor_bits.induct) (auto simp: nth_Cons split: nat.splits)

lemma xor_bits_length: "length xs \<le> length ys \<Longrightarrow> length (xor_bits xs ys) = length ys"
  by (induction xs ys rule: xor_bits.induct) auto

lemma word_bits_step:
  assumes "\<not> digit7 c"
  shows "word_bits (hash_step h c) = xor_bits (char_bits c) (rotl7 (word_bits h))"
proof (rule nth_equalityI)
  fix i
  assume "i < length (word_bits (hash_step h c))"
  then have i: "i < 32" by (simp add: word_bits_def)
  have "rotl7 (word_bits h) ! i = bit (rol32 h 7) i"
    using i by (auto simp: rotl7_def word_bits_def bit_rol32 nth_append ac_simps)
  moreover have "length (rotl7 (word_bits h)) = 32" by (simp add: rotl7_def word_bits_def)
  ultimately show "word_bits (hash_step h c) ! i = xor_bits (char_bits c) (rotl7 (word_bits h)) ! i"
    using i assms by (auto simp: xor_bits_nth word_bits_def hash_step_def bit_xor_iff bit_c_char)
qed (simp add: xor_bits_length rotl7_def word_bits_def)

lemma word_bits_fold: "ascii s \<Longrightarrow> word_bits (foldl hash_step h s) = hash_bits (word_bits h) s"
  by (induction s arbitrary: h) (simp_all add: ascii_def word_bits_step)

lemma word_bits_inject: "word_bits v = word_bits w \<Longrightarrow> v = w"
  by (rule bit_word_eqI) (auto simp: word_bits_def)

lemma hash_bits_eq:
  "ascii s \<Longrightarrow> ascii t \<Longrightarrow> hash_bits (word_bits 0) s = hash_bits (word_bits 0) t \<Longrightarrow>
    foldl hash_step 0 s = foldl hash_step 0 t"
  by (rule word_bits_inject) (simp add: word_bits_fold)

section \<open>Checks of a table of names\<close>

text \<open>
  Strings in the order of their characters, so that a table in strictly ascending order has no name
  twice.
\<close>

fun bits_less :: "bool list \<Rightarrow> bool list \<Rightarrow> bool" where
  "bits_less (x # xs) (y # ys) = (if x = y then bits_less xs ys else y)"
| "bits_less [] ys = False"
| "bits_less xs [] = False"

definition str_bits :: "string \<Rightarrow> bool list" where
  "str_bits s = concat (map (\<lambda>c. rev (char_bits c)) s)"

definition str_less :: "string \<Rightarrow> string \<Rightarrow> bool" where
  "str_less s t = bits_less (str_bits s) (str_bits t)"

definition name_check :: "bool list \<Rightarrow> string \<Rightarrow> bool" where
  "name_check h s \<longleftrightarrow> length s = 12 \<and> ascii s \<and> list_all digit4 s
     \<and> hash_bits (replicate 32 False) s = h"

lemma bits_less_irrefl: "\<not> bits_less xs xs"
  by (induction xs) auto

lemma bits_less_trans: "bits_less xs ys \<Longrightarrow> bits_less ys zs \<Longrightarrow> bits_less xs zs"
proof (induction xs ys arbitrary: zs rule: bits_less.induct)
  case (1 x xs y ys)
  then show ?case by (cases zs) (auto split: if_splits)
qed auto

lemma ascending_distinct: "successively str_less ss \<Longrightarrow> distinct ss"
proof -
  assume s: "successively str_less ss"
  have "transp str_less"
    by (auto intro!: transpI simp: str_less_def dest: bits_less_trans)
  with s have "sorted_wrt str_less ss"
    by (simp add: successively_conv_sorted_wrt)
  then show ?thesis by (induction ss) (auto simp: str_less_def bits_less_irrefl)
qed

end
