(* ===== verification/Samehash.thy ===== *)
theory Samehash
  imports XfsNames Libc
begin

text \<open>
  src/tools/mksamehash.c, which makes a given number of directories whose names all have one hash, for
  testing the collision handling of the XFS driver: the program, the names it makes, and that it does
  what it is for.
\<close>

section \<open>mksamehash: making the directories\<close>

abbreviation (input) XFS_NAMES_CNT :: uint64 where "XFS_NAMES_CNT \<equiv> 1000"
abbreviation (input) XFS_NAME_SEGMENT_LEN :: nat where "XFS_NAME_SEGMENT_LEN \<equiv> 12"

text \<open>The buffer, the directories left to make, and the entries of the directory.\<close>

record mksamehash =
  dirname :: string
  remaining :: uint64
  entries :: "string list"

definition c_str :: "string \<Rightarrow> string" where
  "c_str buf = takeWhile (\<lambda>c. c \<noteq> CHR 0x00) buf"

definition put_segment :: "string \<Rightarrow> nat \<Rightarrow> string \<Rightarrow> string res" where
  "put_segment buf cidx seg =
     (let off = 2 + (1 + XFS_NAME_SEGMENT_LEN) * cidx
      in if off + length seg \<le> length buf then Inr (take off buf @ seg @ drop (off + length seg) buf)
         else Inl Out_of_bounds)"

definition mkdirat :: "string list \<Rightarrow> string \<Rightarrow> string list option" where
  "mkdirat es name = (if name \<in> set es then None else Some (es @ [name]))"

function xfs_segments :: "nat \<Rightarrow> nat \<Rightarrow> string list \<Rightarrow> mksamehash \<Rightarrow> mksamehash res" where
  "xfs_segments cidx ccnt [] s = Inr s"
| "xfs_segments cidx ccnt (seg # segs) s =
     rbind (put_segment (dirname s) cidx seg) (\<lambda>d.
     let s = s\<lparr>dirname := d\<rparr> in
     if cidx + 1 < ccnt then
       rbind (xfs_segments (cidx + 1) ccnt xfs_samehash s) (\<lambda>s. xfs_segments cidx ccnt segs s)
     else if remaining s = 0 then Inr s
     else case mkdirat (entries s) (c_str d) of None \<Rightarrow> Inl (Exit 1)
       | Some es \<Rightarrow> xfs_segments cidx ccnt segs (s\<lparr>entries := es, remaining := remaining s - 1\<rparr>))"
  by pat_completeness auto
termination by (relation "measures [\<lambda>(cidx, ccnt, segs, s). ccnt - cidx, \<lambda>(cidx, ccnt, segs, s). length segs]") auto

declare xfs_segments.simps [simp del]

definition xfs_iterate_name_segment :: "nat \<Rightarrow> nat \<Rightarrow> mksamehash \<Rightarrow> mksamehash res" where
  "xfs_iterate_name_segment cidx ccnt s = xfs_segments cidx ccnt xfs_samehash s"

text \<open>
  The number of segments. The power of a thousand is taken modulo \<open>2 ^ 64\<close> and is zero from the 22nd
  on, so a loop that has not ended by then never ends.
\<close>

fun segment_count :: "nat \<Rightarrow> uint64 \<Rightarrow> nat \<Rightarrow> uint64 \<Rightarrow> nat res" where
  "segment_count 0 last_name ccnt left = Inl Hang"
| "segment_count (Suc fuel) last_name ccnt left =
     (if last_name < left then segment_count fuel (last_name * XFS_NAMES_CNT) (ccnt + 1) left else Inr ccnt)"

definition dirname0 :: string where
  "dirname0 = ''d_____________________________________________'' @ replicate 82 CHR 0x00"

text \<open>
  The whole program on a host whose directories are \<^term>\<open>dir\<close>; the result is the entries of the
  directory it was given.
\<close>

definition mksamehash_main :: "(string \<Rightarrow> string list option) \<Rightarrow> string list \<Rightarrow> string list res" where
  "mksamehash_main dir argv =
     (if length argv < 3 then Inl (Exit 1)
      else case strto 10 (argv ! 2) of None \<Rightarrow> Inl Uninitialised
      | Some _ \<Rightarrow>
        (let left = strtoumax (argv ! 2) 10
         in case dir (argv ! 1) of None \<Rightarrow> Inl (Exit 1)
            | Some es \<Rightarrow>
              rbind (segment_count 24 XFS_NAMES_CNT 1 left) (\<lambda>ccnt.
              let e = 1 + (1 + XFS_NAME_SEGMENT_LEN) * ccnt in
              if length dirname0 \<le> e then Inl Out_of_bounds
              else rbind (xfs_iterate_name_segment 0 ccnt
                     \<lparr>dirname = dirname0[e := CHR 0x00], remaining = left, entries = es\<rparr>) (\<lambda>s.
              Inr (entries s)))))"

section \<open>The names it makes\<close>

definition segs_str :: "string list \<Rightarrow> string" where
  "segs_str segs = concat (map (\<lambda>s. CHR ''_'' # s) segs)"

definition full :: "string list \<Rightarrow> string" where
  "full segs = CHR ''d'' # segs_str segs"

definition layout :: "string list \<Rightarrow> string \<Rightarrow> string" where
  "layout segs rest = full segs @ CHR 0x00 # rest"

definition twelve :: "string list \<Rightarrow> bool" where
  "twelve segs \<longleftrightarrow> (\<forall>s\<in>set segs. length s = 12)"

definition tuples :: "nat \<Rightarrow> string list list" where
  "tuples n = product_lists (replicate n xfs_samehash)"

lemma segs_str_length: "twelve segs \<Longrightarrow> length (segs_str segs) = 13 * length segs"
  by (induction segs) (auto simp: segs_str_def twelve_def)

lemma put_segment_at:
  "length p = 2 + 13 * cidx \<Longrightarrow> length y = length x \<Longrightarrow> put_segment (p @ y @ t) cidx x = Inr (p @ x @ t)"
  by (simp add: put_segment_def Let_def)

lemma put_segment_layout:
  assumes "twelve segs" "cidx < length segs" "length x = 12"
  shows "put_segment (layout segs rest) cidx x = Inr (layout (segs[cidx := x]) rest)"
proof -
  define a b where "a = take cidx segs" and "b = drop (Suc cidx) segs"
  have segs: "segs = a @ segs ! cidx # b" using assms by (simp add: a_def b_def id_take_nth_drop)
  have a: "length (segs_str a) = 13 * cidx" "length (segs ! cidx) = 12"
    using assms segs_str_length [of a] set_take_subset [of cidx segs] by (auto simp: twelve_def a_def)
  have "layout segs rest = (CHR ''d'' # segs_str a @ [CHR ''_'']) @ segs ! cidx @ segs_str b @ CHR 0x00 # rest"
    by (subst segs) (simp add: layout_def full_def segs_str_def)
  moreover have "layout (segs[cidx := x]) rest =
      (CHR ''d'' # segs_str a @ [CHR ''_'']) @ x @ segs_str b @ CHR 0x00 # rest"
    using assms by (simp add: upd_conv_take_nth_drop a_def b_def layout_def full_def segs_str_def)
  moreover have "length (CHR ''d'' # segs_str a @ [CHR ''_'']) = 2 + 13 * cidx" using a by simp
  ultimately show ?thesis
    using a assms(3) by (simp only: put_segment_at)
qed

lemma layout_c_str:
  assumes "\<forall>s\<in>set segs. CHR 0x00 \<notin> set s"
  shows "c_str (layout segs rest) = full segs"
proof -
  have "\<forall>c\<in>set (full segs). c \<noteq> CHR 0x00" using assms by (auto simp: full_def segs_str_def)
  then show ?thesis by (simp add: c_str_def layout_def)
qed

text \<open>
  The names made by one level of the loops, with the segments \<^term>\<open>pre\<close> before it fixed, in order.
\<close>

definition level :: "nat \<Rightarrow> string list \<Rightarrow> string list \<Rightarrow> string list list" where
  "level n pre segs = concat (map (\<lambda>x. map (\<lambda>u. pre @ x # u) (tuples n)) segs)"

lemma level_Cons: "level n pre (x # segs) = map (\<lambda>u. pre @ x # u) (tuples n) @ level n pre segs"
  by (simp add: level_def)

lemma level_Suc: "level n (pre @ [x]) xfs_samehash = map (\<lambda>u. pre @ x # u) (tuples (Suc n))"
  by (simp add: level_def tuples_def map_concat comp_def)

definition made :: "nat \<Rightarrow> nat \<Rightarrow> string list \<Rightarrow> string \<Rightarrow> mksamehash \<Rightarrow> string list list \<Rightarrow> mksamehash \<Rightarrow> bool" where
  "made cidx ccnt pre rest s ls s' \<longleftrightarrow> (\<exists>segs. dirname s' = layout segs rest \<and> length segs = ccnt \<and> twelve segs
       \<and> take cidx segs = pre)
     \<and> unat (remaining s') = unat (remaining s) - length ls
     \<and> entries s' = entries s @ map full (take (unat (remaining s)) ls)"

lemma made_append:
  assumes "made (Suc cidx) ccnt (pre @ [x]) rest s ls s'" "made cidx ccnt pre rest s' ms s''"
  shows "made cidx ccnt pre rest s (ls @ ms) s''"
  using assms by (auto simp: made_def)

definition start :: "nat \<Rightarrow> nat \<Rightarrow> string list \<Rightarrow> string \<Rightarrow> string list \<Rightarrow> mksamehash \<Rightarrow> bool" where
  "start cidx ccnt pre rest segs s \<longleftrightarrow>
     (\<exists>segs0. dirname s = layout segs0 rest \<and> length segs0 = ccnt \<and> twelve segs0 \<and> take cidx segs0 = pre)
     \<and> length pre = cidx \<and> cidx < ccnt \<and> set pre \<subseteq> set xfs_samehash \<and> set segs \<subseteq> set xfs_samehash
     \<and> distinct (entries s @ map full (level (ccnt - Suc cidx) pre segs))"

lemma start_put:
  assumes "start cidx ccnt pre rest (seg # segs) s"
  obtains d where "put_segment (dirname s) cidx seg = Inr d"
    "\<exists>segs1. d = layout segs1 rest \<and> length segs1 = ccnt \<and> twelve segs1 \<and> take (Suc cidx) segs1 = pre @ [seg]"
proof -
  obtain segs0 where 0: "dirname s = layout segs0 rest" "length segs0 = ccnt" "twelve segs0" "take cidx segs0 = pre"
    "cidx < ccnt" and seg: "seg \<in> set xfs_samehash"
    using assms by (auto simp: start_def)
  note len = xfs_samehash_hash(1) [OF seg]
  have "twelve (segs0[cidx := seg])"
    using 0(3) len set_update_subset_insert [of segs0 cidx seg] by (auto simp: twelve_def)
  moreover have "take (Suc cidx) (segs0[cidx := seg]) = pre @ [seg]"
    using 0 by (simp add: take_Suc_conv_app_nth)
  ultimately show ?thesis
    using 0 len by (intro that [of "layout (segs0[cidx := seg]) rest"]) (auto simp: put_segment_layout)
qed

lemma take_prefix: "take (Suc n) xs = pre @ [x] \<Longrightarrow> length pre = n \<Longrightarrow> take n xs = pre"
  by (metis append_eq_conv_conj le_SucI order_refl take_take min.absorb1)

lemma xfs_segments_leaf:
  assumes "start cidx (Suc cidx) pre rest segs s"
  shows "\<exists>s'. xfs_segments cidx (Suc cidx) segs s = Inr s' \<and> made cidx (Suc cidx) pre rest s (level 0 pre segs) s'"
  using assms
proof (induction segs arbitrary: s)
  case Nil
  then show ?case by (auto simp: xfs_segments.simps made_def level_def start_def)
next
  case (Cons seg segs)
  obtain d segs1 where put: "put_segment (dirname s) cidx seg = Inr d" and d: "d = layout segs1 rest"
    "length segs1 = Suc cidx" "twelve segs1" "take (Suc cidx) segs1 = pre @ [seg]"
    using start_put [OF Cons.prems] by metis
  have pre: "length pre = cidx" "set (pre @ [seg]) \<subseteq> set xfs_samehash"
    using Cons.prems by (auto simp: start_def)
  have segs1: "segs1 = pre @ [seg]" using d by simp
  have name: "c_str d = full (pre @ [seg])"
    unfolding d(1) segs1 using pre xfs_samehash_hash(3) by (intro layout_c_str) blast
  have l: "level 0 pre (seg # segs) = (pre @ [seg]) # level 0 pre segs"
    by (simp add: level_def tuples_def)
  show ?case
  proof (cases "remaining s = 0")
    case True
    then show ?thesis
      using d segs1 pre by (auto simp: xfs_segments.simps put made_def)
  next
    case False
    define s2 where "s2 = s\<lparr>dirname := d, entries := entries s @ [full (pre @ [seg])], remaining := remaining s - 1\<rparr>"
    have mk: "mkdirat (entries s) (c_str d) = Some (entries s @ [full (pre @ [seg])])"
      using Cons.prems by (auto simp: mkdirat_def name start_def l)
    have "start cidx (Suc cidx) pre rest segs s2"
      using Cons.prems d segs1 pre by (auto simp: start_def s2_def l)
    then obtain s' where s': "xfs_segments cidx (Suc cidx) segs s2 = Inr s'"
      "made cidx (Suc cidx) pre rest s2 (level 0 pre segs) s'"
      using Cons.IH by blast
    obtain k where k: "unat (remaining s) = Suc k" using False by (cases "unat (remaining s)") (auto simp: unat_eq_0)
    then have "unat (remaining s - 1) = k"
      using False by (simp add: unat_minus_one)
    then have "made cidx (Suc cidx) pre rest s (level 0 pre (seg # segs)) s'"
      using s'(2) by (simp add: made_def l k s2_def)
    then show ?thesis
      using False s'(1) by (simp add: xfs_segments.simps put mk s2_def)
  qed
qed

lemma distinct_take_mid: "distinct (a @ b @ c) \<Longrightarrow> distinct (a @ take n b @ c)"
  by (auto dest: in_set_takeD)

lemma xfs_segments_node:
  assumes inner: "\<And>pre s. start (Suc cidx) ccnt pre rest xfs_samehash s \<Longrightarrow>
      \<exists>s'. xfs_segments (Suc cidx) ccnt xfs_samehash s = Inr s'
        \<and> made (Suc cidx) ccnt pre rest s (level (ccnt - Suc (Suc cidx)) pre xfs_samehash) s'"
    and "Suc cidx < ccnt" "start cidx ccnt pre rest segs s"
  shows "\<exists>s'. xfs_segments cidx ccnt segs s = Inr s' \<and> made cidx ccnt pre rest s (level (ccnt - Suc cidx) pre segs) s'"
  using assms(3)
proof (induction segs arbitrary: s)
  case Nil
  then show ?case by (auto simp: xfs_segments.simps made_def level_def start_def)
next
  case (Cons seg segs)
  obtain d segs1 where put: "put_segment (dirname s) cidx seg = Inr d" and d: "d = layout segs1 rest"
    "length segs1 = ccnt" "twelve segs1" "take (Suc cidx) segs1 = pre @ [seg]"
    using start_put [OF Cons.prems] by metis
  have n: "ccnt - Suc cidx = Suc (ccnt - Suc (Suc cidx))" using assms(2) by simp
  define ls where "ls = level (ccnt - Suc (Suc cidx)) (pre @ [seg]) xfs_samehash"
  have l: "level (ccnt - Suc cidx) pre (seg # segs) = ls @ level (ccnt - Suc cidx) pre segs"
    by (simp add: level_Cons n level_Suc ls_def)
  define s1 where "s1 = s\<lparr>dirname := d\<rparr>"
  have st1: "start (Suc cidx) ccnt (pre @ [seg]) rest xfs_samehash s1"
    using Cons.prems assms(2) d l by (auto simp: start_def s1_def ls_def)
  then obtain s2 where s2: "xfs_segments (Suc cidx) ccnt xfs_samehash s1 = Inr s2"
    "made (Suc cidx) ccnt (pre @ [seg]) rest s1 ls s2"
    using inner unfolding ls_def by blast
  have "distinct (entries s2 @ map full (level (ccnt - Suc cidx) pre segs))"
    using Cons.prems s2(2) distinct_take_mid [of "entries s" "map full ls" "map full (level (ccnt - Suc cidx) pre segs)"]
    by (simp add: start_def made_def s1_def l take_map)
  then have "start cidx ccnt pre rest segs s2"
    using Cons.prems s2(2) take_prefix [of cidx _ pre seg]
    by (auto simp: start_def made_def)
  then obtain s' where s': "xfs_segments cidx ccnt segs s2 = Inr s'"
    "made cidx ccnt pre rest s2 (level (ccnt - Suc cidx) pre segs) s'"
    using Cons.IH by blast
  have "made cidx ccnt pre rest s1 (level (ccnt - Suc cidx) pre (seg # segs)) s'"
    unfolding l by (rule made_append [OF s2(2) s'(2)])
  then have "made cidx ccnt pre rest s (level (ccnt - Suc cidx) pre (seg # segs)) s'"
    by (simp add: made_def s1_def)
  then show ?case
    using assms(2) s2(1) s'(1) by (simp add: xfs_segments.simps put s1_def)
qed

lemma xfs_segments_made:
  "start cidx ccnt pre rest segs s \<Longrightarrow>
    \<exists>s'. xfs_segments cidx ccnt segs s = Inr s' \<and> made cidx ccnt pre rest s (level (ccnt - Suc cidx) pre segs) s'"
proof (induction "ccnt - cidx" arbitrary: cidx pre segs s)
  case 0
  then show ?case by (simp add: start_def)
next
  case (Suc k)
  show ?case
  proof (cases "Suc cidx < ccnt")
    case True
    show ?thesis
    proof (rule xfs_segments_node [OF _ True Suc.prems])
      fix pre' s'
      assume "start (Suc cidx) ccnt pre' rest xfs_samehash s'"
      moreover have "k = ccnt - Suc cidx" using Suc.hyps(2) by simp
      ultimately show "\<exists>t. xfs_segments (Suc cidx) ccnt xfs_samehash s' = Inr t
          \<and> made (Suc cidx) ccnt pre' rest s' (level (ccnt - Suc (Suc cidx)) pre' xfs_samehash) t"
        by (intro Suc.hyps(1))
    qed
  next
    case False
    then have c: "ccnt = Suc cidx" using Suc.prems by (simp add: start_def)
    show ?thesis using xfs_segments_leaf [of cidx pre rest segs s] Suc.prems by (simp add: c)
  qed
qed

section \<open>All names have one hash and no name comes twice\<close>

lemma segs_str_inject:
  "twelve a \<Longrightarrow> twelve b \<Longrightarrow> length a = length b \<Longrightarrow> segs_str a = segs_str b \<Longrightarrow> a = b"
proof (induction a arbitrary: b)
  case (Cons x a)
  then obtain y b' where b: "b = y # b'" by (cases b) auto
  have "x @ segs_str a = y @ segs_str b'" using Cons.prems(4) by (simp add: b segs_str_def)
  moreover have "length x = length y" using Cons.prems(1,2) by (simp add: b twelve_def)
  ultimately have "x = y" "segs_str a = segs_str b'" by simp_all
  with Cons.IH [of b'] Cons.prems(1-3) show ?case by (simp add: b twelve_def)
qed simp

lemma tuples_props:
  assumes "t \<in> set (tuples n)"
  shows "length t = n" "set t \<subseteq> set xfs_samehash" "twelve t"
proof -
  have t: "length t = n \<and> set t \<subseteq> set xfs_samehash"
    using assms unfolding tuples_def
  proof (induction n arbitrary: t)
    case (Suc n)
    then obtain x u where "t = x # u" "x \<in> set xfs_samehash" "u \<in> set (product_lists (replicate n xfs_samehash))"
      by auto
    with Suc.IH [of u] show ?case by simp
  qed simp
  then show "length t = n" "set t \<subseteq> set xfs_samehash" "twelve t"
    using xfs_samehash_hash(1) by (auto simp: twelve_def)
qed

lemma tuples_distinct: "distinct (map full (tuples n))"
proof -
  have "distinct (tuples n)"
    unfolding tuples_def using xfs_samehash_distinct by (intro distinct_product_lists) simp
  moreover have "inj_on full (set (tuples n))"
    using tuples_props by (auto intro!: inj_onI segs_str_inject simp: full_def)
  ultimately show ?thesis by (simp add: distinct_map)
qed

lemma tuples_length: "length (tuples n) = 1000 ^ n"
  by (induction n) (simp_all add: tuples_def length_concat comp_def sum_list_triv xfs_samehash_length)

lemma foldl_segment:
  assumes "foldl hash_step 0 s = foldl hash_step 0 t" "length s = length t"
  shows "foldl hash_step h s = foldl hash_step h t"
  using foldl_hash_step [of 0 h s] foldl_hash_step [of 0 h t] assms by simp

lemma full_hash:
  assumes "set a \<subseteq> set xfs_samehash" "set b \<subseteq> set xfs_samehash" "length a = length b"
  shows "foldl hash_step h (segs_str a) = foldl hash_step h (segs_str b)"
  using assms
proof (induction a arbitrary: b h)
  case (Cons x a)
  then obtain y b' where b: "b = y # b'" by (cases b) auto
  have xy: "x \<in> set xfs_samehash" "y \<in> set xfs_samehash" using Cons b by auto
  have "foldl hash_step (hash_step h CHR ''_'') x = foldl hash_step (hash_step h CHR ''_'') y"
    by (rule foldl_segment [OF trans [OF xfs_samehash_hash(4) [OF xy(1)] sym [OF xfs_samehash_hash(4) [OF xy(2)]]]])
       (simp only: xfs_samehash_hash(1) [OF xy(1)] xfs_samehash_hash(1) [OF xy(2)])
  then show ?case using Cons.IH [of b'] Cons.prems by (simp add: b segs_str_def)
qed simp

lemma full_ascii:
  assumes "set t \<subseteq> set xfs_samehash"
  shows "ascii (full t)"
proof -
  have "ascii s" if "s \<in> set t" for s using that assms xfs_samehash_hash(2) by blast
  then show ?thesis by (auto simp: full_def segs_str_def ascii_def list_all_iff)
qed

lemma segment_count_ok:
  assumes "unat left \<le> 1000 ^ 4"
  obtains c where "segment_count 24 1000 1 left = Inr c" "c \<in> {1, 2, 3, 4}" "unat left \<le> 1000 ^ c"
proof -
  have step: "segment_count (numeral k) a b l =
      (if a < l then segment_count (pred_numeral k) (a * 1000) (b + 1) l else Inr b)" for k a b l
    by (simp add: numeral_eq_Suc)
  consider "unat left \<le> 1000" | "1000 < unat left" "unat left \<le> 1000000"
    | "1000000 < unat left" "unat left \<le> 1000000000" | "1000000000 < unat left" "unat left \<le> 1000000000000"
    using assms by fastforce
  then show ?thesis
  proof cases
    case 1
    then show ?thesis by (intro that [of 1]) (simp_all add: step word_less_nat_alt)
  next
    case 2
    then show ?thesis by (intro that [of 2]) (simp_all add: step word_less_nat_alt)
  next
    case 3
    then show ?thesis by (intro that [of 3]) (simp_all add: step word_less_nat_alt)
  next
    case 4
    then show ?thesis by (intro that [of 4]) (simp_all add: step word_less_nat_alt)
  qed
qed

lemma split_segments:
  "13 * c \<le> length b \<Longrightarrow> \<forall>i<c. b ! (13 * i) = CHR ''_'' \<Longrightarrow>
    \<exists>segs. take (13 * c) b = segs_str segs \<and> length segs = c \<and> twelve segs"
proof (induction c arbitrary: b)
  case (Suc c)
  obtain x b' where b: "b = x # b'" using Suc.prems(1) by (cases b) auto
  have x: "x = CHR ''_''" using Suc.prems(2) b by auto
  have "\<forall>i<c. drop 12 b' ! (13 * i) = CHR ''_''"
  proof (intro allI impI)
    fix i
    assume "i < c"
    then have "b ! (13 * Suc i) = CHR ''_''" "12 \<le> length b'" using Suc.prems b by auto
    then show "drop 12 b' ! (13 * i) = CHR ''_''" by (simp add: b)
  qed
  then obtain segs where "take (13 * c) (drop 12 b') = segs_str segs" "length segs = c" "twelve segs"
    using Suc.IH [of "drop 12 b'"] Suc.prems(1) b by fastforce
  moreover have "13 * Suc c = Suc (12 + 13 * c)" by simp
  then have "take (13 * Suc c) b = CHR ''_'' # take 12 b' @ take (13 * c) (drop 12 b')"
    by (simp only: b x take_Suc_Cons take_add)
  ultimately show ?case
    using Suc.prems(1) b by (intro exI [of _ "take 12 b' # segs"]) (auto simp: segs_str_def twelve_def)
qed (simp add: segs_str_def twelve_def)

lemma dirname0_nth:
  "dirname0 ! 0 = CHR ''d''" "i < 4 \<Longrightarrow> dirname0 ! (1 + 13 * i) = CHR ''_''" "length dirname0 = 128"
proof -
  show "dirname0 ! 0 = CHR ''d''" "length dirname0 = 128" by (simp_all add: dirname0_def)
  assume "i < 4"
  then consider "i = 0" | "i = 1" | "i = 2" | "i = 3" by linarith
  then show "dirname0 ! (1 + 13 * i) = CHR ''_''" by cases (simp_all add: dirname0_def nth_append)
qed

lemma dirname0_layout:
  assumes "c \<in> {1, 2, 3, 4}"
  shows "\<exists>segs rest. dirname0[1 + 13 * c := CHR 0x00] = layout segs rest \<and> length segs = c \<and> twelve segs"
proof -
  define buf where "buf = dirname0[1 + 13 * c := CHR 0x00]"
  have c: "1 + 13 * c < length dirname0" using assms by (auto simp: dirname0_nth)
  have "\<forall>i<c. tl buf ! (13 * i) = CHR ''_''"
    using assms c dirname0_nth(2) dirname0_nth(2) [of 0] by (auto simp: buf_def nth_tl nth_list_update)
  then obtain segs where segs: "take (13 * c) (tl buf) = segs_str segs" "length segs = c" "twelve segs"
    using split_segments [of c "tl buf"] c by (fastforce simp: buf_def)
  have "buf = hd buf # tl buf" using c by (cases buf) (auto simp: buf_def)
  also have "tl buf = take (13 * c) (tl buf) @ drop (13 * c) (tl buf)" by simp
  also have "drop (13 * c) (tl buf) = CHR 0x00 # drop (Suc (13 * c)) (tl buf)"
    using c by (subst Cons_nth_drop_Suc [symmetric]) (simp_all add: buf_def nth_tl)
  also have "hd buf = CHR ''d''"
    using dirname0_nth(1,3) by (subst hd_conv_nth) (auto simp: buf_def)
  finally have "buf = layout segs (drop (Suc (13 * c)) (tl buf))"
    by (simp only: segs layout_def full_def append.simps)
  with segs show ?thesis unfolding buf_def by blast
qed

text \<open>
  (C9) mksamehash, asked for \<open>k\<close> directories in an empty directory, for every \<open>k\<close> up to \<open>1000 ^ 4\<close>: it
  ends without an error, makes exactly \<open>k\<close> directories of different names, and the names all have the
  same XFS hash.
\<close>

theorem mksamehash_same_hash:
  assumes "strto 10 count = Some (False, k, r)" "k \<le> 1000 ^ 4" "dir path = Some []"
  shows "\<exists>names. mksamehash_main dir [prog, path, count] = Inr names \<and> length names = k \<and> distinct names
    \<and> (\<forall>a\<in>set names. \<forall>b\<in>set names. xfs_da_hashname a (length a) = xfs_da_hashname b (length b))"
proof -
  define l :: uint64 where "l = of_nat k"
  have l: "unat l = k" using assms(2) by (simp add: l_def unsigned_of_nat take_bit_nat_eq_self)
  have arg: "strtoumax count 10 = l" using assms(1,2) by (simp add: strtoumax_def strtou_def l_def)
  obtain c where c: "segment_count 24 1000 1 l = Inr c" "c \<in> {1, 2, 3, 4}" "k \<le> 1000 ^ c"
    using segment_count_ok [of l] assms(2) l by auto
  obtain segs rest where buf: "dirname0[1 + 13 * c := CHR 0x00] = layout segs rest" "length segs = c" "twelve segs"
    using dirname0_layout [OF c(2)] by blast
  define s where "s = \<lparr>dirname = dirname0[1 + 13 * c := CHR 0x00], remaining = l, entries = []\<rparr>"
  have lev: "level (c - Suc 0) [] xfs_samehash = tuples c"
    using c(2) level_Suc [of "c - Suc 0" "[]"] by (auto simp: level_def tuples_def numeral_eq_Suc)
  have "start 0 c [] rest xfs_samehash s"
    using c(2) buf tuples_distinct [of c] by (auto simp: start_def s_def lev)
  then obtain s' where s': "xfs_segments 0 c xfs_samehash s = Inr s'" "made 0 c [] rest s (tuples c) s'"
    using xfs_segments_made [of 0 c "[]" rest xfs_samehash s] lev by auto
  define names where "names = map full (take k (tuples c))"
  have "mksamehash_main dir [prog, path, count] = Inr names"
    using assms c s' arg l
    by (auto simp: mksamehash_main_def Let_def dirname0_nth s_def made_def names_def xfs_iterate_name_segment_def)
  moreover have "length names = k" using c(3) by (simp add: names_def tuples_length)
  moreover have "distinct names"
    using tuples_distinct [of c] by (simp add: names_def flip: take_map)
  moreover have "xfs_da_hashname a (length a) = xfs_da_hashname b (length b)"
    if ab: "a \<in> set names" "b \<in> set names" for a b
  proof -
    obtain t u where t: "a = full t" "b = full u" "t \<in> set (tuples c)" "u \<in> set (tuples c)"
      using ab in_set_takeD [of _ k "tuples c"] by (auto simp: names_def)
    note t' = tuples_props [OF t(3)] tuples_props [OF t(4)]
    have "foldl hash_step 0 (full t) = foldl hash_step 0 (full u)"
      unfolding full_def foldl.simps using t' by (intro full_hash) simp_all
    then show ?thesis using t' full_ascii by (simp add: t xfs_da_hashname_def hash_chars_fold)
  qed
  ultimately show ?thesis by blast
qed

theorem mksamehash_same_hash_witness:
  "\<exists>names. mksamehash_main (\<lambda>p. if p = ''d'' then Some [] else None) [''mksamehash'', ''d'', ''1001''] = Inr names
    \<and> length names = 1001 \<and> distinct names
    \<and> (\<forall>a\<in>set names. \<forall>b\<in>set names. xfs_da_hashname a (length a) = xfs_da_hashname b (length b))"
proof -
  have "strto 10 ''1001'' = Some (False, 1001, [])" by code_simp
  then show ?thesis by (intro mksamehash_same_hash) simp_all
qed

end
