(* ===== verification/Gensamehash.thy ===== *)
theory Gensamehash
  imports XfsHash Libc
begin

text \<open>
  src/tools/gensamehash.c: the search for names of ten characters with a given hash. The names are
  taken for numbers to the base 62, so the loop comes to every name once before it starts again.
\<close>

section \<open>The program\<close>

abbreviation (input) NUM_LEN :: nat where "NUM_LEN \<equiv> 10"

text \<open>The loop of \<^verbatim>\<open>increment\<close> from the last of the first \<^term>\<open>d\<close> characters down.\<close>

fun increment_at :: "nat \<Rightarrow> string \<Rightarrow> string" where
  "increment_at 0 num = num"
| "increment_at (Suc d) num =
     (if num ! d = CHR ''9'' then num[d := CHR ''A'']
      else if num ! d = CHR ''Z'' then num[d := CHR ''a'']
      else if num ! d = CHR ''z'' then increment_at d (num[d := CHR ''0''])
      else num[d := char_of (of_char (num ! d) + 1 :: nat)])"

definition increment :: "string \<Rightarrow> string" where
  "increment num = increment_at NUM_LEN num"

text \<open>The globals and the counter, the name of the file and what has been written to it.\<close>

record gensamehash =
  g_name :: string
  hash_filename :: string
  hash_cnt :: uint32
  g_out :: string

definition hash_line :: "uint32 \<Rightarrow> string \<Rightarrow> string" where
  "hash_line cnt name = prec 7 (fmt_u cnt) @ '' '' @ name @ [CHR 0x0A]"

definition gensamehash_init :: "uint32 \<Rightarrow> string list \<Rightarrow> (uint32 \<times> gensamehash) res" where
  "gensamehash_init pid argv =
     (if length argv \<noteq> 4 then Inl (Exit 1)
      else
        (let hash = strtoul (argv ! 1) 16;
             cnt = (case strto 0 (argv ! 2) of None \<Rightarrow> 0 | Some _ \<Rightarrow> strtol (argv ! 2) 0)
         in case strto 10 (argv ! 3) of None \<Rightarrow> Inl Uninitialised
            | Some _ \<Rightarrow> Inr (hash, \<lparr>g_name = prec NUM_LEN (fmt_u (strtoumax (argv ! 3) 10)),
                hash_filename = ''hash_0x'' @ prec 8 (fmt_x hash) @ ''.'' @ fmt_u pid,
                hash_cnt = cnt, g_out = []\<rparr>)))"

text \<open>One turn of the endless loop, and a number of turns.\<close>

definition gensamehash_step :: "uint32 \<Rightarrow> gensamehash \<Rightarrow> gensamehash res" where
  "gensamehash_step hash g =
     rbind (xfs_da_hashname (g_name g) NUM_LEN) (\<lambda>h.
     let g = (if h = hash
              then g\<lparr>g_out := g_out g @ hash_line (hash_cnt g) (g_name g), hash_cnt := hash_cnt g + 1\<rparr> else g)
     in Inr (g\<lparr>g_name := increment (g_name g)\<rparr>))"

fun gensamehash_run :: "nat \<Rightarrow> uint32 \<Rightarrow> gensamehash \<Rightarrow> gensamehash res" where
  "gensamehash_run 0 hash g = Inr g"
| "gensamehash_run (Suc n) hash g = rbind (gensamehash_step hash g) (gensamehash_run n hash)"

section \<open>Names as numbers\<close>

definition alphabet :: string where
  "alphabet = ''0123456789ABCDEFGHIJKLMNOPQRSTUVWXYZabcdefghijklmnopqrstuvwxyz''"

definition dval :: "char \<Rightarrow> nat" where
  "dval c = length (takeWhile (\<lambda>x. x \<noteq> c) alphabet)"

definition b62 :: "string \<Rightarrow> nat" where
  "b62 s = foldl (\<lambda>v c. 62 * v + dval c) 0 s"

definition space :: nat where
  "space = 62 ^ NUM_LEN"

definition next_char :: "char \<Rightarrow> char" where
  "next_char c = (if c = CHR ''9'' then CHR ''A'' else if c = CHR ''Z'' then CHR ''a''
     else if c = CHR ''z'' then CHR ''0'' else char_of (of_char c + 1 :: nat))"

lemma alphabet_length: "length alphabet = 62" and alphabet_distinct: "distinct alphabet"
  by (simp_all add: alphabet_def)

lemma alphabet_nonempty: "alphabet \<noteq> []"
  by (simp add: alphabet_def)

lemma takeWhile_to: "y \<notin> set xs \<Longrightarrow> takeWhile (\<lambda>x. x \<noteq> y) (xs @ y # ys) = xs"
  by (induction xs) auto

lemma dval_nth: "i < 62 \<Longrightarrow> dval (alphabet ! i) = i"
proof -
  assume i: "i < 62"
  have "alphabet ! i \<notin> set (take i alphabet)"
    using i alphabet_distinct by (auto simp: in_set_conv_nth distinct_conv_nth alphabet_length)
  then have "takeWhile (\<lambda>x. x \<noteq> alphabet ! i) (take i alphabet @ alphabet ! i # drop (Suc i) alphabet) = take i alphabet"
    by (rule takeWhile_to)
  moreover have "take i alphabet @ alphabet ! i # drop (Suc i) alphabet = alphabet"
    using i by (simp add: alphabet_length flip: id_take_nth_drop)
  ultimately show ?thesis using i by (simp add: dval_def alphabet_length)
qed

lemma dval_less: "c \<in> set alphabet \<Longrightarrow> dval c < 62"
  using dval_nth by (auto simp: in_set_conv_nth alphabet_length)

lemma dval_inject: "c \<in> set alphabet \<Longrightarrow> d \<in> set alphabet \<Longrightarrow> dval c = dval d \<Longrightarrow> c = d"
  using dval_nth by (auto simp: in_set_conv_nth alphabet_length)

lemma next_char_nth: "i < 62 \<Longrightarrow> next_char (alphabet ! i) = alphabet ! (Suc i mod 62)"
proof -
  have "map next_char alphabet = tl alphabet @ [hd alphabet]" unfolding alphabet_def by code_simp
  then have "map next_char alphabet ! i = (tl alphabet @ [hd alphabet]) ! i" by simp
  moreover assume "i < 62"
  ultimately show ?thesis
    using hd_conv_nth [of alphabet] alphabet_nonempty
    by (cases "i = 61") (auto simp: nth_append nth_tl alphabet_length)
qed

lemma next_char_props:
  assumes "c \<in> set alphabet"
  shows "next_char c \<in> set alphabet" "dval (next_char c) = Suc (dval c) mod 62"
proof -
  obtain i where i: "i < 62" "c = alphabet ! i" using assms by (auto simp: in_set_conv_nth alphabet_length)
  then show "next_char c \<in> set alphabet" "dval (next_char c) = Suc (dval c) mod 62"
    using next_char_nth [of i] by (simp_all add: dval_nth alphabet_length)
qed

lemma b62_snoc: "b62 (s @ [c]) = 62 * b62 s + dval c"
  by (simp add: b62_def)

lemma b62_less: "set s \<subseteq> set alphabet \<Longrightarrow> b62 s < 62 ^ length s"
proof (induction s rule: rev_induct)
  case (snoc c s)
  then have "b62 s < 62 ^ length s" "dval c < 62" using dval_less by auto
  then show ?case by (simp add: b62_snoc)
qed (simp add: b62_def)

lemma b62_inject:
  "set s \<subseteq> set alphabet \<Longrightarrow> set t \<subseteq> set alphabet \<Longrightarrow> length s = length t \<Longrightarrow> b62 s = b62 t \<Longrightarrow> s = t"
proof (induction s arbitrary: t rule: rev_induct)
  case (snoc c s)
  then obtain d u where t: "t = u @ [d]" by (cases t rule: rev_cases) auto
  have c: "dval c < 62" "dval d < 62" and eq: "62 * b62 s + dval c = 62 * b62 u + dval d"
    using snoc.prems dval_less by (auto simp: t b62_snoc)
  have "b62 s = (62 * b62 s + dval c) div 62" "b62 u = (62 * b62 u + dval d) div 62" using c by simp_all
  with eq have "b62 s = b62 u" by simp
  moreover from this eq have "dval c = dval d" by simp
  ultimately show ?case using snoc.IH [of u] snoc.prems dval_inject [of c d] by (simp add: t)
qed simp

lemma increment_at_Suc:
  "increment_at (Suc d) num =
    (if num ! d = CHR ''z'' then increment_at d (num[d := CHR ''0'']) else num[d := next_char (num ! d)])"
  by (simp add: next_char_def)

declare increment_at.simps(2) [simp del]

lemma increment_at_props:
  assumes "d \<le> length num" "set num \<subseteq> set alphabet"
  shows "length (increment_at d num) = length num \<and> set (increment_at d num) \<subseteq> set alphabet
    \<and> drop d (increment_at d num) = drop d num
    \<and> b62 (take d (increment_at d num)) = (b62 (take d num) + 1) mod 62 ^ d"
  using assms
proof (induction d arbitrary: num)
  case (Suc d)
  have d: "d < length num" "num ! d \<in> set alphabet" using Suc.prems by auto
  have take: "take (Suc d) xs = take d xs @ [xs ! d]" if "length xs = length num" for xs :: string
    using that d by (simp add: take_Suc_conv_app_nth)
  have less: "b62 (take d num) < 62 ^ d"
    using b62_less [of "take d num"] Suc.prems set_take_subset [of d num] by simp
  show ?case
  proof (cases "num ! d = CHR ''z''")
    case True
    define num' where "num' = num[d := CHR ''0'']"
    have z: "dval CHR ''z'' = 61" "dval CHR ''0'' = 0" "CHR ''0'' \<in> set alphabet"
      unfolding dval_def alphabet_def by code_simp+
    have "set num' \<subseteq> set alphabet"
      using Suc.prems(2) z(3) set_update_subset_insert [of num d "CHR ''0''"] by (auto simp: num'_def)
    note IH = Suc.IH [of num', OF _ this]
    define r where "r = increment_at d num'"
    have r: "length r = length num" "set r \<subseteq> set alphabet" "drop d r = drop d num'"
      "b62 (take d r) = (b62 (take d num) + 1) mod 62 ^ d"
      using IH d by (simp_all add: r_def num'_def)
    have "r ! d = CHR ''0''" using r(1,3) d by (metis hd_drop_conv_nth num'_def nth_list_update_eq length_list_update)
    moreover have "drop (Suc d) r = drop (Suc d) num"
      using arg_cong [OF r(3), of "drop 1"] by (simp add: num'_def)
    moreover have "62 * ((b62 (take d num) + 1) mod 62 ^ d) = (62 * b62 (take d num) + 61 + 1) mod 62 ^ Suc d"
      by (simp add: mult_mod_right algebra_simps)
    ultimately show ?thesis
      using r True z by (simp add: increment_at_Suc flip: num'_def r_def) (simp add: take b62_snoc)
  next
    case False
    define c where "c = next_char (num ! d)"
    have "num ! d \<noteq> alphabet ! 61" using False by (simp add: alphabet_def)
    then have "dval (num ! d) \<noteq> 61"
      using dval_inject [OF d(2), of "alphabet ! 61"] dval_nth [of 61] by (auto simp: alphabet_length)
    then have "dval (num ! d) < 61" using dval_less [OF d(2)] by simp
    then have c: "c \<in> set alphabet" "dval c = Suc (dval (num ! d))" "dval (num ! d) < 61"
      using next_char_props [OF d(2)] by (simp_all add: c_def)
    have "62 * b62 (take d num) + dval (num ! d) + 1 < 62 ^ Suc d" using c(3) less by simp
    moreover have "set (num[d := c]) \<subseteq> set alphabet"
      using Suc.prems(2) c(1) set_update_subset_insert [of num d c] by auto
    ultimately show ?thesis
      using False c by (simp add: increment_at_Suc flip: c_def) (simp add: take b62_snoc d)
  qed
qed (simp add: b62_def)

section \<open>The search\<close>

definition is_name :: "string \<Rightarrow> bool" where
  "is_name s \<longleftrightarrow> length s = NUM_LEN \<and> set s \<subseteq> set alphabet"

lemma increment_props:
  assumes "is_name s"
  shows "is_name (increment s)" "b62 (increment s) = (b62 s + 1) mod space"
  using assms increment_at_props [of 10 s] by (auto simp: is_name_def increment_def space_def)

lemma increments:
  assumes "is_name s"
  shows "is_name ((increment ^^ k) s) \<and> b62 ((increment ^^ k) s) = (b62 s + k) mod space"
proof (induction k)
  case 0
  then show ?case using assms b62_less [of s] by (simp add: is_name_def space_def)
next
  case (Suc k)
  then show ?case using increment_props [of "(increment ^^ k) s"] by (simp add: mod_Suc_eq)
qed

text \<open>The names a run comes to, and the ones it writes.\<close>

definition visited :: "nat \<Rightarrow> string \<Rightarrow> string list" where
  "visited n s = map (\<lambda>k. (increment ^^ k) s) [0..<n]"

definition matching :: "uint32 \<Rightarrow> string list \<Rightarrow> string list" where
  "matching hash ss = filter (\<lambda>s. xfs_da_hashname s NUM_LEN = Inr hash) ss"

lemma visited_Suc: "visited (Suc n) s = s # visited n (increment s)"
  by (simp add: visited_def upt_conv_Cons map_Suc_upt [symmetric] comp_def funpow_swap1 del: upt_Suc)

definition hash_lines :: "uint32 \<Rightarrow> string list \<Rightarrow> string" where
  "hash_lines cnt ss = concat (map (\<lambda>(i, s). hash_line (cnt + of_nat i) s) (enumerate 0 ss))"

lemma hash_lines_Cons: "hash_lines cnt (s # ss) = hash_line cnt s @ hash_lines (cnt + 1) ss"
proof -
  have "map (\<lambda>(i, s). hash_line (cnt + of_nat i) s) (enumerate (Suc 0) ss)
      = map (\<lambda>(i, s). hash_line (cnt + 1 + of_nat i) s) (enumerate 0 ss)"
    by (rule nth_equalityI) (simp_all add: nth_enumerate_eq algebra_simps)
  then show ?thesis by (simp add: hash_lines_def)
qed

lemma gensamehash_run_spec:
  assumes "is_name (g_name g)"
  shows "\<exists>g'. gensamehash_run n hash g = Inr g' \<and> g_name g' = (increment ^^ n) (g_name g)
    \<and> g_out g' = g_out g @ hash_lines (hash_cnt g) (matching hash (visited n (g_name g)))"
  using assms
proof (induction n arbitrary: g)
  case 0
  then show ?case by (simp add: visited_def matching_def hash_lines_def)
next
  case (Suc n)
  obtain h where h: "xfs_da_hashname (g_name g) 10 = Inr h"
    using Suc.prems by (simp add: is_name_def xfs_da_hashname_def)
  define g1 where "g1 = (if h = hash
      then g\<lparr>g_out := g_out g @ hash_line (hash_cnt g) (g_name g), hash_cnt := hash_cnt g + 1\<rparr> else g)
      \<lparr>g_name := increment (g_name g)\<rparr>"
  have step: "gensamehash_step hash g = Inr g1" by (simp add: gensamehash_step_def h g1_def Let_def)
  have "is_name (g_name g1)" using increment_props(1) [OF Suc.prems] by (simp add: g1_def)
  then obtain g' where g': "gensamehash_run n hash g1 = Inr g'" "g_name g' = (increment ^^ n) (g_name g1)"
    "g_out g' = g_out g1 @ hash_lines (hash_cnt g1) (matching hash (visited n (g_name g1)))"
    using Suc.IH by blast
  then show ?case
    by (auto simp: step g1_def visited_Suc matching_def h hash_lines_Cons funpow_swap1)
qed

lemma add_mod_le:
  assumes "x < n" "y < n" "(b + x) mod n = (b + y) mod (n :: nat)"
  shows "y \<le> x"
proof (rule ccontr)
  assume "\<not> y \<le> x"
  moreover from this have "n dvd y - x" using assms(3) mod_eq_dvd_iff_nat [of "b + x" "b + y" n] by simp
  ultimately have "n \<le> y - x" by (intro dvd_imp_le) simp_all
  with assms(2) show False by simp
qed

lemma visited_all:
  assumes "is_name s"
  shows "distinct (visited space s)" "set (visited space s) = {t. is_name t}"
proof -
  have "b62 ((increment ^^ k) s) = (b62 s + k) mod space" for k using increments [OF assms] by blast
  then have "map b62 (visited space s) = map (\<lambda>k. (b62 s + k) mod space) [0..<space]"
    by (simp add: visited_def comp_def)
  moreover have "inj_on (\<lambda>k. (b62 s + k) mod space) {0..<space}"
  proof (rule inj_onI)
    fix x y
    assume xy: "x \<in> {0..<space}" "y \<in> {0..<space}" "(b62 s + x) mod space = (b62 s + y) mod space"
    have l: "x < space" "y < space" using xy(1,2) by simp_all
    show "x = y" by (rule order_antisym [OF add_mod_le [OF l(2,1) xy(3) [symmetric]] add_mod_le [OF l xy(3)]])
  qed
  ultimately have "distinct (map b62 (visited space s))" by (simp add: distinct_map)
  then show d: "distinct (visited space s)" by (simp add: distinct_map)
  have "{t. is_name t} = {t. set t \<subseteq> set alphabet \<and> length t = 10}" by (auto simp: is_name_def)
  then have card: "finite {t. is_name t}" "card {t. is_name t} = space"
    using finite_lists_length_eq [of "set alphabet" 10] card_lists_length_eq [of "set alphabet" 10]
      distinct_card [OF alphabet_distinct]
    by (simp_all add: alphabet_length space_def)
  have "card (set (visited space s)) = space" using distinct_card [OF d] by (simp add: visited_def)
  moreover have "set (visited space s) \<subseteq> {t. is_name t}"
    using increments [OF assms] by (auto simp: visited_def)
  ultimately show "set (visited space s) = {t. is_name t}"
    using card by (intro card_subset_eq) simp_all
qed

text \<open>
  (C10) The endless search of gensamehash, from any name over digits and letters: within \<open>62 ^ 10\<close> turns
  it comes back to the name it began with, and by then it has written to the file, numbered from the
  given counter, each name of ten such characters that has the hash, once, and nothing else.
\<close>

theorem gensamehash_complete:
  assumes "is_name (g_name g)"
  shows "\<exists>g' ss. gensamehash_run (62 ^ 10) hash g = Inr g' \<and> g_name g' = g_name g
    \<and> g_out g' = g_out g @ hash_lines (hash_cnt g) ss
    \<and> distinct ss \<and> set ss = {s. is_name s \<and> xfs_da_hashname s 10 = Inr hash}"
proof -
  obtain g' where g': "gensamehash_run space hash g = Inr g'" "g_name g' = (increment ^^ space) (g_name g)"
    "g_out g' = g_out g @ hash_lines (hash_cnt g) (matching hash (visited space (g_name g)))"
    using gensamehash_run_spec [OF assms] by blast
  have "b62 (g_name g) < space" using b62_less [of "g_name g"] assms by (simp add: is_name_def space_def)
  then have "b62 ((increment ^^ space) (g_name g)) = b62 (g_name g)" using increments [OF assms, of space] by simp
  then have "g_name g' = g_name g"
    using increments [OF assms, of space] assms g'(2) by (auto simp: is_name_def intro: b62_inject)
  moreover have "distinct (matching hash (visited space (g_name g)))"
    "set (matching hash (visited space (g_name g))) = {s. is_name s \<and> xfs_da_hashname s 10 = Inr hash}"
    using visited_all [OF assms] by (simp_all add: matching_def)
  ultimately show ?thesis using g' unfolding space_def by blast
qed

theorem gensamehash_complete_witness:
  "\<exists>g' ss. gensamehash_run (62 ^ 10) 0x366ae32b
      \<lparr>g_name = ''0000000000'', hash_filename = ''hash_0x366ae32b.1'', hash_cnt = 0, g_out = []\<rparr> = Inr g'
    \<and> g_name g' = ''0000000000'' \<and> g_out g' = hash_lines 0 ss
    \<and> distinct ss \<and> set ss = {s. is_name s \<and> xfs_da_hashname s 10 = Inr 0x366ae32b}"
proof -
  let ?g = "\<lparr>g_name = ''0000000000'', hash_filename = ''hash_0x366ae32b.1'', hash_cnt = 0, g_out = []\<rparr>"
  have "is_name (g_name ?g)" by (simp add: is_name_def alphabet_def)
  from gensamehash_complete [OF this, of "0x366ae32b"] show ?thesis by simp
qed

end
