(* ===== verification/Runtests.thy ===== *)
theory Runtests
  imports Optparse Host
begin

text \<open>
  The test runner src/runtests.c: which directory entries are tests, the comparison of the files a
  test leaves with its reference files, the time limit, the loop over the tests and the options. How a
  test is run (fork, exec, the wait with a time limit) is a parameter. One thread is modelled, as
  without the option -j.
\<close>

section \<open>State\<close>

text \<open>
  The directory the runner works in: files by path, those among them that can be opened and not read,
  and directories with their entries in the order \<^verbatim>\<open>readdir\<close> gives them.
\<close>

record testdir =
  t_files :: "string \<rightharpoonup> byte list"
  t_unreadable :: "string list"
  t_dirs :: "string \<rightharpoonup> string list"
  t_strerror :: "string \<Rightarrow> string"

record runtests_opts =
  coverage :: bool
  no_timeout :: bool
  silent_success :: bool
  nthreads :: uint32

section \<open>Which entries are tests\<close>

text \<open>The loop over the first characters of the name looks at the second one each time.\<close>

function digits_loop :: "string \<Rightarrow> nat \<Rightarrow> bool res" where
  "digits_loop name i =
     (if i < 4 then
        rbind (char_at name i) (\<lambda>c.
        if c = NUL then Inr True
        else rbind (char_at name 1) (\<lambda>d.
          if int_of_char d < int_of_char CHR ''0'' \<or> int_of_char d > int_of_char CHR ''9'' then Inr False
          else digits_loop name (i + 1)))
      else Inr True)"
  by pat_completeness auto
termination by (relation "measure (\<lambda>(name, i). 4 - i)") auto

declare digits_loop.simps [simp del]

definition is_valid_test :: "testdir \<Rightarrow> string \<Rightarrow> bool res" where
  "is_valid_test td name =
     rbind (char_at name 0) (\<lambda>c.
     if c \<noteq> CHR ''t'' then Inr False
     else rbind (digits_loop name 1) (\<lambda>good.
       Inr (good \<and> t_files td (name @ ''/'' @ ''run.us'') \<noteq> None)))"

section \<open>Comparing files\<close>

abbreviation (input) CMPFILE_BUF_LEN :: nat where "CMPFILE_BUF_LEN \<equiv> 0x100000"

text \<open>
  A stream is what is left of the file and whether reading fails. \<^verbatim>\<open>fread\<close> of a failing stream gives
  nothing and does not reach the end of the file; then nothing changes from one turn to the next.
\<close>

definition fread_chunk :: "byte list \<times> bool \<Rightarrow> byte list \<times> bool" where
  "fread_chunk s = (if snd s then ([], False)
     else (take CMPFILE_BUF_LEN (fst s), length (fst s) < CMPFILE_BUF_LEN))"

function cmp_loop :: "byte list \<times> bool \<Rightarrow> byte list \<times> bool \<Rightarrow> int res" where
  "cmp_loop a b =
     (let (da, eofa) = fread_chunk a; (db, eofb) = fread_chunk b in
      if length da \<noteq> length db \<or> da \<noteq> db then Inr (- 1)
      else if eofa \<and> eofb then Inr 0
      else if snd a \<or> snd b then Inl Hang
      else cmp_loop (drop CMPFILE_BUF_LEN (fst a), False) (drop CMPFILE_BUF_LEN (fst b), False))"
  by pat_completeness auto
termination
  by (relation "measure (\<lambda>(a, b). length (fst a))") 
     (auto simp: fread_chunk_def split: if_splits dest!: arg_cong [where f = length])

declare cmp_loop.simps [simp del]

definition cmpfiles :: "testdir \<Rightarrow> string \<Rightarrow> string \<Rightarrow> string \<Rightarrow> (int \<times> string) res" where
  "cmpfiles td fnamea fnameb log =
     (let cant = (\<lambda>f. log @ ''Can'' @ [CHR 0x27] @ ''t open file '' @ [CHR 0x27] @ f @ [CHR 0x27] @ '' for reading: ''
                   @ t_strerror td f @ [CHR 0x0A]) in
      case t_files td fnamea of None \<Rightarrow> Inr (- 1, cant fnamea)
      | Some a \<Rightarrow>
        (case t_files td fnameb of None \<Rightarrow> Inr (- 1, cant fnameb)
         | Some b \<Rightarrow>
           rbind (cmp_loop (a, fnamea \<in> set (t_unreadable td)) (b, fnameb \<in> set (t_unreadable td))) (\<lambda>r.
           Inr (r, if r = - 1 then log @ ''[!] files '' @ fnamea @ '' and '' @ fnameb @ '' don'' @ [CHR 0x27]
                     @ ''t match'' @ [CHR 0x0A] else log))))"

text \<open>
  The name of the file to compare with: the path of the reference file with three characters replaced
  where \<^verbatim>\<open>ref.\<close> first occurs in its name.
\<close>

definition out_name :: "string \<Rightarrow> string \<Rightarrow> nat \<Rightarrow> string" where
  "out_name testname d_name ref_off =
     (let reffname = testname @ ''/'' @ d_name; k = length testname + 1 + ref_off
      in take k reffname @ ''out'' @ drop (k + 3) reffname)"

fun artefacts_loop :: "testdir \<Rightarrow> string \<Rightarrow> string list \<Rightarrow> string \<Rightarrow> (int \<times> string) res" where
  "artefacts_loop td testname [] log = Inr (0, log)"
| "artefacts_loop td testname (d_name # ds) log =
     (case strstr d_name ''ref.'' of None \<Rightarrow> artefacts_loop td testname ds log
      | Some refdot \<Rightarrow>
        (let ref_off = length d_name - length refdot in
         rbind (cmpfiles td (testname @ ''/'' @ d_name) (out_name testname d_name ref_off) log) (\<lambda>(r, log).
         if r \<noteq> 0 then Inr (- 1, log) else artefacts_loop td testname ds log)))"

definition check_test_artefacts :: "testdir \<Rightarrow> string \<Rightarrow> string \<Rightarrow> (int \<times> string) res" where
  "check_test_artefacts td testname log =
     (case t_dirs td testname of
        None \<Rightarrow> Inr (- 1, log @ ''Can'' @ [CHR 0x27] @ ''t open directory '' @ [CHR 0x27] @ testname @ [CHR 0x27]
                  @ '': '' @ t_strerror td testname @ [CHR 0x0A])
      | Some ds \<Rightarrow> artefacts_loop td testname ds log)"

section \<open>The time limit\<close>

abbreviation (input) TIMEOUT_STR_MAX_LEN :: nat where "TIMEOUT_STR_MAX_LEN \<equiv> 16"

text \<open>
  The text is read into sixteen bytes whose other contents are whatever they were; no terminator is
  stored. Conversion and test look at the text up to a zero byte, or leave the buffer.
\<close>

definition timeout_text :: "(nat \<Rightarrow> byte list) \<Rightarrow> byte list \<Rightarrow> string" where
  "timeout_text garbage content =
     map (\<lambda>b. char_of (unat b)) (take TIMEOUT_STR_MAX_LEN content
       @ drop (length (take TIMEOUT_STR_MAX_LEN content)) (garbage TIMEOUT_STR_MAX_LEN))"

definition at_end :: "string \<Rightarrow> bool \<Rightarrow> char res" where
  "at_end rest closed = (case rest of [] \<Rightarrow> if closed then Inr NUL else Inl Out_of_bounds | c # _ \<Rightarrow> Inr c)"

definition get_test_timeout :: "testdir \<Rightarrow> (nat \<Rightarrow> byte list) \<Rightarrow> string \<Rightarrow> string \<Rightarrow> (uint32 \<times> string) res" where
  "get_test_timeout td garbage testname log =
     (let timeoutfname = testname @ ''/'' @ ''timeout.txt'' in
      case t_files td timeoutfname of
        None \<Rightarrow> Inr (0, log @ ''[!] Can'' @ [CHR 0x27] @ ''t open timeout.txt'' @ [CHR 0x0A] @ '': ''
                  @ t_strerror td timeoutfname @ [CHR 0x0A])
      | Some content \<Rightarrow>
        (let buf = timeout_text garbage content;
             str = takeWhile (\<lambda>c. c \<noteq> NUL) buf; closed = (NUL \<in> set buf);
             n = strtoul str 0; rest = strtoul_end str 0 in
         rbind (at_end rest closed) (\<lambda>c.
         if c = CHR ''s'' then Inr (n, log)
         else if c = CHR ''m'' then Inr (n * 60 + strtoul (tl rest) 0, log)
         else if closed then Inr (0, log @ ''[!] bad timeout value: '' @ str @ [CHR 0x0A])
         else Inl Out_of_bounds)))"

section \<open>The loop over the tests and the options\<close>

text \<open>\<^term>\<open>run\<close> is whether running a test gave a result other than zero.\<close>

fun thread_run_test :: "testdir \<Rightarrow> (string \<Rightarrow> bool) \<Rightarrow> bool \<Rightarrow> string list \<Rightarrow> string \<Rightarrow> string res" where
  "thread_run_test td run silent [] log = Inr log"
| "thread_run_test td run silent (testname # ds) log =
     rbind (is_valid_test td testname) (\<lambda>valid.
     if \<not> valid then thread_run_test td run silent ds log
     else
       (let log = log @ ''running test '' @ testname @ [CHR 0x0A] in
        rbind (if run testname then Inr (1, log) else check_test_artefacts td testname log) (\<lambda>(r, log).
        thread_run_test td run silent ds
          (if r \<noteq> 0 then log @ ''[!] test '' @ testname @ '' failed'' @ [CHR 0x0A]
           else if \<not> silent then log @ ''test '' @ testname @ '' ok'' @ [CHR 0x0A] else log))))"

definition run_opt :: "int \<Rightarrow> cptr \<Rightarrow> runtests_opts \<Rightarrow> runtests_opts ctl res" where
  "run_opt r p s =
     (if r = int_of_char CHR ''c'' then Inr (Continue (s\<lparr>coverage := True\<rparr>))
      else if r = int_of_char CHR ''j'' then rbind (deref_ptr p) (\<lambda>a. Inr (Continue (s\<lparr>nthreads := strtoul a 0\<rparr>)))
      else if r = int_of_char CHR ''s'' then Inr (Continue (s\<lparr>silent_success := False\<rparr>))
      else if r = int_of_char CHR ''t'' then Inr (Continue (s\<lparr>no_timeout := True\<rparr>))
      else Inl (Exit 1))"

definition runtests_options :: "argv \<Rightarrow> runtests_opts res" where
  "runtests_options argv =
     rbind (optparse_init argv) (\<lambda>opts.
     rbind (opt_while opts ''cj:st'' run_opt
              \<lparr>coverage = False, no_timeout = False, silent_success = True, nthreads = 1\<rparr>) (\<lambda>(c, opts).
     case c of Continue s \<Rightarrow> Inr s | Return s \<Rightarrow> Inr s))"

section \<open>The comparison is right\<close>

lemma cmp_loop_eq: "cmp_loop (a, False) (b, False) = Inr (if a = b then 0 else - 1)"
proof (induction "length a" arbitrary: a b rule: less_induct)
  case less
  define n where "n = (0x100000 :: nat)"
  have n: "0 < n" by (simp add: n_def)
  have body: "cmp_loop (a, False) (b, False) =
      (if take n a \<noteq> take n b then Inr (- 1) else if length a < n \<and> length b < n then Inr 0
       else cmp_loop (drop n a, False) (drop n b, False))"
    by (subst cmp_loop.simps) (auto simp: fread_chunk_def n_def Let_def)
  show ?case
  proof (cases "take n a = take n b")
    case True
    have l: "min (length a) n = min (length b) n" using arg_cong [OF True, of length] by (simp add: min.commute)
    show ?thesis
    proof (cases "length a < n")
      case True
      with l have "length b < n" by (simp add: min_def split: if_splits)
      with True \<open>take n a = take n b\<close> show ?thesis unfolding body by simp
    next
      case False
      with l have "n \<le> length b" by (simp add: min_def split: if_splits)
      moreover have "cmp_loop (drop n a, False) (drop n b, False) = Inr (if drop n a = drop n b then 0 else - 1)"
        using False n by (intro less) simp
      moreover have "a = b \<longleftrightarrow> drop n a = drop n b" using True by (metis append_take_drop_id)
      ultimately show ?thesis unfolding body using True False by simp
    qed
  next
    case False
    then have "a \<noteq> b" by auto
    with False show ?thesis unfolding body by simp
  qed
qed

lemma cmpfiles_eq:
  assumes "fnamea \<notin> set (t_unreadable td)" "fnameb \<notin> set (t_unreadable td)"
  shows "\<exists>l. cmpfiles td fnamea fnameb log =
    Inr (if t_files td fnamea \<noteq> None \<and> t_files td fnamea = t_files td fnameb then 0 else - 1, l)"
proof (cases "t_files td fnamea")
  case None
  then show ?thesis by (simp add: cmpfiles_def)
next
  case (Some a)
  then show ?thesis
    using assms by (cases "t_files td fnameb") (simp_all add: cmpfiles_def Let_def cmp_loop_eq)
qed

lemma strstr_Some:
  "strstr s needle = Some r \<Longrightarrow> \<exists>pre post. s = pre @ needle @ post \<and> r = needle @ post"
proof (induction s)
  case (Cons c s)
  show ?case
  proof (cases "take (length needle) (c # s) = needle")
    case True
    then have "c # s = needle @ drop (length needle) (c # s)" by (metis append_take_drop_id)
    moreover have "r = c # s" using Cons.prems True by simp
    ultimately show ?thesis by (intro exI [of _ "[]"] exI [of _ "drop (length needle) (c # s)"]) simp
  next
    case False
    then obtain pre post where "s = pre @ needle @ post" "r = needle @ post"
      using Cons by auto
    then have "c # s = (c # pre) @ needle @ post" by simp
    with \<open>r = needle @ post\<close> show ?thesis by blast
  qed
qed (simp split: if_splits)

lemma out_name_eq: "out_name t (pre @ ''ref.'' @ post) (length pre) = t @ ''/'' @ pre @ ''out.'' @ post"
proof -
  define x where "x = t @ ''/'' @ pre"
  have e: "t @ ''/'' @ pre @ ''ref.'' @ post = x @ ''ref'' @ ''.'' @ post" "length t + 1 + length pre = length x"
    by (simp_all add: x_def)
  have "out_name t (pre @ ''ref.'' @ post) (length pre) = x @ ''out'' @ ''.'' @ post"
    by (simp only: out_name_def Let_def e) simp
  then show ?thesis by (simp add: x_def)
qed

text \<open>The pairs of files a test with the entries \<^term>\<open>ds\<close> compares.\<close>

definition artefacts :: "string \<Rightarrow> string list \<Rightarrow> (string \<times> string) set" where
  "artefacts testname ds = {(testname @ ''/'' @ pre @ ''ref.'' @ post, testname @ ''/'' @ pre @ ''out.'' @ post) | pre post.
     pre @ ''ref.'' @ post \<in> set ds \<and> strstr (pre @ ''ref.'' @ post) ''ref.'' = Some (''ref.'' @ post)}"

lemma artefacts_loop_eq:
  assumes "\<forall>(a, b)\<in>artefacts testname ds. a \<notin> set (t_unreadable td) \<and> b \<notin> set (t_unreadable td)"
  shows "\<exists>r l. artefacts_loop td testname ds log = Inr (r, l)
    \<and> (r = 0 \<longleftrightarrow> (\<forall>(a, b)\<in>artefacts testname ds. t_files td a \<noteq> None \<and> t_files td a = t_files td b))"
  using assms
proof (induction ds arbitrary: log)
  case Nil
  then show ?case by (auto simp: artefacts_def)
next
  case (Cons d ds)
  have rest: "\<forall>(a, b)\<in>artefacts testname ds. a \<notin> set (t_unreadable td) \<and> b \<notin> set (t_unreadable td)"
    using Cons.prems by (fastforce simp: artefacts_def)
  show ?case
  proof (cases "strstr d ''ref.''")
    case None
    then have "artefacts testname (d # ds) = artefacts testname ds"
      by (auto simp: artefacts_def)
    with None Cons.IH [OF rest, of log] show ?thesis by simp
  next
    case (Some r)
    obtain pre post where d: "d = pre @ ''ref.'' @ post" "r = ''ref.'' @ post"
      using strstr_Some [OF Some] by blast
    define a b where "a = testname @ ''/'' @ pre @ ''ref.'' @ post" and "b = testname @ ''/'' @ pre @ ''out.'' @ post"
    have ab: "artefacts testname (d # ds) = insert (a, b) (artefacts testname ds)"
      using Some by (auto simp: artefacts_def d a_def b_def)
    have out: "out_name testname d (length d - length r) = b"
      using out_name_eq [of testname pre post] by (simp add: d b_def)
    have a: "testname @ ''/'' @ d = a" by (simp add: d a_def)
    obtain l where l: "cmpfiles td a b log = Inr (if t_files td a \<noteq> None \<and> t_files td a = t_files td b then 0 else - 1, l)"
      using cmpfiles_eq [of a td b log] Cons.prems ab by auto
    have step: "artefacts_loop td testname (d # ds) log =
      (if t_files td a \<noteq> None \<and> t_files td a = t_files td b then artefacts_loop td testname ds l else Inr (- 1, l))"
      by (simp only: artefacts_loop.simps Some option.case Let_def out a l rbind_simps prod.case) auto
    show ?thesis unfolding step ab using Cons.IH [OF rest, of l] by (cases "t_files td a") auto
  qed
qed

text \<open>
  (C11) The check of what a test leaves behind, for files that can be read: it finds no fault exactly
  when the directory can be opened and every file whose name has \<^verbatim>\<open>ref.\<close> in it has a partner with
  \<^verbatim>\<open>out.\<close> in that place and the same contents, byte for byte, however many buffers they fill.
\<close>

theorem check_test_artefacts_correct:
  assumes "\<forall>(a, b)\<in>artefacts testname (case t_dirs td testname of None \<Rightarrow> [] | Some ds \<Rightarrow> ds).
      a \<notin> set (t_unreadable td) \<and> b \<notin> set (t_unreadable td)"
  shows "\<exists>r l. check_test_artefacts td testname log = Inr (r, l)
    \<and> (r = 0 \<longleftrightarrow> (\<exists>ds. t_dirs td testname = Some ds
        \<and> (\<forall>(a, b)\<in>artefacts testname ds. t_files td a \<noteq> None \<and> t_files td a = t_files td b)))"
proof (cases "t_dirs td testname")
  case None
  then show ?thesis by (simp add: check_test_artefacts_def)
next
  case (Some ds)
  then show ?thesis
    using artefacts_loop_eq [of testname ds td log] assms by (simp add: check_test_artefacts_def)
qed

definition ex_testdir :: testdir where
  "ex_testdir = \<lparr>t_files = [''t001/ref.log'' \<mapsto> [1, 2], ''t001/out.log'' \<mapsto> [1, 3]], t_unreadable = [],
     t_dirs = [''t001'' \<mapsto> [''run.us'', ''ref.log'', ''out.log'']], t_strerror = (\<lambda>_. [])\<rparr>"

theorem check_test_artefacts_correct_witness:
  "\<exists>r l. check_test_artefacts ex_testdir ''t001'' [] = Inr (r, l)
    \<and> (r = 0 \<longleftrightarrow> (\<exists>ds. t_dirs ex_testdir ''t001'' = Some ds \<and> (\<forall>(a, b)\<in>artefacts ''t001'' ds.
        t_files ex_testdir a \<noteq> None \<and> t_files ex_testdir a = t_files ex_testdir b)))"
  by (rule check_test_artefacts_correct) (simp add: ex_testdir_def split_beta)

lemma digits_loop_true:
  assumes "i \<le> length name" "1 < length name"
    "int_of_char CHR ''0'' \<le> int_of_char (name ! 1)" "int_of_char (name ! 1) \<le> int_of_char CHR ''9''"
  shows "digits_loop name i = Inr True"
  using assms(1)
proof (induction "4 - i" arbitrary: i)
  case 0
  then show ?case by (subst digits_loop.simps) simp
next
  case (Suc k)
  have d: "char_at name 1 = Inr (name ! 1)" using assms(2) by (simp add: char_at_def)
  show ?case
  proof (cases "i < length name \<and> name ! i \<noteq> NUL")
    case True
    then have "digits_loop name (i + 1) = Inr True" using Suc by simp
    moreover have "char_at name i = Inr (name ! i)" using True by (simp add: char_at_def)
    ultimately show ?thesis
      using True Suc.hyps(2) d assms(3,4) by (subst digits_loop.simps) simp
  next
    case False
    then have "char_at name i = Inr NUL" using Suc.prems by (auto simp: char_at_def)
    then show ?thesis by (subst digits_loop.simps) simp
  qed
qed

text \<open>
  The names the runner takes for tests: the loop looks at the second character each time, so whatever
  follows a \<^verbatim>\<open>t\<close> and a digit, a name passes if it has a run.us, against the comment that asks for three
  digits.
\<close>

theorem is_valid_test_loose:
  assumes "int_of_char CHR ''0'' \<le> int_of_char d" "int_of_char d \<le> int_of_char CHR ''9''"
    "t_files td ((CHR ''t'' # d # rest) @ ''/'' @ ''run.us'') \<noteq> None"
  shows "is_valid_test td (CHR ''t'' # d # rest) = Inr True"
  using assms digits_loop_true [of 1 "CHR ''t'' # d # rest"]
  by (simp add: is_valid_test_def char_at_def)

end
