(* ===== verification/Spec2Isabelle.thy ===== *)
theory Spec2Isabelle
  imports Optparse IoProtocol Qcow2Props Vdisk Vnet Syscalls Usage Umkart
    FsProps SysProps CmdProtocol NetProps InflateStored
    Samehash Gensamehash Runtests
begin

text \<open>
  \<^bold>\<open>UMKa: verification development\<close>

  UMKa runs the KolibriOS kernel as an ordinary program of the host and drives it for tests. The
  development models its C code as HOL functions, translated definition by definition from the files
  under src/, and proves what makes the parts correct; where the code does not do what it means to,
  the behaviour it has is a theorem instead.

  \<^bold>\<open>The program.\<close> A shell (src/shell.c) reads the lines of a test, splits them and calls one of about
  140 command handlers. A handler calls the kernel through the wrappers of src/umka.h, which load
  the registers of a system call, or looks at the kernel's tables. Disk commands open images through
  src/vdisk.c with the drivers src/vdisk/raw.c and src/vdisk/qcow2.c; the drivers read through
  src/umkaio.c, which hands reads to a helper thread while the kernel runs; compressed clusters go
  through src/deps/em_inflate. Network commands make cards from src/vnet.c and its back ends. Options
  are parsed by src/deps/optparse. Beside it stand the test runner src/runtests.c and small tools that
  prepare disk images.

  \<^bold>\<open>Conventions.\<close> The 32-bit build is modelled: size_t, long and pointers have 32 bits, off_t 64.
  Integers whose width matters are words, others int or nat. A computation that may go wrong has the
  type \<open>'a res\<close>, a fault (null pointer, freed memory, access out of bounds, exit with a code, unset
  variable, endless loop) or a value; \<^const>\<open>rbind\<close> composes them, so that a theorem that a result is \<open>Inr\<close>
  excludes all faults. State is passed explicitly in records named after the structs. Pointers in an
  argument vector are values of \<open>cptr\<close>: null, a live string, or a string that has been freed.

  \<^bold>\<open>Theories and sources.\<close>
  \<^item> Prelude, Libc, Host: the types, the fault monad and argument vectors; the scanners, printers and
    string functions of the C library the code calls; files, descriptors and memory of the host.
  \<^item> Optparse: src/deps/optparse/optparse.h. The option loop is proved equal to a reference parser; the
    argument vector is only permuted.
  \<^item> UmkaIO, IoProtocol: src/umkaio.c. The second is a step relation of kernel threads and the helper
    thread over the command slot, locks and condition variables: with one client it refines an atomic
    read and can finish unless a signal was lost; the lost signal and two interfering clients are
    reachable.
  \<^item> RawDisk, Qcow2, Qcow2Props, Vdisk: the image drivers and their common part. The locale
    readable_device is the contract of a device whose reads return the guest's bytes; both drivers
    interpret it.
  \<^item> Bitreader, Huffman, Checksum, Inflate: src/deps/em_inflate/em_inflate.c in its order; HuffmanProps,
    InflateProps, InflateSafe, InflateStored: the decoder reads canonical codes, the checksums are
    those of the RFCs, the whole routine is safe on any input, stored data comes back unchanged.
  \<^item> Vnet: src/vnet.c, src/vnet/null.c, src/vnet/file.c, src/linux/vnet/tap.c.
  \<^item> Syscalls, SysProps: the wrappers of src/umka.h and the fields of their registers.
  \<^item> ShellCore to ShellMisc: src/shell.c, the state, the helpers and the handlers group by group; Usage:
    the usage texts; ShellLoop: the command table, help, the lines of a test; CmdProtocol: the slot
    between the shell's thread and the command thread as a step relation; ShellInv: the locale
    shell_relation, a relation between shells that all updates of handlers respect, interpreted by
    well-formedness and by the growth of the output; ShellProps, ShellTests, FsProps, NetProps:
    dispatch, faults, help, variables, directory listings, numbers and addresses.
  \<^item> Umkart: src/umkart.c. Runtests: src/runtests.c. XfsHash, XfsNames, Samehash, Gensamehash:
    src/tools/gensamehash.c and src/tools/mksamehash.c.

  \<^bold>\<open>Parameters.\<close> The kernel is not under src/: it is the argument K of the handlers, a record of functions
  from registers and kernel state to results and kernel state. Theorems that need more of it name the
  documented behaviour they use, such as \<^const>\<open>serves_dir\<close> for directory reads. PNG encoding, hashing,
  local time, error texts, the contents of uninitialised memory, the success of allocations, and how
  the runner starts a test are parameters too. The decompressor is a parameter of the qcow2 driver,
  which calls it with source and destination exchanged, and is modelled on its own.

  \<^bold>\<open>Loops and fuel.\<close> Most loops are recursion with a termination proof. Fuel is used where the end of a
  loop depends on data that an invariant bounds, and running out of it is the fault Hang, which the
  theorems exclude: the code lengths of a block (one per symbol), the symbols of a block (one more than
  the room in the output), the blocks of a stream (sixteen per byte and one, since each takes header
  bits from what is left), the segment count of mksamehash (24, since the power it computes is zero
  modulo \<open>2 ^ 64\<close> from the 22nd on). Listing a directory and draining the debug board ask the kernel until
  it says so and are partial functions; that the listing returns is proved for kernels that serve a
  directory.

  \<^bold>\<open>Not modelled.\<close> The programs umka_os (signal handlers, timers and SDL windows), umka_fuse (callbacks
  of the FUSE library) and umka_shell (start-up around the shell); src/linux/pci.c and
  umka_gen_devices_dat.c (sysfs and the kernel's ACPI interpreter); thread switching and branch tracing,
  which are assembly and processor records; the assembly that links the kernel and the test
  applications in assembly; lodepng and isocline, whose results are parameters or input; the long
  options of optparse, which no program calls; the runner with several threads; the remaining
  generators of test images; the Windows stubs.
\<close>

end
